(* ===== verification/Prelude.thy ===== *)
theory Prelude
  imports Main "HOL-Library.Word" "HOL-Library.Code_Target_Numeral"
begin

unbundle bit_operations_syntax

text \<open>
  Shared vocabulary of the development: the machine integers and byte strings of the Rust
  sources, the \<open>Result\<close> type and its \<open>?\<close> operator, big-endian integers, UTF-8 validity, the
  slice readers that three crates write out for themselves (\<open>Decoder\<close> in messenger-protocol,
  \<open>DirectoryReader\<close> in messenger-transport, \<open>Reader\<close> in core-api), and two interfaces as
  locales: \<open>byte_reader\<close> (what a reader over a slice promises) and \<open>wire_codec\<close> (what an
  encoder and a decoder of one wire format promise to each other).
\<close>

named_theorems result_simps \<open>inversion of results and of the early-return operator\<close>
named_theorems reader_simps \<open>success of a read, as a statement on the bytes consumed\<close>

section \<open>Machine integers, byte strings, results\<close>

type_synonym byte = "8 word"
type_synonym u16 = "16 word"
type_synonym u32 = "32 word"
type_synonym u64 = "64 word"
type_synonym bytes = "byte list"
type_synonym ('e, 'a) result = "'e + 'a"

text \<open>The largest \<open>usize\<close> plus one, on the 64-bit targets of the repository.\<close>

definition usize_bound :: nat where
  "usize_bound = 2 ^ 64"

text \<open>
  Rust's \<open>r?\<close> followed by the rest of the function is \<open>and_then r rest\<close>: the error returns
  early, the value goes on.
\<close>

fun and_then :: "('e, 'a) result \<Rightarrow> ('a \<Rightarrow> ('e, 'b) result) \<Rightarrow> ('e, 'b) result" where
  "and_then (Inl e) f = Inl e"
| "and_then (Inr x) f = f x"

fun map_err :: "('e \<Rightarrow> 'f) \<Rightarrow> ('e, 'a) result \<Rightarrow> ('f, 'a) result" where
  "map_err g (Inl e) = Inl (g e)"
| "map_err g (Inr x) = Inr x"

fun ok_or :: "'e \<Rightarrow> 'a option \<Rightarrow> ('e, 'a) result" where
  "ok_or e None = Inl e"
| "ok_or e (Some x) = Inr x"

fun is_ok :: "('e, 'a) result \<Rightarrow> bool" where
  "is_ok (Inl e) = False"
| "is_ok (Inr x) = True"

text \<open>The checked addition of \<open>usize\<close> positions.\<close>

definition checked_add :: "nat \<Rightarrow> nat \<Rightarrow> nat option" where
  "checked_add a b = (if a + b < usize_bound then Some (a + b) else None)"

text \<open>The saturating addition of \<open>u64\<close> values.\<close>

definition saturating_add64 :: "u64 \<Rightarrow> u64 \<Rightarrow> u64" where
  "saturating_add64 a b = (if unat a + unat b < 2 ^ 64 then a + b else - 1)"

section \<open>Big-endian integers\<close>

text \<open>\<open>to_be_bytes\<close> of a \<open>k\<close>-byte integer and \<open>from_be_bytes\<close>, over natural numbers.\<close>

fun be_of_nat :: "nat \<Rightarrow> nat \<Rightarrow> bytes" where
  "be_of_nat 0 n = []"
| "be_of_nat (Suc k) n = word_of_nat (n div 256 ^ k) # be_of_nat k n"

fun be_to_nat :: "bytes \<Rightarrow> nat" where
  "be_to_nat [] = 0"
| "be_to_nat (b # bs) = unat b * 256 ^ length bs + be_to_nat bs"

definition be16 :: "u16 \<Rightarrow> bytes" where "be16 w = be_of_nat 2 (unat w)"
definition be32 :: "u32 \<Rightarrow> bytes" where "be32 w = be_of_nat 4 (unat w)"
definition be64 :: "u64 \<Rightarrow> bytes" where "be64 w = be_of_nat 8 (unat w)"

definition from_be16 :: "bytes \<Rightarrow> u16" where "from_be16 bs = word_of_nat (be_to_nat bs)"
definition from_be32 :: "bytes \<Rightarrow> u32" where "from_be32 bs = word_of_nat (be_to_nat bs)"
definition from_be64 :: "bytes \<Rightarrow> u64" where "from_be64 bs = word_of_nat (be_to_nat bs)"

text \<open>A byte-string literal \<open>b".."\<close>, and Rust's \<open>starts_with\<close>.\<close>

definition ascii :: "string \<Rightarrow> bytes" where
  "ascii s = map of_char s"

definition starts_with :: "bytes \<Rightarrow> bytes \<Rightarrow> bool" where
  "starts_with b p \<longleftrightarrow> take (length p) b = p"

section \<open>UTF-8\<close>

text \<open>
  A Rust \<open>String\<close> is a byte string that is valid UTF-8; the model keeps the bytes and the
  check of \<open>std::str::from_utf8\<close> (Unicode table 3-7: no overlong form, no surrogate, nothing
  above U+10FFFF).
\<close>

definition between :: "byte \<Rightarrow> byte \<Rightarrow> byte \<Rightarrow> bool" where
  "between lo hi b \<longleftrightarrow> lo \<le> b \<and> b \<le> hi"

fun utf8_valid :: "bytes \<Rightarrow> bool" where
  "utf8_valid [] = True"
| "utf8_valid (a # bs) =
     (if a < 0x80 then utf8_valid bs
      else case bs of
        [] \<Rightarrow> False
      | b # cs \<Rightarrow>
          if between 0xC2 0xDF a then between 0x80 0xBF b \<and> utf8_valid cs
          else case cs of
            [] \<Rightarrow> False
          | c # ds \<Rightarrow>
              if between 0xE0 0xEF a then
                between (if a = 0xE0 then 0xA0 else 0x80) (if a = 0xED then 0x9F else 0xBF) b \<and>
                between 0x80 0xBF c \<and> utf8_valid ds
              else case ds of
                [] \<Rightarrow> False
              | d # es \<Rightarrow>
                  between 0xF0 0xF4 a \<and>
                  between (if a = 0xF0 then 0x90 else 0x80) (if a = 0xF4 then 0x8F else 0xBF) b \<and>
                  between 0x80 0xBF c \<and> between 0x80 0xBF d \<and> utf8_valid es)"

section \<open>Readers over a slice\<close>

text \<open>
  The three readers of the sources are a borrowed slice and a position. \<open>remaining\<close> is what
  is left to read, \<open>advance\<close> moves the position, \<open>starts r x\<close> says that the unread part of
  \<open>r\<close> begins with the bytes \<open>x\<close>.
\<close>

record slice_reader =
  buf :: bytes
  pos :: nat

definition remaining :: "slice_reader \<Rightarrow> bytes" where
  "remaining r = drop (pos r) (buf r)"

definition advance :: "nat \<Rightarrow> slice_reader \<Rightarrow> slice_reader" where
  "advance n r = r\<lparr>pos := pos r + n\<rparr>"

definition starts :: "slice_reader \<Rightarrow> bytes \<Rightarrow> bool" where
  "starts r x \<longleftrightarrow> pos r + length x \<le> length (buf r) \<and> take (length x) (remaining r) = x"

text \<open>Rust's \<open>slice.get(from..to)\<close>.\<close>

definition slice_get :: "bytes \<Rightarrow> nat \<Rightarrow> nat \<Rightarrow> bytes option" where
  "slice_get b from to = (if from \<le> to \<and> to \<le> length b then Some (take (to - from) (drop from b)) else None)"

section \<open>Lemmas on results\<close>

lemma and_then_Inr_iff [result_simps]:
  "and_then r f = Inr y \<longleftrightarrow> (\<exists>x. r = Inr x \<and> f x = Inr y)"
  by (cases r) auto

lemma and_then_Inl_iff [result_simps]:
  "and_then r f = Inl e \<longleftrightarrow> r = Inl e \<or> (\<exists>x. r = Inr x \<and> f x = Inl e)"
  by (cases r) auto

lemma map_err_Inr_iff [result_simps]: "map_err g r = Inr x \<longleftrightarrow> r = Inr x"
  by (cases r) auto

lemma map_err_Inl_iff [result_simps]: "map_err g r = Inl f \<longleftrightarrow> (\<exists>e. r = Inl e \<and> f = g e)"
  by (cases r) auto

lemma ok_or_Inr_iff [result_simps]: "ok_or e v = Inr x \<longleftrightarrow> v = Some x"
  by (cases v) auto

lemma ok_or_Inl_iff [result_simps]: "ok_or e v = Inl f \<longleftrightarrow> v = None \<and> f = e"
  by (cases v) auto

lemma if_Inl_Inr_iff [result_simps]:
  "(if c then Inl e else r) = Inr x \<longleftrightarrow> \<not> c \<and> r = Inr x"
  "(if c then r else Inl e) = Inr x \<longleftrightarrow> c \<and> r = Inr x"
  by simp_all

lemma is_ok_iff [result_simps]: "is_ok r \<longleftrightarrow> (\<exists>x. r = Inr x)"
  by (cases r) auto

lemma and_then_assoc: "and_then (and_then r f) g = and_then r (\<lambda>x. and_then (f x) g)"
  by (cases r) auto

lemma unat_saturating_add64: "unat (saturating_add64 a b) = min (unat a + unat b) (2 ^ 64 - 1)"
proof (cases "unat a + unat b < 2 ^ 64")
  case True
  then have "unat (a + b) = unat a + unat b"
    by (simp add: unat_word_ariths)
  with True show ?thesis by (simp add: saturating_add64_def)
next
  case False
  then show ?thesis by (simp add: saturating_add64_def unsigned_minus_1_eq_mask mask_eq_exp_minus_1)
qed

section \<open>Lemmas on widening and narrowing casts\<close>

lemma unat_bounds: "unat (b :: byte) < 256" "unat (h :: u16) < 65536" "unat (w :: u32) < 4294967296"
  using unsigned_less [of b, where ?'a = nat] unsigned_less [of h, where ?'a = nat]
    unsigned_less [of w, where ?'a = nat]
  by simp_all

lemma unat_ucast_up:
  "unat (ucast (b :: byte) :: u64) = unat b" "unat (ucast (h :: u16) :: u64) = unat h"
  "unat (ucast (w :: u32) :: u64) = unat w"
  using unsigned_less [of b, where ?'a = nat] unsigned_less [of h, where ?'a = nat]
    unsigned_less [of w, where ?'a = nat]
  by (simp_all add: unsigned_ucast_eq take_bit_nat_eq_self_iff)

lemma ucast_up_down:
  "ucast (ucast b :: u64) = (b :: byte)" "ucast (ucast h :: u64) = (h :: u16)"
  "ucast (ucast w :: u64) = (w :: u32)"
  using unat_bounds(1) [of b] unat_bounds(2) [of h] unat_bounds(3) [of w]
  by (simp_all add: word_unat_eq_iff unsigned_ucast_eq unsigned_take_bit_eq take_bit_nat_eq_self_iff)

lemma ucast_down_up:
  fixes n :: u64
  shows "unat n < 2 ^ 8 \<Longrightarrow> ucast (ucast n :: byte) = n"
    and "unat n < 2 ^ 16 \<Longrightarrow> ucast (ucast n :: u16) = n"
    and "unat n < 2 ^ 32 \<Longrightarrow> ucast (ucast n :: u32) = n"
  by (rule word_unat_eq_iff [THEN iffD2],
      simp add: unsigned_ucast_eq unsigned_take_bit_eq take_bit_nat_eq_self_iff)+

section \<open>Lemmas on big-endian integers\<close>

lemma length_ascii [simp]: "length (ascii s) = length s"
  by (simp add: ascii_def)

lemma length_be_of_nat [simp]: "length (be_of_nat k n) = k"
  by (induction k) auto

lemma be_to_nat_bound: "be_to_nat bs < 256 ^ length bs"
proof (induction bs)
  case Nil
  then show ?case by simp
next
  case (Cons b bs)
  have "unat b \<le> 255"
    using unsigned_less [of b, where ?'a = nat] by simp
  then have "unat b * 256 ^ length bs \<le> 255 * 256 ^ length bs"
    by (rule mult_le_mono1)
  then have "be_to_nat (b # bs) < 255 * 256 ^ length bs + 256 ^ length bs"
    unfolding be_to_nat.simps using Cons.IH by (rule add_le_less_mono)
  then show ?case by simp
qed

lemma be_to_nat_of_nat: "be_to_nat (be_of_nat k n) = n mod 256 ^ k"
proof (induction k)
  case 0
  then show ?case by simp
next
  case (Suc k)
  have "n mod 256 ^ Suc k = 256 ^ k * (n div 256 ^ k mod 256) + n mod 256 ^ k"
    using mod_mult2_eq [of n "256 ^ k" 256] by (simp add: mult.commute)
  then show ?case
    using Suc by (simp add: unat_of_nat mult.commute)
qed

lemma be_of_nat_add: "be_of_nat k (a * 256 ^ k + n) = be_of_nat k n"
proof -
  have "be_of_nat j (a * 256 ^ k + n) = be_of_nat j n" if "j \<le> k" for j
    using that
  proof (induction j)
    case 0
    then show ?case by simp
  next
    case (Suc j)
    obtain i where k: "k = Suc i + j"
      using Suc.prems by (metis add.commute add_Suc_right le_Suc_ex)
    have "a * 256 ^ k + n = n + (256 * (a * 256 ^ i)) * 256 ^ j"
      by (simp add: k power_add ac_simps)
    moreover have "(n + (256 * (a * 256 ^ i)) * 256 ^ j) div 256 ^ j = 256 * (a * 256 ^ i) + n div 256 ^ j"
      by (rule div_mult_self1) simp
    ultimately have shift: "(a * 256 ^ k + n) div 256 ^ j = n div 256 ^ j + 256 * (a * 256 ^ i)"
      by (simp only: add.commute)
    have low: "(word_of_nat (m + 256 * b) :: byte) = word_of_nat m" for m b
      by (simp only: word_of_nat_eq_iff take_bit_eq_mod) simp
    show ?case
      using Suc by (simp only: be_of_nat.simps shift low)
  qed
  then show ?thesis by simp
qed

lemma be_of_nat_to_nat: "length bs = k \<Longrightarrow> be_of_nat k (be_to_nat bs) = bs"
proof (induction bs arbitrary: k)
  case Nil
  then show ?case by simp
next
  case (Cons b bs)
  have "(unat b * 256 ^ length bs + be_to_nat bs) div 256 ^ length bs = unat b"
    using be_to_nat_bound [of bs] by simp
  with Cons show ?case by (auto simp: be_of_nat_add)
qed

lemma from_be16_be16 [simp]: "from_be16 (be16 w) = w"
  and from_be32_be32 [simp]: "from_be32 (be32 v) = v"
  and from_be64_be64 [simp]: "from_be64 (be64 u) = u"
  using unsigned_less [of w, where ?'a = nat] unsigned_less [of v, where ?'a = nat]
    unsigned_less [of u, where ?'a = nat]
  by (simp_all add: from_be16_def be16_def from_be32_def be32_def from_be64_def be64_def
      be_to_nat_of_nat)

lemma length_be [simp]: "length (be16 w) = 2" "length (be32 v) = 4" "length (be64 u) = 8"
  by (simp_all add: be16_def be32_def be64_def)

lemma be16_from_be16: "length bs = 2 \<Longrightarrow> be16 (from_be16 bs) = bs"
  and be32_from_be32: "length bs = 4 \<Longrightarrow> be32 (from_be32 bs) = bs"
  and be64_from_be64: "length bs = 8 \<Longrightarrow> be64 (from_be64 bs) = bs"
  using be_to_nat_bound [of bs]
  by (simp_all add: from_be16_def be16_def from_be32_def be32_def from_be64_def be64_def
      unat_of_nat be_of_nat_to_nat)

text \<open>A big-endian field is read back as a value exactly from the bytes that write it.\<close>

lemma be16_iff: "length bs = 2 \<Longrightarrow> from_be16 bs = w \<longleftrightarrow> bs = be16 w"
  and be32_iff: "length bs = 4 \<Longrightarrow> from_be32 bs = v \<longleftrightarrow> bs = be32 v"
  and be64_iff: "length bs = 8 \<Longrightarrow> from_be64 bs = u \<longleftrightarrow> bs = be64 u"
  using be16_from_be16 be32_from_be32 be64_from_be64 by (metis from_be16_be16 from_be32_be32 from_be64_be64)+

section \<open>Lemmas on slice readers\<close>

lemma advance_simps [simp]:
  "buf (advance n r) = buf r" "pos (advance n r) = pos r + n"
  "advance m (advance n r) = advance (n + m) r" "advance 0 r = r"
  by (simp_all add: advance_def)

lemma starts_Nil [simp]: "starts r [] \<longleftrightarrow> pos r \<le> length (buf r)"
  by (simp add: starts_def)

lemma starts_append: "starts r (x @ y) \<longleftrightarrow> starts r x \<and> starts (advance (length x) r) y"
proof (cases "pos r + length x + length y \<le> length (buf r)")
  case True
  then have "take (length x + length y) (remaining r)
      = take (length x) (remaining r) @ take (length y) (remaining (advance (length x) r))"
    by (simp add: remaining_def take_add add.commute)
  with True show ?thesis
    by (auto simp: starts_def remaining_def)
next
  case False
  then show ?thesis by (auto simp: starts_def)
qed

lemma starts_new: "starts \<lparr>buf = bs, pos = 0\<rparr> x \<and> length bs = length x \<longleftrightarrow> bs = x"
  by (auto simp: starts_def remaining_def)

lemma starts_Cons: "starts r (x # xs) \<longleftrightarrow>
   pos r < length (buf r) \<and> buf r ! pos r = x \<and> starts (advance 1 r) xs"
  using starts_append[of r "[x]" xs]
  by (auto simp: starts_def remaining_def take_Suc_conv_app_nth hd_drop_conv_nth)

text \<open>Every Rust slice fits the address space; positions in it never overflow.\<close>

definition addressable :: "slice_reader \<Rightarrow> bool" where
  "addressable r \<longleftrightarrow> length (buf r) < usize_bound"

lemma addressable_advance [simp]: "addressable (advance n r) = addressable r"
  by (simp add: addressable_def)

section \<open>What a reader over a slice promises\<close>

text \<open>
  \<open>byte_reader\<close>: the one primitive of a reader, \<open>take\<close>, returns the next \<open>n\<close> bytes and moves
  past them, or fails with one fixed error when fewer are left. Every fixed-width field that
  is built on it is read exactly when the unread bytes begin with that field's encoding.
\<close>

locale byte_reader =
  fixes take_n :: "nat \<Rightarrow> slice_reader \<Rightarrow> ('e, bytes \<times> slice_reader) result"
    and short :: 'e
  assumes take_n_eq: "take_n n r =
    (if pos r + n < usize_bound \<and> pos r + n \<le> length (buf r)
     then Inr (take n (remaining r), advance n r) else Inl short)"
begin

lemma take_n_iff:
  "take_n n r = Inr (x, r') \<longleftrightarrow>
     length x = n \<and> starts r x \<and> pos r + n < usize_bound \<and> r' = advance n r"
  by (auto simp: take_n_eq starts_def remaining_def)

lemma take_n_starts: "addressable r \<Longrightarrow>
    take_n n r = Inr (x, r') \<longleftrightarrow> length x = n \<and> starts r x \<and> r' = advance n r"
  by (auto simp: take_n_iff addressable_def starts_def)

text \<open>
  A fixed-width field that is decoded from its bytes by \<open>f\<close>, the inverse of the writer \<open>g\<close>.
\<close>

lemma field_starts:
  assumes inv: "\<And>b v. length b = n \<Longrightarrow> f b = v \<longleftrightarrow> b = g v" and len: "\<And>v. length (g v) = n"
    and r: "addressable r"
  shows "and_then (take_n n r) (\<lambda>(b, r). Inr (f b, r)) = Inr (v, r') \<longleftrightarrow>
    starts r (g v) \<and> r' = advance n r"
  using inv len take_n_starts [OF r, of n] by (auto simp: result_simps split: prod.splits) metis+

lemma take_n_error: "take_n n r = Inl e \<Longrightarrow> e = short"
  by (auto simp: take_n_eq split: if_splits)

lemma take_n_total: "pos r + n \<le> length (buf r) \<Longrightarrow> length (buf r) < usize_bound \<Longrightarrow>
    \<exists>x. take_n n r = Inr (x, advance n r)"
  by (simp add: take_n_eq)

end

section \<open>What an encoder and a decoder promise to each other\<close>

text \<open>
  \<open>wire_codec\<close>: the decoder accepts exactly the encodings of well-formed values. This one law
  is the round trip (an encoding decodes to the value it came from) and canonicity (whatever
  decodes re-encodes to the same bytes), and it makes both directions injective.
\<close>

locale wire_codec =
  fixes encode :: "'a \<Rightarrow> ('e, bytes) result"
    and decode :: "bytes \<Rightarrow> ('f, 'a) result"
    and wf :: "'a \<Rightarrow> bool"
  assumes decode_iff: "decode bs = Inr x \<longleftrightarrow> wf x \<and> encode x = Inr bs"
begin

lemma round_trip: "wf x \<Longrightarrow> encode x = Inr bs \<Longrightarrow> decode bs = Inr x"
  by (simp add: decode_iff)

lemma canonical: "decode bs = Inr x \<Longrightarrow> encode x = Inr bs"
  by (simp add: decode_iff)

lemma decode_wf: "decode bs = Inr x \<Longrightarrow> wf x"
  by (simp add: decode_iff)

lemma encode_inj: "wf x \<Longrightarrow> wf y \<Longrightarrow> encode x = Inr bs \<Longrightarrow> encode y = Inr bs \<Longrightarrow> x = y"
  by (metis round_trip sum.inject(2))

lemma decode_inj: "decode bs = Inr x \<Longrightarrow> decode cs = Inr x \<Longrightarrow> bs = cs"
  by (simp add: decode_iff)

end

end
