(* ===== verification/Protocol.thy ===== *)
theory Protocol
  imports Prelude
begin

text \<open>
  The wire protocol, \<open>crates/messenger-protocol/src/lib.rs\<close>: the limits, the frame and
  application types, the restricted canonical CBOR \<open>Encoder\<close> and \<open>Decoder\<close>, and the codecs of
  \<open>TransportFrame\<close> and \<open>ApplicationEnvelope\<close>. The lemmas show that a CBOR head is accepted
  exactly in its shortest form, that each decoder accepts exactly the encodings of well-formed
  values, and what the encoders reject.
\<close>

section \<open>Limits, identifiers and types\<close>

definition PROTOCOL_VERSION :: u16 where "PROTOCOL_VERSION = 1"
definition MAX_FRAME_SIZE :: nat where "MAX_FRAME_SIZE = 64 * 1024"
definition MAX_ENCRYPTED_TEXT_EVENT_SIZE :: nat where "MAX_ENCRYPTED_TEXT_EVENT_SIZE = 4 * 1024"
definition DEFAULT_TTL_SECONDS :: u32 where "DEFAULT_TTL_SECONDS = 7 * 24 * 60 * 60"
definition MAX_TTL_SECONDS :: u32 where "MAX_TTL_SECONDS = 30 * 24 * 60 * 60"

lemmas protocol_limits = PROTOCOL_VERSION_def MAX_FRAME_SIZE_def
  MAX_ENCRYPTED_TEXT_EVENT_SIZE_def DEFAULT_TTL_SECONDS_def MAX_TTL_SECONDS_def

text \<open>\<open>Id([u8; 16])\<close> is a byte string; \<open>is_id\<close> is what its Rust type says of it.\<close>

type_synonym Id = bytes

definition is_id :: "Id \<Rightarrow> bool" where
  "is_id x \<longleftrightarrow> length x = 16"

datatype FrameType =
    ClientHello | ServerHello | AuthChallenge | AuthResponse | AuthAccepted
  | UploadEnvelope | UploadAccepted | SyncRequest | SyncBatch
  | DeliveryReceiptBatch | ReadReceiptBatch | RelayDirectoryRequest | RelayDirectoryResponse
  | Ping | Pong | RateLimit | ErrorFrame

datatype ApplicationType =
    TextMessage | MessageRequest | MessageRequestAccepted | DeliveryReceipt | ReadReceipt
  | GroupMetadataUpdate | GroupMemberEvent | GroupInvite | GroupInviteAccepted
  | DeviceLinked | DeviceRemoved

text \<open>\<open>ErrorCode\<close>, with its discriminants: the body of an error frame.\<close>

datatype ErrorCode =
    CodeMalformed | CodeUnsupportedVersion | CodeTooLarge | CodeReplay | CodeDuplicate
  | CodeRateLimited | CodeCursorRegression

fun error_code :: "ErrorCode \<Rightarrow> byte" where
  "error_code CodeMalformed = 1"
| "error_code CodeUnsupportedVersion = 2"
| "error_code CodeTooLarge = 3"
| "error_code CodeReplay = 4"
| "error_code CodeDuplicate = 5"
| "error_code CodeRateLimited = 6"
| "error_code CodeCursorRegression = 7"

datatype proto_error =
    Malformed | Truncated | TooLarge | NonCanonical | UnsupportedVersion
  | UnknownFrameType | UnknownApplicationType | TrailingBytes | FieldOutOfRange

text \<open>The \<open>repr(u8)\<close> discriminants, widened to the \<open>u64\<close> the encoder takes.\<close>

fun frame_code :: "FrameType \<Rightarrow> u64" where
  "frame_code ClientHello = 1"
| "frame_code ServerHello = 2"
| "frame_code AuthChallenge = 3"
| "frame_code AuthResponse = 4"
| "frame_code AuthAccepted = 5"
| "frame_code UploadEnvelope = 6"
| "frame_code UploadAccepted = 7"
| "frame_code SyncRequest = 8"
| "frame_code SyncBatch = 9"
| "frame_code DeliveryReceiptBatch = 10"
| "frame_code ReadReceiptBatch = 11"
| "frame_code RelayDirectoryRequest = 12"
| "frame_code RelayDirectoryResponse = 13"
| "frame_code Ping = 14"
| "frame_code Pong = 15"
| "frame_code RateLimit = 16"
| "frame_code ErrorFrame = 17"

definition frame_type_parse :: "u64 \<Rightarrow> (proto_error, FrameType) result" where
  "frame_type_parse n =
     (if n = 1 then Inr ClientHello else if n = 2 then Inr ServerHello
      else if n = 3 then Inr AuthChallenge else if n = 4 then Inr AuthResponse
      else if n = 5 then Inr AuthAccepted else if n = 6 then Inr UploadEnvelope
      else if n = 7 then Inr UploadAccepted else if n = 8 then Inr SyncRequest
      else if n = 9 then Inr SyncBatch else if n = 10 then Inr DeliveryReceiptBatch
      else if n = 11 then Inr ReadReceiptBatch else if n = 12 then Inr RelayDirectoryRequest
      else if n = 13 then Inr RelayDirectoryResponse else if n = 14 then Inr Ping
      else if n = 15 then Inr Pong else if n = 16 then Inr RateLimit
      else if n = 17 then Inr ErrorFrame else Inl UnknownFrameType)"

fun application_code :: "ApplicationType \<Rightarrow> u64" where
  "application_code TextMessage = 1"
| "application_code MessageRequest = 2"
| "application_code MessageRequestAccepted = 3"
| "application_code DeliveryReceipt = 4"
| "application_code ReadReceipt = 5"
| "application_code GroupMetadataUpdate = 6"
| "application_code GroupMemberEvent = 7"
| "application_code GroupInvite = 8"
| "application_code GroupInviteAccepted = 9"
| "application_code DeviceLinked = 10"
| "application_code DeviceRemoved = 11"

definition application_type_parse :: "u64 \<Rightarrow> (proto_error, ApplicationType) result" where
  "application_type_parse n =
     (if n = 1 then Inr TextMessage else if n = 2 then Inr MessageRequest
      else if n = 3 then Inr MessageRequestAccepted else if n = 4 then Inr DeliveryReceipt
      else if n = 5 then Inr ReadReceipt else if n = 6 then Inr GroupMetadataUpdate
      else if n = 7 then Inr GroupMemberEvent else if n = 8 then Inr GroupInvite
      else if n = 9 then Inr GroupInviteAccepted else if n = 10 then Inr DeviceLinked
      else if n = 11 then Inr DeviceRemoved else Inl UnknownApplicationType)"

record TransportFrame =
  tf_version :: u16
  tf_kind :: FrameType
  tf_client_message_id :: Id
  tf_ttl_seconds :: u32
  tf_body :: bytes

record ApplicationEnvelope =
  ae_kind :: ApplicationType
  ae_event_id :: Id
  ae_conversation_id :: Id
  ae_encrypted_content :: bytes

definition choose_compressed_body :: "bytes \<Rightarrow> bytes \<Rightarrow> bytes option" where
  "choose_compressed_body original compressed_body =
     (if length compressed_body < length original then Some compressed_body else None)"

section \<open>The encoder\<close>

text \<open>\<open>Encoder(Vec<u8>)\<close> is the bytes written so far; each method returns them extended.\<close>

definition enc_major :: "byte \<Rightarrow> u64 \<Rightarrow> bytes \<Rightarrow> bytes" where
  "enc_major m n out =
     (if n < 24 then out @ [push_bit 5 m OR ucast n]
      else if n \<le> 0xFF then out @ [push_bit 5 m OR 24, ucast n]
      else if n \<le> 0xFFFF then (out @ [push_bit 5 m OR 25]) @ be16 (ucast n)
      else (out @ [push_bit 5 m OR 26]) @ be32 (ucast n))"

definition enc_array :: "nat \<Rightarrow> bytes \<Rightarrow> bytes" where
  "enc_array n out = enc_major 4 (word_of_nat n) out"

definition enc_uint :: "u64 \<Rightarrow> bytes \<Rightarrow> bytes" where
  "enc_uint n out = enc_major 0 n out"

definition enc_bytes :: "bytes \<Rightarrow> bytes \<Rightarrow> bytes" where
  "enc_bytes b out = enc_major 2 (word_of_nat (length b)) out @ b"

section \<open>The decoder\<close>

text \<open>
  \<open>Decoder { b, p }\<close> is a slice reader. Every method returns the value and the moved reader,
  or the error that the callers pass on with \<open>?\<close>.
\<close>

definition dec_new :: "bytes \<Rightarrow> slice_reader" where
  "dec_new b = \<lparr>buf = b, pos = 0\<rparr>"

definition dec_take :: "nat \<Rightarrow> slice_reader \<Rightarrow> (proto_error, bytes \<times> slice_reader) result" where
  "dec_take n d =
     and_then (ok_or Truncated (checked_add (pos d) n)) (\<lambda>stop.
     and_then (ok_or Truncated (slice_get (buf d) (pos d) stop)) (\<lambda>r.
     Inr (r, d\<lparr>pos := stop\<rparr>)))"

definition dec_head :: "slice_reader \<Rightarrow> (proto_error, (byte \<times> u64) \<times> slice_reader) result" where
  "dec_head d =
     (if length (buf d) \<le> pos d then Inl Truncated
      else
        let x = buf d ! pos d; d = d\<lparr>pos := pos d + 1\<rparr>; m = drop_bit 5 x; a = x AND 31 in
        and_then
          (if a \<le> 23 then Inr (ucast a, d)
           else if a = 24 then and_then (dec_take 1 d) (\<lambda>(r, d). Inr (ucast (hd r), d))
           else if a = 25 then and_then (dec_take 2 d) (\<lambda>(r, d). Inr (ucast (from_be16 r), d))
           else if a = 26 then and_then (dec_take 4 d) (\<lambda>(r, d). Inr (ucast (from_be32 r), d))
           else Inl NonCanonical)
          (\<lambda>(n, d).
             if (a = 24 \<and> n < 24) \<or> (a = 25 \<and> n \<le> 0xFF) \<or> (a = 26 \<and> n \<le> 0xFFFF)
             then Inl NonCanonical else Inr ((m, n), d)))"

definition dec_uint :: "slice_reader \<Rightarrow> (proto_error, u64 \<times> slice_reader) result" where
  "dec_uint d = and_then (dec_head d) (\<lambda>((m, n), d). if m = 0 then Inr (n, d) else Inl Malformed)"

definition dec_array_len :: "nat \<Rightarrow> slice_reader \<Rightarrow> (proto_error, slice_reader) result" where
  "dec_array_len n d = and_then (dec_head d) (\<lambda>((m, x), d).
     if m = 4 \<and> x = word_of_nat n then Inr d else Inl Malformed)"

definition dec_bytes :: "slice_reader \<Rightarrow> (proto_error, bytes \<times> slice_reader) result" where
  "dec_bytes d = and_then (dec_head d) (\<lambda>((m, n), d).
     if m \<noteq> 2 then Inl Malformed else dec_take (unat n) d)"

definition dec_id :: "slice_reader \<Rightarrow> (proto_error, Id \<times> slice_reader) result" where
  "dec_id d = and_then (dec_bytes d) (\<lambda>(b, d).
     if length b \<noteq> 16 then Inl FieldOutOfRange else Inr (b, d))"

definition dec_finish :: "slice_reader \<Rightarrow> (proto_error, unit) result" where
  "dec_finish d = (if pos d = length (buf d) then Inr () else Inl TrailingBytes)"

section \<open>The two codecs\<close>

definition transport_encode :: "TransportFrame \<Rightarrow> (proto_error, bytes) result" where
  "transport_encode f =
     (if tf_ttl_seconds f > MAX_TTL_SECONDS then Inl FieldOutOfRange
      else if length (tf_body f) > MAX_FRAME_SIZE then Inl TooLarge
      else
        let e = [];
            e = enc_array 6 e;
            e = enc_uint 1 e;
            e = enc_uint (ucast (tf_version f)) e;
            e = enc_uint (frame_code (tf_kind f)) e;
            e = enc_bytes (tf_client_message_id f) e;
            e = enc_uint (ucast (tf_ttl_seconds f)) e;
            out = enc_bytes (tf_body f) e
        in if length out > MAX_FRAME_SIZE then Inl TooLarge else Inr out)"

definition transport_decode :: "bytes \<Rightarrow> (proto_error, TransportFrame) result" where
  "transport_decode input =
     (if length input > MAX_FRAME_SIZE then Inl TooLarge
      else
        and_then (dec_array_len 6 (dec_new input)) (\<lambda>d.
        and_then (dec_uint d) (\<lambda>(schema, d).
        if schema \<noteq> 1 then Inl Malformed else
        and_then (dec_uint d) (\<lambda>(version, d).
        if version \<noteq> ucast PROTOCOL_VERSION then Inl UnsupportedVersion else
        and_then (dec_uint d) (\<lambda>(k, d).
        and_then (frame_type_parse k) (\<lambda>kind.
        and_then (dec_id d) (\<lambda>(id, d).
        and_then (dec_uint d) (\<lambda>(ttl, d).
        if ttl > ucast MAX_TTL_SECONDS then Inl FieldOutOfRange else
        and_then (dec_bytes d) (\<lambda>(body, d).
        and_then (dec_finish d) (\<lambda>_.
        Inr \<lparr>tf_version = ucast version, tf_kind = kind, tf_client_message_id = id,
              tf_ttl_seconds = ucast ttl, tf_body = body\<rparr>))))))))))"

definition envelope_encode :: "ApplicationEnvelope \<Rightarrow> (proto_error, bytes) result" where
  "envelope_encode a =
     (if length (ae_encrypted_content a) > MAX_ENCRYPTED_TEXT_EVENT_SIZE then Inl TooLarge
      else
        let e = [];
            e = enc_array 5 e;
            e = enc_uint 2 e;
            e = enc_uint (application_code (ae_kind a)) e;
            e = enc_bytes (ae_event_id a) e;
            e = enc_bytes (ae_conversation_id a) e;
            e = enc_bytes (ae_encrypted_content a) e
        in Inr e)"

definition envelope_decode :: "bytes \<Rightarrow> (proto_error, ApplicationEnvelope) result" where
  "envelope_decode input =
     and_then (dec_array_len 5 (dec_new input)) (\<lambda>d.
     and_then (dec_uint d) (\<lambda>(schema, d).
     if schema \<noteq> 2 then Inl Malformed else
     and_then (dec_uint d) (\<lambda>(k, d).
     and_then (application_type_parse k) (\<lambda>kind.
     and_then (dec_id d) (\<lambda>(event_id, d).
     and_then (dec_id d) (\<lambda>(conversation_id, d).
     and_then (dec_bytes d) (\<lambda>(encrypted_content, d).
     if length encrypted_content > MAX_ENCRYPTED_TEXT_EVENT_SIZE then Inl TooLarge else
     and_then (dec_finish d) (\<lambda>_.
     Inr \<lparr>ae_kind = kind, ae_event_id = event_id, ae_conversation_id = conversation_id,
           ae_encrypted_content = encrypted_content\<rparr>))))))))"

text \<open>What the Rust types, and the version check of the decoder, say of a value.\<close>

definition frame_wf :: "TransportFrame \<Rightarrow> bool" where
  "frame_wf f \<longleftrightarrow> tf_version f = PROTOCOL_VERSION \<and> is_id (tf_client_message_id f)"

definition envelope_wf :: "ApplicationEnvelope \<Rightarrow> bool" where
  "envelope_wf a \<longleftrightarrow> is_id (ae_event_id a) \<and> is_id (ae_conversation_id a)"

section \<open>A CBOR head is accepted exactly in its shortest form\<close>

lemma take_bit_byte: "unat (a::byte) < 2 ^ n \<Longrightarrow> take_bit n a = a"
  by (rule word_unat_eq_iff [THEN iffD2])
    (simp add: unsigned_take_bit_eq take_bit_nat_eq_self_iff)

lemma head_byte_parts:
  fixes m a :: byte
  assumes "m < 8" "a < 32"
  shows "drop_bit 5 (push_bit 5 m OR a) = m" "(push_bit 5 m OR a) AND 31 = a"
proof -
  have a: "take_bit 5 a = a" and m: "take_bit 3 m = m"
    using assms by (simp_all add: take_bit_byte word_less_nat_alt)
  have m31: "(31 :: byte) = mask 5" by (simp add: mask_eq_exp_minus_1)
  have "take_bit 5 (push_bit 5 m) = 0"
    by (rule bit_word_eqI) (auto simp: bit_simps)
  then show "(push_bit 5 m OR a) AND 31 = a"
    by (simp add: m31 a flip: take_bit_eq_mask) 
  have "drop_bit 5 (push_bit 5 m) = take_bit 3 m"
    by (rule bit_word_eqI) (auto simp: bit_simps)
  moreover have "drop_bit 5 a = 0"
    by (subst a[symmetric]) (simp add: drop_bit_take_bit)
  ultimately
  show "drop_bit 5 (push_bit 5 m OR a) = m"
    by (simp add: drop_bit_or m)
qed

lemma head_byte_join:
  fixes x :: byte
  shows "push_bit 5 (drop_bit 5 x) OR (x AND 31) = x" "drop_bit 5 x < 8" "x AND 31 < 32"
proof -
  have m31: "(31 :: byte) = mask 5" by (simp add: mask_eq_exp_minus_1)
  show "push_bit 5 (drop_bit 5 x) OR (x AND 31) = x"
    by (rule bit_word_eqI) (auto simp: m31 bit_simps)
  show "drop_bit 5 x < 8"
    using unsigned_less [of x, where ?'a = nat]
    by (simp add: word_less_nat_alt unat_drop_bit_eq) (simp add: drop_bit_eq_div)
  show "x AND 31 < 32"
    by (rule le_less_trans [OF word_and_le1]) simp
qed

lemma dec_new_simps [simp]: "buf (dec_new bs) = bs" "pos (dec_new bs) = 0"
  by (simp_all add: dec_new_def)

interpretation dec: byte_reader dec_take Truncated
  by unfold_locales
    (auto simp: dec_take_def checked_add_def slice_get_def advance_def remaining_def)

text \<open>The bytes of one CBOR head, and of a byte-string field.\<close>

definition major_bytes :: "byte \<Rightarrow> u64 \<Rightarrow> bytes" where
  "major_bytes m n = enc_major m n []"

definition bytes_field :: "bytes \<Rightarrow> bytes" where
  "bytes_field b = major_bytes 2 (word_of_nat (length b)) @ b"

lemma enc_major_append: "enc_major m n out = out @ major_bytes m n"
  by (simp add: enc_major_def major_bytes_def)

lemma dec_head_byte:
  assumes "pos d < length (buf d)" "buf d ! pos d = push_bit 5 m OR a" "m < 8" "a < 32"
  shows "dec_head d = and_then
          (if a \<le> 23 then Inr (ucast a, advance 1 d)
           else if a = 24 then and_then (dec_take 1 (advance 1 d)) (\<lambda>(r, d). Inr (ucast (hd r), d))
           else if a = 25 then and_then (dec_take 2 (advance 1 d)) (\<lambda>(r, d). Inr (ucast (from_be16 r), d))
           else if a = 26 then and_then (dec_take 4 (advance 1 d)) (\<lambda>(r, d). Inr (ucast (from_be32 r), d))
           else Inl NonCanonical)
          (\<lambda>(n, d).
             if (a = 24 \<and> n < 24) \<or> (a = 25 \<and> n \<le> 0xFF) \<or> (a = 26 \<and> n \<le> 0xFFFF)
             then Inl NonCanonical else Inr ((m, n), d))"
proof -
  note parts = head_byte_parts [OF assms(3,4)]
  show ?thesis
    using assms(1) unfolding dec_head_def Let_def assms(2) parts advance_def
    by (simp only: not_le if_not_P)
qed

lemma dec_take_starts: "addressable d \<Longrightarrow> starts d x \<Longrightarrow> length x = n \<Longrightarrow> dec_take n d = Inr (x, advance n d)"
  by (simp add: dec.take_n_iff addressable_def) (simp add: starts_def)

lemma dec_head_major:
  assumes "addressable d" "m < 8" "unat n < 2 ^ 32" "starts d (major_bytes m n)"
  shows "dec_head d = Inr ((m, n), advance (length (major_bytes m n)) d)"
proof -
  note unfold = major_bytes_def enc_major_def word_less_nat_alt word_le_nat_alt starts_Cons
  consider (tiny) "unat n < 24" | (one) "24 \<le> unat n" "unat n < 2 ^ 8"
    | (two) "2 ^ 8 \<le> unat n" "unat n < 2 ^ 16" | (four) "2 ^ 16 \<le> unat n"
    by linarith
  then show ?thesis
  proof cases
    case tiny
    then have "ucast n < (32::byte)" "(ucast n :: byte) \<le> 23"
      by (simp_all add: word_less_nat_alt word_le_nat_alt unsigned_ucast_eq take_bit_eq_mod)
    moreover from this have "(ucast n :: byte) \<noteq> 24" "(ucast n :: byte) \<noteq> 25" "(ucast n :: byte) \<noteq> 26" by auto
    ultimately show ?thesis
      using tiny assms dec_head_byte [of d m "ucast n"]
      by (simp add: unfold ucast_down_up)
  next
    case one
    with assms show ?thesis
      using dec_head_byte [of d m 24] dec_take_starts [of "advance 1 d" "[ucast n]" 1]
      by (simp add: unfold ucast_down_up)
  next
    case two
    with assms show ?thesis
      using dec_head_byte [of d m 25] dec_take_starts [of "advance 1 d" "be16 (ucast n)" 2]
      by (simp add: unfold ucast_down_up)
  next
    case four
    with assms show ?thesis
      using dec_head_byte [of d m 26] dec_take_starts [of "advance 1 d" "be32 (ucast n)" 4]
      by (simp add: unfold ucast_down_up)
  qed
qed

lemma dec_head_shape:
  assumes "dec_head d = Inr ((m, n), d')"
  shows "m < 8 \<and> unat n < 2 ^ 32 \<and> starts d (major_bytes m n)"
proof -
  let ?x = "buf d ! pos d"
  define a k where "a = ?x AND 31" and "k = drop_bit 5 ?x"
  have p: "pos d < length (buf d)"
    using assms by (auto simp: dec_head_def split: if_splits)
  have x: "?x = push_bit 5 k OR a" "k < 8" "a < 32"
    by (simp_all add: a_def k_def head_byte_join)
  note eq = assms [unfolded dec_head_byte [OF p x]]
  note unfold = major_bytes_def enc_major_def word_less_nat_alt word_le_nat_alt starts_Cons
    dec.take_n_iff unat_ucast_up ucast_up_down
  note casts = unat_bounds [THEN less_trans]
  consider (tiny) "a \<le> 23" "a \<noteq> 24" "a \<noteq> 25" "a \<noteq> 26" | (one) "a = 24" | (two) "a = 25" | (four) "a = 26"
    using eq by (fastforce split: if_splits)
  then show ?thesis
  proof cases
    case tiny
    with eq have "m = k" "n = ucast a" by simp_all
    with tiny p x show ?thesis
      by (simp add: unfold)
  next
    case one
    with eq obtain r where r: "dec_take 1 (advance 1 d) = Inr (r, d')" "n = ucast (hd r)" "m = k" "\<not> n < 24"
      by (auto simp: result_simps split: if_splits)
    moreover obtain b where "r = [b]"
      using r(1) by (cases r) (auto simp: dec.take_n_iff)
    ultimately show ?thesis
      using one p x unat_bounds(1) [of b] by (simp add: unfold)
  next
    case two
    with eq obtain r where r: "dec_take 2 (advance 1 d) = Inr (r, d')" "n = ucast (from_be16 r)" "m = k" "\<not> n \<le> 0xFF"
      by (auto simp: result_simps split: if_splits)
    moreover have "r = be16 (from_be16 r)"
      using r(1) by (simp add: dec.take_n_iff be16_from_be16)
    ultimately show ?thesis
      using two p x unat_bounds(2) [of "from_be16 r"] by (simp add: unfold)
  next
    case four
    with eq obtain r where r: "dec_take 4 (advance 1 d) = Inr (r, d')" "n = ucast (from_be32 r)" "m = k" "\<not> n \<le> 0xFFFF"
      by (auto simp: result_simps split: if_splits)
    moreover have "r = be32 (from_be32 r)"
      using r(1) by (simp add: dec.take_n_iff be32_from_be32)
    ultimately show ?thesis
      using four p x unat_bounds(3) [of "from_be32 r"] by (simp add: unfold)
  qed
qed

lemma dec_head_iff [reader_simps]:
  assumes "addressable d"
  shows "dec_head d = Inr ((m, n), d') \<longleftrightarrow>
     m < 8 \<and> unat n < 2 ^ 32 \<and> starts d (major_bytes m n) \<and> d' = advance (length (major_bytes m n)) d"
proof
  assume h: "dec_head d = Inr ((m, n), d')"
  then show "m < 8 \<and> unat n < 2 ^ 32 \<and> starts d (major_bytes m n) \<and> d' = advance (length (major_bytes m n)) d"
    using dec_head_shape [OF h] dec_head_major [OF assms, of m n] by simp
qed (use dec_head_major [OF assms] in simp)

lemma dec_uint_iff [reader_simps]:
  "addressable d \<Longrightarrow> dec_uint d = Inr (n, d') \<longleftrightarrow>
     unat n < 2 ^ 32 \<and> starts d (major_bytes 0 n) \<and> d' = advance (length (major_bytes 0 n)) d"
  by (auto simp: dec_uint_def result_simps dec_head_iff split: if_splits)

lemma dec_array_len_iff [reader_simps]:
  "addressable d \<Longrightarrow> k < 2 ^ 32 \<Longrightarrow> dec_array_len k d = Inr d' \<longleftrightarrow>
     starts d (major_bytes 4 (word_of_nat k)) \<and> d' = advance (length (major_bytes 4 (word_of_nat k))) d"
  by (auto simp: dec_array_len_def result_simps dec_head_iff unat_of_nat split: if_splits)

lemma dec_bytes_iff [reader_simps]:
  assumes "addressable d"
  shows "dec_bytes d = Inr (b, d') \<longleftrightarrow>
     length b < 2 ^ 32 \<and> starts d (bytes_field b) \<and> d' = advance (length (bytes_field b)) d"
proof -
  have "dec_bytes d = Inr (b, d') \<longleftrightarrow>
     (\<exists>n. unat n < 2 ^ 32 \<and> starts d (major_bytes 2 n) \<and>
       dec_take (unat n) (advance (length (major_bytes 2 n)) d) = Inr (b, d'))"
    using assms by (auto simp: dec_bytes_def result_simps dec_head_iff split: if_splits) (rule exI [of _ 2], auto)
  also have "\<dots> \<longleftrightarrow> (\<exists>n. unat n < 2 ^ 32 \<and> length b = unat n \<and> starts d (major_bytes 2 n @ b) \<and>
       d' = advance (length (major_bytes 2 n @ b)) d)"
    using assms dec_take_starts by (fastforce simp: dec.take_n_iff starts_append)
  also have "\<dots> \<longleftrightarrow> length b < 2 ^ 32 \<and> starts d (bytes_field b) \<and> d' = advance (length (bytes_field b)) d"
    by (auto simp: bytes_field_def unat_of_nat intro!: exI [of _ "word_of_nat (length b)"])
  finally show ?thesis .
qed

lemma dec_id_iff [reader_simps]:
  "addressable d \<Longrightarrow> dec_id d = Inr (b, d') \<longleftrightarrow>
     is_id b \<and> starts d (bytes_field b) \<and> d' = advance (length (bytes_field b)) d"
  by (auto simp: dec_id_def result_simps dec_bytes_iff is_id_def split: if_splits)

lemma dec_finish_iff [reader_simps]: "dec_finish d = Inr u \<longleftrightarrow> pos d = length (buf d)"
  by (simp add: dec_finish_def)

lemma frame_type_parse_iff: "frame_type_parse n = Inr k \<longleftrightarrow> n = frame_code k"
  by (cases k) (auto simp: frame_type_parse_def split: if_splits)

lemma application_type_parse_iff: "application_type_parse n = Inr k \<longleftrightarrow> n = application_code k"
  by (cases k) (auto simp: application_type_parse_def split: if_splits)

section \<open>The frame codec\<close>

text \<open>The complete encoding of a frame, field by field.\<close>

definition frame_bytes :: "TransportFrame \<Rightarrow> bytes" where
  "frame_bytes f = major_bytes 4 6 @ major_bytes 0 1 @ major_bytes 0 (ucast (tf_version f)) @
     major_bytes 0 (frame_code (tf_kind f)) @ bytes_field (tf_client_message_id f) @
     major_bytes 0 (ucast (tf_ttl_seconds f)) @ bytes_field (tf_body f)"

lemma transport_encode_eq:
  "transport_encode f =
     (if tf_ttl_seconds f > MAX_TTL_SECONDS then Inl FieldOutOfRange
      else if length (tf_body f) > MAX_FRAME_SIZE \<or> length (frame_bytes f) > MAX_FRAME_SIZE then Inl TooLarge
      else Inr (frame_bytes f))"
  by (simp add: transport_encode_def frame_bytes_def enc_array_def enc_uint_def enc_bytes_def bytes_field_def
      enc_major_append Let_def)

lemma frame_code_small: "unat (frame_code k) < 24"
  by (cases k) simp_all

lemma ttl_in_range: "ucast t \<le> (ucast MAX_TTL_SECONDS :: u64) \<longleftrightarrow> t \<le> MAX_TTL_SECONDS"
  by (simp add: word_le_nat_alt unat_ucast_up)

text \<open>
  The decoder on an input that begins with the encoding of a frame: it reads every field and
  then accepts or complains of trailing bytes. The readers \<open>d1\<close> to \<open>d7\<close> are the decoder's
  state after each field.
\<close>

lemma transport_decode_prefix:
  assumes len: "length cs \<le> MAX_FRAME_SIZE" and wf: "frame_wf f"
    and ttl: "tf_ttl_seconds f \<le> MAX_TTL_SECONDS" and body: "length (tf_body f) < 2 ^ 32"
    and starts: "starts (dec_new cs) (frame_bytes f)"
  shows "transport_decode cs =
    (if length cs = length (frame_bytes f) then Inr f else Inl TrailingBytes)"
proof -
  define d1 where "d1 = advance (length (major_bytes 4 6)) (dec_new cs)"
  define d2 where "d2 = advance (length (major_bytes 0 1)) d1"
  define d3 where "d3 = advance (length (major_bytes 0 1)) d2"
  define d4 where "d4 = advance (length (major_bytes 0 (frame_code (tf_kind f)))) d3"
  define d5 where "d5 = advance (length (bytes_field (tf_client_message_id f))) d4"
  define d6 where "d6 = advance (length (major_bytes 0 (ucast (tf_ttl_seconds f)))) d5"
  define d7 where "d7 = advance (length (bytes_field (tf_body f))) d6"
  note ds = d1_def d2_def d3_def d4_def d5_def d6_def d7_def
  have ad: "addressable (dec_new cs)" "addressable d1" "addressable d2" "addressable d3"
    "addressable d4" "addressable d5" "addressable d6"
    using len by (simp_all add: ds addressable_def usize_bound_def MAX_FRAME_SIZE_def)
  have v: "tf_version f = 1" and i: "is_id (tf_client_message_id f)"
    using wf by (simp_all add: frame_wf_def PROTOCOL_VERSION_def)
  have small: "unat (frame_code (tf_kind f)) < 2 ^ 32" "unat (ucast (tf_ttl_seconds f) :: u64) < 2 ^ 32"
    using frame_code_small [of "tf_kind f"] unat_bounds(3) [of "tf_ttl_seconds f"]
    by (simp_all add: unat_ucast_up)
  have "dec_array_len 6 (dec_new cs) = Inr d1" "dec_uint d1 = Inr (1, d2)"
    "dec_uint d2 = Inr (1, d3)" "dec_uint d3 = Inr (frame_code (tf_kind f), d4)"
    "dec_id d4 = Inr (tf_client_message_id f, d5)"
    "dec_uint d5 = Inr (ucast (tf_ttl_seconds f), d6)" "dec_bytes d6 = Inr (tf_body f, d7)"
    using starts i small body
    by (simp_all add: reader_simps ad) (simp_all add: ds frame_bytes_def starts_append v)
  moreover have "dec_finish d7 = (if length cs = length (frame_bytes f) then Inr () else Inl TrailingBytes)"
    by (simp add: dec_finish_def ds frame_bytes_def v)
  moreover have "frame_type_parse (frame_code (tf_kind f)) = Inr (tf_kind f)"
    by (simp add: frame_type_parse_iff)
  ultimately show ?thesis
    using len ttl v
    by (simp add: transport_decode_def PROTOCOL_VERSION_def not_less ttl_in_range ucast_up_down)
qed

lemma transport_decode_accepts:
  assumes "transport_decode bs = Inr f"
  shows "frame_wf f \<and> tf_ttl_seconds f \<le> MAX_TTL_SECONDS \<and> bs = frame_bytes f"
proof -
  have len: "length bs \<le> MAX_FRAME_SIZE"
    using assms by (simp add: transport_decode_def split: if_splits)
  then have a: "addressable (dec_new bs)"
    by (simp add: addressable_def usize_bound_def MAX_FRAME_SIZE_def)
  have "frame_wf f \<and> tf_ttl_seconds f \<le> MAX_TTL_SECONDS \<and>
      starts (dec_new bs) (frame_bytes f) \<and> length bs = length (frame_bytes f)"
    using assms len
    by (auto simp: transport_decode_def result_simps reader_simps frame_type_parse_iff not_less a
        frame_wf_def PROTOCOL_VERSION_def frame_bytes_def starts_append ucast_down_up
        simp flip: ttl_in_range)
  then show ?thesis by (simp add: dec_new_def starts_new)
qed

lemma frame_body_in_bytes: "length (tf_body f) \<le> length (frame_bytes f)"
  by (simp add: frame_bytes_def bytes_field_def)

lemma transport_decode_iff:
  "transport_decode bs = Inr f \<longleftrightarrow> frame_wf f \<and> transport_encode f = Inr bs"
proof
  assume d: "transport_decode bs = Inr f"
  then have "length bs \<le> MAX_FRAME_SIZE"
    by (simp add: transport_decode_def split: if_splits)
  with transport_decode_accepts [OF d] show "frame_wf f \<and> transport_encode f = Inr bs"
    using frame_body_in_bytes [of f] by (auto simp: transport_encode_eq)
next
  assume e: "frame_wf f \<and> transport_encode f = Inr bs"
  then have bs: "bs = frame_bytes f" "length bs \<le> MAX_FRAME_SIZE" "tf_ttl_seconds f \<le> MAX_TTL_SECONDS"
    "length (tf_body f) \<le> MAX_FRAME_SIZE"
    by (auto simp: transport_encode_eq split: if_splits)
  have "starts (dec_new bs) (frame_bytes f)"
    using starts_new [of bs "frame_bytes f"] bs(1) by (simp add: dec_new_def)
  then show "transport_decode bs = Inr f"
    using transport_decode_prefix [of bs f] e bs by (simp add: MAX_FRAME_SIZE_def)
qed

interpretation frame: wire_codec transport_encode transport_decode frame_wf
  by unfold_locales (rule transport_decode_iff)

lemma dec_keeps_buf:
  "dec_take n d = Inr (x, d') \<Longrightarrow> buf d' = buf d"
  "dec_head d = Inr (h, d') \<Longrightarrow> buf d' = buf d"
  by (auto simp: dec_head_def dec.take_n_iff result_simps Let_def split: if_splits)

lemma dec_bytes_keeps:
  "dec_bytes d = Inr (b, d') \<Longrightarrow> buf d' = buf d \<and> pos d' < usize_bound"
  "dec_id d = Inr (b, d') \<Longrightarrow> buf d' = buf d"
  "dec_uint d = Inr (n, d') \<Longrightarrow> buf d' = buf d"
  "dec_array_len k d = Inr d' \<Longrightarrow> buf d' = buf d"
  by (auto simp: dec_bytes_def dec_id_def dec_uint_def dec_array_len_def result_simps dec.take_n_iff
      dest: dec_keeps_buf split: if_splits)

section \<open>The application envelope codec\<close>

definition envelope_bytes :: "ApplicationEnvelope \<Rightarrow> bytes" where
  "envelope_bytes a = major_bytes 4 5 @ major_bytes 0 2 @ major_bytes 0 (application_code (ae_kind a)) @
     bytes_field (ae_event_id a) @ bytes_field (ae_conversation_id a) @
     bytes_field (ae_encrypted_content a)"

lemma envelope_encode_eq:
  "envelope_encode a =
     (if length (ae_encrypted_content a) > MAX_ENCRYPTED_TEXT_EVENT_SIZE then Inl TooLarge
      else Inr (envelope_bytes a))"
  by (simp add: envelope_encode_def envelope_bytes_def enc_array_def enc_uint_def enc_bytes_def
      bytes_field_def enc_major_append Let_def)

lemma envelope_decode_addressable:
  assumes "envelope_decode bs = Inr a"
  shows "length bs < usize_bound"
  using assms by (fastforce simp: envelope_decode_def result_simps dec_new_def dec_finish_iff
      dest!: dec_bytes_keeps split: if_splits)

lemma envelope_decode_starts:
  assumes "length bs < usize_bound"
  shows "envelope_decode bs = Inr a \<longleftrightarrow>
    envelope_wf a \<and> length (ae_encrypted_content a) \<le> MAX_ENCRYPTED_TEXT_EVENT_SIZE \<and>
      starts (dec_new bs) (envelope_bytes a) \<and> length bs = length (envelope_bytes a)" (is "?L \<longleftrightarrow> ?R")
proof -
  have a: "addressable (dec_new bs)"
    using assms by (simp add: addressable_def dec_new_def)
  have small: "unat (application_code k) < 4294967296" for k
    by (cases k) simp_all
  note steps = envelope_decode_def result_simps reader_simps application_type_parse_iff not_less
    envelope_wf_def envelope_bytes_def starts_append a MAX_ENCRYPTED_TEXT_EVENT_SIZE_def small
  show ?thesis
    by (cases a) (auto simp: steps)
qed

lemma length_major_bytes: "length (major_bytes m n) \<le> 5"
  by (simp add: major_bytes_def enc_major_def)

lemma length_bytes_field: "length (bytes_field b) \<le> 5 + length b"
  using length_major_bytes by (simp add: bytes_field_def)

lemma length_envelope_bytes:
  assumes "envelope_wf a"
  shows "length (envelope_bytes a) \<le> 62 + length (ae_encrypted_content a)"
proof -
  have "length (bytes_field (ae_event_id a)) \<le> 21" "length (bytes_field (ae_conversation_id a)) \<le> 21"
    using assms length_bytes_field [of "ae_event_id a"] length_bytes_field [of "ae_conversation_id a"]
    by (simp_all add: envelope_wf_def is_id_def)
  then show ?thesis
    using length_major_bytes [of 4 5] length_major_bytes [of 0 2]
      length_major_bytes [of 0 "application_code (ae_kind a)"]
      length_bytes_field [of "ae_encrypted_content a"]
    by (simp add: envelope_bytes_def)
qed

lemma envelope_decode_iff:
  "envelope_decode bs = Inr a \<longleftrightarrow> envelope_wf a \<and> envelope_encode a = Inr bs"
proof (cases "length bs < usize_bound")
  case True
  have "starts (dec_new bs) (envelope_bytes a) \<and> length bs = length (envelope_bytes a) \<longleftrightarrow>
      bs = envelope_bytes a"
    by (simp add: dec_new_def starts_new)
  then show ?thesis
    using True by (auto simp: envelope_decode_starts envelope_encode_eq)
next
  case False
  then have "\<not> (envelope_wf a \<and> envelope_encode a = Inr bs)"
    using length_envelope_bytes [of a]
    by (auto simp: envelope_encode_eq usize_bound_def MAX_ENCRYPTED_TEXT_EVENT_SIZE_def split: if_splits)
  then show ?thesis
    using envelope_decode_addressable False by blast
qed

interpretation envelope: wire_codec envelope_encode envelope_decode envelope_wf
  by unfold_locales (rule envelope_decode_iff)

section \<open>Properties\<close>

lemma length_frame_bytes:
  assumes "frame_wf f"
  shows "length (frame_bytes f) \<le> 31 + length (tf_body f)"
proof -
  have "length (bytes_field (tf_client_message_id f)) = 17"
    using assms by (simp add: frame_wf_def is_id_def bytes_field_def major_bytes_def enc_major_def)
  moreover have "length (major_bytes 0 (frame_code (tf_kind f))) = 1"
    by (cases "tf_kind f") (simp_all add: major_bytes_def enc_major_def)
  moreover have "length (major_bytes 4 6) = 1" "length (major_bytes 0 1) = 1"
    "length (major_bytes 0 (ucast (tf_version f))) = 1"
    using assms by (simp_all add: major_bytes_def enc_major_def frame_wf_def PROTOCOL_VERSION_def)
  ultimately show ?thesis
    using length_major_bytes [of 0 "ucast (tf_ttl_seconds f)"] length_bytes_field [of "tf_body f"]
    by (simp add: frame_bytes_def)
qed

text \<open>
  C7: the transport decoder accepts exactly the encodings of well-formed frames (version 1, a
  16-byte message id). Read from right to left this is the round trip; from left to right it
  is canonicity: two different byte strings never decode to the same frame.
\<close>

theorem transport_codec_exact:
  "transport_decode bs = Inr f \<longleftrightarrow> frame_wf f \<and> transport_encode f = Inr bs"
  by (rule frame.decode_iff)

text \<open>
  C36: every well-formed frame whose TTL is in range and whose body leaves 31 bytes of room
  encodes, within 31 bytes of its body's length, and decodes to itself: within the limits
  encoding never fails.
\<close>

theorem transport_encode_total:
  assumes "frame_wf f" and "tf_ttl_seconds f \<le> MAX_TTL_SECONDS"
    and "length (tf_body f) + 31 \<le> MAX_FRAME_SIZE"
  shows "\<exists>bs. transport_encode f = Inr bs \<and> length bs \<le> length (tf_body f) + 31 \<and>
    transport_decode bs = Inr f"
  using assms length_frame_bytes [of f]
  by (intro exI [of _ "frame_bytes f"]) (auto simp: frame.decode_iff transport_encode_eq)

theorem transport_encode_total_witness:
  "\<exists>bs. transport_encode \<lparr>tf_version = 1, tf_kind = Ping, tf_client_message_id = replicate 16 7,
        tf_ttl_seconds = 60, tf_body = [1, 2, 3]\<rparr> = Inr bs \<and> length bs \<le> 3 + 31 \<and>
    transport_decode bs = Inr \<lparr>tf_version = 1, tf_kind = Ping, tf_client_message_id = replicate 16 7,
        tf_ttl_seconds = 60, tf_body = [1, 2, 3]\<rparr>"
  using transport_encode_total [of "\<lparr>tf_version = 1, tf_kind = Ping,
      tf_client_message_id = replicate 16 7, tf_ttl_seconds = 60, tf_body = [1, 2, 3]\<rparr>"]
  by (simp add: frame_wf_def is_id_def protocol_limits)

text \<open>
  What the encoder rejects, and why: a TTL above thirty days first, then a frame whose
  complete encoding is above 64 KiB; otherwise it emits that encoding, within 64 KiB.
\<close>

theorem transport_encode_outcome:
  "case transport_encode f of
     Inl e \<Rightarrow>
       (if tf_ttl_seconds f > MAX_TTL_SECONDS then e = FieldOutOfRange
        else e = TooLarge \<and> length (frame_bytes f) > MAX_FRAME_SIZE)
   | Inr bs \<Rightarrow> tf_ttl_seconds f \<le> MAX_TTL_SECONDS \<and> bs = frame_bytes f \<and> length bs \<le> MAX_FRAME_SIZE"
  using frame_body_in_bytes [of f] by (auto simp: transport_encode_eq not_less)

text \<open>
  The frame format is prefix free. Bytes appended to an accepted frame are never ignored:
  as long as the frame limit is respected, the decoder answers \<open>TrailingBytes\<close>.
\<close>

theorem transport_prefix_free:
  assumes "transport_decode bs = Inr f" and "extra \<noteq> []"
    and "length (bs @ extra) \<le> MAX_FRAME_SIZE"
  shows "transport_decode (bs @ extra) = Inl TrailingBytes"
proof -
  note acc = transport_decode_accepts [OF assms(1)]
  have "starts (dec_new (bs @ extra)) (frame_bytes f)"
    using acc by (simp add: starts_def remaining_def)
  moreover have "length (tf_body f) < 2 ^ 32"
    using frame_body_in_bytes [of f] acc assms(3) by (simp add: MAX_FRAME_SIZE_def)
  ultimately show ?thesis
    using transport_decode_prefix [of "bs @ extra" f] acc assms(2,3) by simp
qed

theorem transport_prefix_free_witness:
  "transport_decode ([0x86, 1, 1, 14, 0x50] @ replicate 16 7 @ [0, 0x40] @ [0]) = Inl TrailingBytes"
proof -
  have "transport_decode ([0x86, 1, 1, 14, 0x50] @ replicate 16 7 @ [0, 0x40])
      = Inr \<lparr>tf_version = 1, tf_kind = Ping, tf_client_message_id = replicate 16 7,
          tf_ttl_seconds = 0, tf_body = []\<rparr>"
    by code_simp
  from transport_prefix_free [OF this, of "[0]"] show ?thesis
    by (simp add: MAX_FRAME_SIZE_def)
qed

text \<open>
  A CBOR head is accepted exactly in its shortest form: the decoder reads the head
  \<open>(m, n)\<close> if and only if the unread bytes begin with what the encoder writes for it. So no
  integer and no length has two encodings.
\<close>

theorem cbor_head_shortest:
  assumes "length bs < usize_bound"
  shows "dec_head (dec_new bs) = Inr ((m, n), d) \<longleftrightarrow>
    m < 8 \<and> unat n < 2 ^ 32 \<and>
    (\<exists>rest. bs = enc_major m n [] @ rest \<and> d = advance (length (enc_major m n [])) (dec_new bs))"
proof -
  have "starts (dec_new bs) x \<longleftrightarrow> (\<exists>rest. bs = x @ rest)" for x
    by (auto simp: starts_def remaining_def) (metis append_take_drop_id)
  then show ?thesis
    using assms by (simp add: dec_head_iff addressable_def major_bytes_def)
qed

theorem cbor_head_shortest_witness:
  "dec_head (dec_new [0x19, 0x01, 0x00]) = Inr ((0, 256), advance 3 (dec_new [0x19, 0x01, 0x00]))"
proof -
  have "[0x19, 0x01, 0x00] = enc_major 0 256 [] @ []" and "length (enc_major 0 256 []) = 3"
    by code_simp+
  then show ?thesis
    using cbor_head_shortest [of "[0x19, 0x01, 0x00]" 0 256 "advance 3 (dec_new [0x19, 0x01, 0x00])"]
    by (auto simp: usize_bound_def)
qed

text \<open>
  C37: the same two laws for the application envelope, without a limit on the input: it
  decodes exactly from the encoding of a well-formed envelope, and what it decodes to carries
  at most 4 KiB of ciphertext.
\<close>

theorem envelope_codec_exact:
  "(envelope_decode bs = Inr a \<longleftrightarrow> envelope_wf a \<and> envelope_encode a = Inr bs) \<and>
   (is_ok (envelope_encode a) \<longleftrightarrow> length (ae_encrypted_content a) \<le> MAX_ENCRYPTED_TEXT_EVENT_SIZE)"
  by (simp add: envelope.decode_iff envelope_encode_eq)

text \<open>
  The three golden vectors of \<open>docs/protocol-vectors\<close> are the encodings of the values the
  repository's tests name.
\<close>

lemma golden_vectors:
  "(transport_encode \<lparr>tf_version = 1, tf_kind = Ping, tf_client_message_id = replicate 16 7,
      tf_ttl_seconds = 0, tf_body = []\<rparr>
     = Inr ([0x86, 0x01, 0x01, 0x0e, 0x50] @ replicate 16 7 @ [0x00, 0x40])) \<and>
   (transport_encode \<lparr>tf_version = PROTOCOL_VERSION, tf_kind = UploadEnvelope,
      tf_client_message_id = replicate 16 7, tf_ttl_seconds = DEFAULT_TTL_SECONDS, tf_body = [1, 2]\<rparr>
     = Inr ([0x86, 0x01, 0x01, 0x06, 0x50] @ replicate 16 7 @
         [0x1a, 0x00, 0x09, 0x3a, 0x80, 0x42, 0x01, 0x02])) \<and>
   (envelope_encode \<lparr>ae_kind = TextMessage, ae_event_id = replicate 16 7,
      ae_conversation_id = replicate 16 7, ae_encrypted_content = [1, 2]\<rparr>
     = Inr ([0x85, 0x02, 0x01, 0x50] @ replicate 16 7 @ [0x50] @ replicate 16 7 @ [0x42, 0x01, 0x02]))"
  by code_simp

end
