(* ===== verification/Primitives.thy ===== *)
theory Primitives
  imports Prelude
begin

text \<open>
  The cryptographic crates the sources call, as records of functions: Ed25519
  (\<open>ed25519_dalek\<close>), XChaCha20-Poly1305 (\<open>chacha20poly1305\<close>), and with each record the
  documented behaviour that some of the theorems rely on, as a predicate on it.
\<close>

section \<open>Signatures\<close>

text \<open>
  Whether 32 bytes are a public key (\<open>VerifyingKey::from_bytes\<close>), whether a signature of a
  message verifies under a key, the public key of a secret one and the signature it makes.
  \<open>ed25519_correct\<close>: what a secret key signs verifies under its public key.
\<close>

record ed25519 =
  ed_valid_key :: "bytes \<Rightarrow> bool"
  ed_verify :: "bytes \<Rightarrow> bytes \<Rightarrow> bytes \<Rightarrow> bool"
  ed_public :: "bytes \<Rightarrow> bytes"
  ed_sign :: "bytes \<Rightarrow> bytes \<Rightarrow> bytes"

definition ed25519_correct :: "ed25519 \<Rightarrow> bool" where
  "ed25519_correct E \<longleftrightarrow> (\<forall>secret m. length secret = 32 \<longrightarrow>
     ed_valid_key E (ed_public E secret) \<and> ed_verify E (ed_public E secret) m (ed_sign E secret m) \<and>
     length (ed_public E secret) = 32 \<and> length (ed_sign E secret m) = 64)"

text \<open>\<open>VerifyingKey::from_bytes(key)\<close> and then \<open>verify\<close>, when both failures end the same way.\<close>

definition ed_check :: "ed25519 \<Rightarrow> bytes \<Rightarrow> bytes \<Rightarrow> bytes \<Rightarrow> bool" where
  "ed_check E key m signature \<longleftrightarrow> ed_valid_key E key \<and> ed_verify E key m signature"

lemma ed_check_sign:
  "ed25519_correct E \<Longrightarrow> length secret = 32 \<Longrightarrow> ed_check E (ed_public E secret) m (ed_sign E secret m)"
  by (simp add: ed25519_correct_def ed_check_def)

lemma ed25519_lengths:
  "ed25519_correct E \<Longrightarrow> length secret = 32 \<Longrightarrow> length (ed_public E secret) = 32"
  "ed25519_correct E \<Longrightarrow> length secret = 32 \<Longrightarrow> length (ed_sign E secret m) = 64"
  by (simp_all add: ed25519_correct_def)

section \<open>Authenticated encryption\<close>

text \<open>
  Functions of key, nonce, associated data and message. \<open>aead_correct\<close>: opening what was sealed
  gives the message back, and a ciphertext is its message and a 16 byte tag.
\<close>

record aead =
  seal :: "bytes \<Rightarrow> bytes \<Rightarrow> bytes \<Rightarrow> bytes \<Rightarrow> bytes option"
  unseal :: "bytes \<Rightarrow> bytes \<Rightarrow> bytes \<Rightarrow> bytes \<Rightarrow> bytes option"

definition aead_correct :: "aead \<Rightarrow> bool" where
  "aead_correct A \<longleftrightarrow> (\<forall>k n a m c. length k = 32 \<longrightarrow> length n = 24 \<longrightarrow> seal A k n a m = Some c \<longrightarrow>
     unseal A k n a c = Some m \<and> length c = length m + 16)"

section \<open>Instances\<close>

text \<open>
  Computable functions with the documented behaviour, for examples: a tag that is the first
  half of the key, signatures that carry the key and the head of the message.
\<close>

definition tag_aead :: aead where
  "tag_aead = \<lparr>seal = \<lambda>k n a m. Some (m @ take 16 k),
     unseal = \<lambda>k n a c. if 16 \<le> length c \<and> drop (length c - 16) c = take 16 k
       then Some (take (length c - 16) c) else None\<rparr>"

lemma tag_aead_correct: "aead_correct tag_aead"
  by (simp add: aead_correct_def tag_aead_def)

definition plain_ed25519 :: ed25519 where
  "plain_ed25519 = \<lparr>ed_valid_key = (\<lambda>k. length k = 32),
     ed_verify = (\<lambda>k m s. s = take 32 k @ take 32 (m @ replicate 32 0)), ed_public = (\<lambda>s. s),
     ed_sign = (\<lambda>s m. take 32 s @ take 32 (m @ replicate 32 0))\<rparr>"

lemma plain_ed25519_correct: "ed25519_correct plain_ed25519"
  by (auto simp: ed25519_correct_def plain_ed25519_def min_def)

definition plain_hash :: "bytes \<Rightarrow> bytes" where
  "plain_hash m = take 32 (m @ replicate 32 0)"

lemma length_plain_hash [simp]: "length (plain_hash m) = 32"
  by (simp add: plain_hash_def)

end
