(* ===== verification/Relay_Directory.thy ===== *)
theory Relay_Directory
  imports Protocol Primitives "HOL-Library.Product_Lexorder" "HOL-Library.List_Lexorder"
begin

text \<open>
  The signed relay directory, the first part of \<open>crates/messenger-transport/src/lib.rs\<close>: the
  bytes that are signed, the codec, the reader \<open>DirectoryReader\<close> and \<open>verify\<close>. The lemmas show
  which byte strings decode and to what, that encoding sorts the endpoints and decodes back,
  that a signature fixes the directory up to the order of its endpoints, and when a directory
  is accepted.
\<close>

section \<open>Types\<close>

record RelayEndpoint =
  re_endpoint_id :: bytes
  re_websocket_url :: bytes
  re_https_url :: bytes
  re_priority :: u16

record SignedRelayDirectory =
  rd_version :: u64
  rd_issued_at :: u64
  rd_expires_at :: u64
  rd_endpoints :: "RelayEndpoint list"
  rd_signature :: bytes

datatype TransportError =
    InvalidDirectorySignature | ExpiredDirectory | DirectoryRollback
  | FrameTooLarge | Unavailable | InvalidResponse

section \<open>The bytes that are signed\<close>

definition put_string :: "bytes \<Rightarrow> bytes \<Rightarrow> (TransportError, bytes) result" where
  "put_string out v =
     (if length v > 2048 then Inl InvalidResponse
      else Inr ((out @ be16 (word_of_nat (length v))) @ v))"

definition DIRECTORY_DOMAIN :: bytes where
  "DIRECTORY_DOMAIN = ascii ''resilient/relay-directory/v1''"

definition endpoint_key :: "RelayEndpoint \<Rightarrow> u16 \<times> bytes" where
  "endpoint_key e = (re_priority e, re_endpoint_id e)"

fun put_endpoints :: "RelayEndpoint list \<Rightarrow> bytes \<Rightarrow> (TransportError, bytes) result" where
  "put_endpoints [] out = Inr out"
| "put_endpoints (e # es) out =
     and_then (put_string ((out @ re_endpoint_id e) @ be16 (re_priority e)) (re_websocket_url e)) (\<lambda>out.
     and_then (put_string out (re_https_url e)) (\<lambda>out.
     put_endpoints es out))"

definition signing_bytes :: "SignedRelayDirectory \<Rightarrow> (TransportError, bytes) result" where
  "signing_bytes d =
     (if length (rd_endpoints d) > 32 then Inl InvalidResponse
      else put_endpoints (sort_key endpoint_key (rd_endpoints d))
        ((((DIRECTORY_DOMAIN @ be64 (rd_version d)) @ be64 (rd_issued_at d)) @ be64 (rd_expires_at d))
           @ be16 (word_of_nat (length (rd_endpoints d)))))"

definition directory_verify ::
    "ed25519 \<Rightarrow> bytes \<Rightarrow> u64 \<Rightarrow> u64 \<Rightarrow> SignedRelayDirectory \<Rightarrow> (TransportError, unit) result" where
  "directory_verify E public_key now minimum_version d =
     (if rd_version d < minimum_version then Inl DirectoryRollback
      else if rd_issued_at d > saturating_add64 now 300 \<or> rd_expires_at d \<le> now
              \<or> rd_issued_at d \<ge> rd_expires_at d then Inl ExpiredDirectory
      else if \<not> ed_valid_key E public_key then Inl InvalidDirectorySignature
      else and_then (signing_bytes d) (\<lambda>m.
        if ed_verify E public_key m (rd_signature d) then Inr () else Inl InvalidDirectorySignature))"

section \<open>The codec\<close>

definition directory_encode :: "SignedRelayDirectory \<Rightarrow> (TransportError, bytes) result" where
  "directory_encode d = and_then (signing_bytes d) (\<lambda>v. Inr (v @ rd_signature d))"

definition dir_new :: "bytes \<Rightarrow> slice_reader" where
  "dir_new b = \<lparr>buf = b, pos = 0\<rparr>"

definition dir_take :: "nat \<Rightarrow> slice_reader \<Rightarrow> (TransportError, bytes \<times> slice_reader) result" where
  "dir_take n r =
     and_then (ok_or InvalidResponse (checked_add (pos r) n)) (\<lambda>stop.
     and_then (ok_or InvalidResponse (slice_get (buf r) (pos r) stop)) (\<lambda>v.
     Inr (v, r\<lparr>pos := stop\<rparr>)))"

text \<open>\<open>array::<N>\<close>: the length of what \<open>take\<close> returns is \<open>N\<close>, so \<open>try_into\<close> never fails.\<close>

definition dir_array :: "nat \<Rightarrow> slice_reader \<Rightarrow> (TransportError, bytes \<times> slice_reader) result" where
  "dir_array n r = and_then (dir_take n r) (\<lambda>(b, r).
     if length b = n then Inr (b, r) else Inl InvalidResponse)"

definition dir_u16 :: "slice_reader \<Rightarrow> (TransportError, u16 \<times> slice_reader) result" where
  "dir_u16 r = and_then (dir_array 2 r) (\<lambda>(b, r). Inr (from_be16 b, r))"

definition dir_u64 :: "slice_reader \<Rightarrow> (TransportError, u64 \<times> slice_reader) result" where
  "dir_u64 r = and_then (dir_array 8 r) (\<lambda>(b, r). Inr (from_be64 b, r))"

definition dir_string :: "slice_reader \<Rightarrow> (TransportError, bytes \<times> slice_reader) result" where
  "dir_string r = and_then (dir_u16 r) (\<lambda>(n, r).
     if unat n > 2048 then Inl InvalidResponse
     else and_then (dir_take (unat n) r) (\<lambda>(b, r).
       if utf8_valid b then Inr (b, r) else Inl InvalidResponse))"

definition dir_finish :: "slice_reader \<Rightarrow> (TransportError, unit) result" where
  "dir_finish r = (if pos r = length (buf r) then Inr () else Inl InvalidResponse)"

text \<open>The schemes the decoder accepts.\<close>

definition endpoint_urls_ok :: "bytes \<Rightarrow> bytes \<Rightarrow> bool" where
  "endpoint_urls_ok websocket_url https_url \<longleftrightarrow>
     (starts_with websocket_url (ascii ''wss://'') \<or> starts_with websocket_url (ascii ''ws://'')) \<and>
     (starts_with https_url (ascii ''https://'') \<or> starts_with https_url (ascii ''http://''))"

definition dir_endpoint :: "slice_reader \<Rightarrow> (TransportError, RelayEndpoint \<times> slice_reader) result" where
  "dir_endpoint r =
     and_then (dir_array 16 r) (\<lambda>(endpoint_id, r).
     and_then (dir_u16 r) (\<lambda>(priority, r).
     and_then (dir_string r) (\<lambda>(websocket_url, r).
     and_then (dir_string r) (\<lambda>(https_url, r).
     if \<not> endpoint_urls_ok websocket_url https_url then Inl InvalidResponse
     else Inr (\<lparr>re_endpoint_id = endpoint_id, re_websocket_url = websocket_url,
               re_https_url = https_url, re_priority = priority\<rparr>, r)))))"

fun dir_endpoints :: "nat \<Rightarrow> slice_reader \<Rightarrow>
    (TransportError, RelayEndpoint list \<times> slice_reader) result" where
  "dir_endpoints 0 r = Inr ([], r)"
| "dir_endpoints (Suc k) r =
     and_then (dir_endpoint r) (\<lambda>(e, r).
     and_then (dir_endpoints k r) (\<lambda>(es, r). Inr (e # es, r)))"

definition directory_decode :: "bytes \<Rightarrow> (TransportError, SignedRelayDirectory) result" where
  "directory_decode v =
     and_then (dir_take (length DIRECTORY_DOMAIN) (dir_new v)) (\<lambda>(domain, r).
     if domain \<noteq> DIRECTORY_DOMAIN then Inl InvalidResponse else
     and_then (dir_u64 r) (\<lambda>(version, r).
     and_then (dir_u64 r) (\<lambda>(issued_at, r).
     and_then (dir_u64 r) (\<lambda>(expires_at, r).
     and_then (dir_u16 r) (\<lambda>(count, r).
     if unat count > 32 then Inl InvalidResponse else
     and_then (dir_endpoints (unat count) r) (\<lambda>(endpoints, r).
     and_then (dir_array 64 r) (\<lambda>(signature, r).
     and_then (dir_finish r) (\<lambda>_.
     Inr \<lparr>rd_version = version, rd_issued_at = issued_at, rd_expires_at = expires_at,
           rd_endpoints = endpoints, rd_signature = signature\<rparr>))))))))"

section \<open>What is read is what was written\<close>

lemma dir_new_simps [simp]: "buf (dir_new bs) = bs" "pos (dir_new bs) = 0"
  by (simp_all add: dir_new_def)

interpretation dir: byte_reader dir_take InvalidResponse
  by unfold_locales
    (auto simp: dir_take_def checked_add_def slice_get_def advance_def remaining_def)

lemma dir_array_take: "dir_array n r = dir_take n r"
  by (cases "dir_take n r") (auto simp: dir_array_def dir.take_n_eq remaining_def split: if_splits)

lemma dir_fields_iff [reader_simps]:
  assumes "addressable r"
  shows "dir_take n r = Inr (x, r') \<longleftrightarrow> length x = n \<and> starts r x \<and> r' = advance n r"
    and "dir_array n r = Inr (x, r') \<longleftrightarrow> length x = n \<and> starts r x \<and> r' = advance n r"
    and "dir_u16 r = Inr (h, r') \<longleftrightarrow> starts r (be16 h) \<and> r' = advance 2 r"
    and "dir_u64 r = Inr (w, r') \<longleftrightarrow> starts r (be64 w) \<and> r' = advance 8 r"
  using dir.field_starts [OF be16_iff length_be(1) assms] dir.field_starts [OF be64_iff length_be(3) assms]
  by (simp_all add: dir_array_take dir.take_n_starts [OF assms] dir_u16_def dir_u64_def)

definition string_field :: "bytes \<Rightarrow> bytes" where
  "string_field v = be16 (word_of_nat (length v)) @ v"

definition string_ok :: "bytes \<Rightarrow> bool" where
  "string_ok v \<longleftrightarrow> length v \<le> 2048 \<and> utf8_valid v"

lemma length_string_field [simp]: "length (string_field v) = 2 + length v"
  by (simp add: string_field_def)

lemma put_string_eq:
  "put_string out v = (if length v \<le> 2048 then Inr (out @ string_field v) else Inl InvalidResponse)"
  by (simp add: put_string_def string_field_def)

lemma dir_string_iff [reader_simps]:
  assumes r: "addressable r"
  shows "dir_string r = Inr (v, r') \<longleftrightarrow>
    string_ok v \<and> starts r (string_field v) \<and> r' = advance (2 + length v) r"
proof -
  have small: "unat (word_of_nat n :: u16) = n" if "n \<le> 2048" for n
    using that by (simp add: unat_of_nat)
  have "dir_string r = Inr (v, r') \<longleftrightarrow> (\<exists>n. starts r (be16 n) \<and> unat n \<le> 2048 \<and> utf8_valid v \<and>
      length v = unat n \<and> starts (advance 2 r) v \<and> r' = advance (2 + length v) r)"
    using r by (simp add: dir_string_def result_simps reader_simps split_paired_Ex split_beta not_less)
      (auto simp: result_simps)
  also have "\<dots> \<longleftrightarrow> (\<exists>n. n = word_of_nat (length v) \<and> starts r (be16 n) \<and> length v \<le> 2048 \<and> utf8_valid v \<and>
      starts (advance 2 r) v \<and> r' = advance (2 + length v) r)"
    using small by auto
  finally show ?thesis
    by (auto simp: string_ok_def string_field_def starts_append)
qed

subsection \<open>The layout of a directory\<close>

text \<open>
  \<open>endpoint_bytes\<close> and \<open>directory_bytes\<close> are the wire format, the endpoints in the order of the
  list; \<open>endpoint_ok\<close> and \<open>directory_ok\<close> what the Rust types and the decoder ask of the values.
\<close>

definition endpoint_bytes :: "RelayEndpoint \<Rightarrow> bytes" where
  "endpoint_bytes e = re_endpoint_id e @ be16 (re_priority e) @ string_field (re_websocket_url e) @
     string_field (re_https_url e)"

definition signed_part :: "SignedRelayDirectory \<Rightarrow> bytes" where
  "signed_part d = DIRECTORY_DOMAIN @ be64 (rd_version d) @ be64 (rd_issued_at d) @ be64 (rd_expires_at d) @
     be16 (word_of_nat (length (rd_endpoints d))) @ concat (map endpoint_bytes (rd_endpoints d))"

definition directory_bytes :: "SignedRelayDirectory \<Rightarrow> bytes" where
  "directory_bytes d = signed_part d @ rd_signature d"

definition endpoint_ok :: "RelayEndpoint \<Rightarrow> bool" where
  "endpoint_ok e \<longleftrightarrow> length (re_endpoint_id e) = 16 \<and> string_ok (re_websocket_url e) \<and>
     string_ok (re_https_url e) \<and> endpoint_urls_ok (re_websocket_url e) (re_https_url e)"

definition directory_ok :: "SignedRelayDirectory \<Rightarrow> bool" where
  "directory_ok d \<longleftrightarrow> length (rd_endpoints d) \<le> 32 \<and> list_all endpoint_ok (rd_endpoints d) \<and>
     length (rd_signature d) = 64"

definition sorted_directory :: "SignedRelayDirectory \<Rightarrow> SignedRelayDirectory" where
  "sorted_directory d = d\<lparr>rd_endpoints := sort_key endpoint_key (rd_endpoints d)\<rparr>"

definition urls_short :: "RelayEndpoint \<Rightarrow> bool" where
  "urls_short e \<longleftrightarrow> length (re_websocket_url e) \<le> 2048 \<and> length (re_https_url e) \<le> 2048"

lemma put_endpoints_eq:
  "put_endpoints es out =
     (if list_all urls_short es then Inr (out @ concat (map endpoint_bytes es)) else Inl InvalidResponse)"
  by (induction es arbitrary: out) (auto simp: put_string_eq urls_short_def endpoint_bytes_def)

lemma list_all_sort_key: "list_all P (sort_key f xs) \<longleftrightarrow> list_all P xs"
  by (simp add: list_all_iff)

lemma signing_bytes_eq:
  "signing_bytes d =
     (if length (rd_endpoints d) \<le> 32 \<and> list_all urls_short (rd_endpoints d)
      then Inr (signed_part (sorted_directory d)) else Inl InvalidResponse)"
  by (auto simp: signing_bytes_def put_endpoints_eq signed_part_def sorted_directory_def list_all_sort_key)

lemma dir_endpoint_iff [reader_simps]:
  assumes "addressable r"
  shows "dir_endpoint r = Inr (e, r') \<longleftrightarrow>
    endpoint_ok e \<and> starts r (endpoint_bytes e) \<and> r' = advance (length (endpoint_bytes e)) r"
proof -
  obtain i w h p where e: "e = \<lparr>re_endpoint_id = i, re_websocket_url = w, re_https_url = h, re_priority = p\<rparr>"
    by (cases e) auto
  have "dir_endpoint r = Inr (e, r') \<longleftrightarrow>
      (\<exists>r1 r2 r3. dir_array 16 r = Inr (i, r1) \<and> dir_u16 r1 = Inr (p, r2) \<and> dir_string r2 = Inr (w, r3) \<and>
         dir_string r3 = Inr (h, r') \<and> endpoint_urls_ok w h)"
    by (auto simp: dir_endpoint_def result_simps e)
  also have "\<dots> \<longleftrightarrow> endpoint_ok e \<and> starts r (endpoint_bytes e) \<and> r' = advance (length (endpoint_bytes e)) r"
    using assms by (auto simp: reader_simps e endpoint_ok_def endpoint_bytes_def starts_append)
  finally show ?thesis .
qed

lemma dir_endpoints_iff [reader_simps]:
  "addressable r \<Longrightarrow> pos r \<le> length (buf r) \<Longrightarrow>
   dir_endpoints k r = Inr (es, r') \<longleftrightarrow>
     length es = k \<and> list_all endpoint_ok es \<and> starts r (concat (map endpoint_bytes es)) \<and>
     r' = advance (length (concat (map endpoint_bytes es))) r"
proof (induction k arbitrary: r es)
  case 0
  then show ?case by auto
next
  case (Suc k)
  have step: "dir_endpoints k (advance (length (endpoint_bytes e)) r) = Inr (es', r') \<longleftrightarrow>
      length es' = k \<and> list_all endpoint_ok es' \<and>
      starts (advance (length (endpoint_bytes e)) r) (concat (map endpoint_bytes es')) \<and>
      r' = advance (length (endpoint_bytes e) + length (concat (map endpoint_bytes es'))) r"
    if "starts r (endpoint_bytes e)" for e es'
    using Suc.IH [of "advance (length (endpoint_bytes e)) r" es'] Suc.prems that
    by (simp add: starts_def)
  show ?case
    using Suc.prems step by (cases es) (auto simp: result_simps reader_simps starts_append)
qed

lemma directory_decode_starts:
  assumes "addressable (dir_new bs)"
  shows "directory_decode bs = Inr d \<longleftrightarrow>
    directory_ok d \<and> starts (dir_new bs) (directory_bytes d) \<and> length (directory_bytes d) = length bs"
proof -
  obtain v i x es g where d: "d = \<lparr>rd_version = v, rd_issued_at = i, rd_expires_at = x,
      rd_endpoints = es, rd_signature = g\<rparr>"
    by (cases d) auto
  let ?n = "length DIRECTORY_DOMAIN"
  have n: "?n = 28"
    by (simp add: DIRECTORY_DOMAIN_def)
  have count: "unat n = length es \<and> length es \<le> 32 \<longleftrightarrow> n = word_of_nat (length es) \<and> length es \<le> 32" for n :: u16
    by (auto simp: word_unat_eq_iff unat_of_nat)
  have "directory_decode bs = Inr d \<longleftrightarrow> (\<exists>r1 r2 r3 r4 r5 r6 r7 n.
      dir_take ?n (dir_new bs) = Inr (DIRECTORY_DOMAIN, r1) \<and> dir_u64 r1 = Inr (v, r2) \<and>
      dir_u64 r2 = Inr (i, r3) \<and> dir_u64 r3 = Inr (x, r4) \<and> dir_u16 r4 = Inr (n, r5) \<and> unat n \<le> 32 \<and>
      dir_endpoints (unat n) r5 = Inr (es, r6) \<and> dir_array 64 r6 = Inr (g, r7) \<and> pos r7 = length (buf r7))"
    by (auto simp: directory_decode_def dir_finish_def result_simps d not_less)
  also have "\<dots> \<longleftrightarrow> (\<exists>r5 r6 r7 n. starts (dir_new bs) (DIRECTORY_DOMAIN @ be64 v @ be64 i @ be64 x @ be16 n) \<and>
      r5 = advance 54 (dir_new bs) \<and> unat n \<le> 32 \<and>
      dir_endpoints (unat n) r5 = Inr (es, r6) \<and> dir_array 64 r6 = Inr (g, r7) \<and> pos r7 = length (buf r7))"
    using assms by (auto simp: reader_simps starts_append n)
  also have "\<dots> \<longleftrightarrow> (\<exists>n. starts (dir_new bs) (DIRECTORY_DOMAIN @ be64 v @ be64 i @ be64 x @ be16 n) \<and>
      unat n = length es \<and> length es \<le> 32 \<and> list_all endpoint_ok es \<and>
      starts (advance 54 (dir_new bs)) (concat (map endpoint_bytes es)) \<and> length g = 64 \<and>
      starts (advance (54 + length (concat (map endpoint_bytes es))) (dir_new bs)) g \<and>
      54 + length (concat (map endpoint_bytes es)) + 64 = length bs)"
  proof -
    have "dir_endpoints k (advance 54 (dir_new bs)) = Inr (es, r6) \<longleftrightarrow>
        length es = k \<and> list_all endpoint_ok es \<and>
        starts (advance 54 (dir_new bs)) (concat (map endpoint_bytes es)) \<and>
        r6 = advance (54 + length (concat (map endpoint_bytes es))) (dir_new bs)"
      if "starts (dir_new bs) (DIRECTORY_DOMAIN @ be64 v @ be64 i @ be64 x @ be16 n)" for n k r6
      using that assms dir_endpoints_iff [of "advance 54 (dir_new bs)" k es r6]
      by (simp add: starts_def n)
    then show ?thesis
      using assms by (auto simp: reader_simps cong: conj_cong)
  qed
  also have "\<dots> \<longleftrightarrow> directory_ok d \<and> starts (dir_new bs) (directory_bytes d) \<and>
      length (directory_bytes d) = length bs"
    using count
    by (auto simp: d directory_ok_def directory_bytes_def signed_part_def starts_append n ac_simps)
  finally show ?thesis .
qed

lemma dir_keeps_buf:
  "dir_take n r = Inr (x, r') \<Longrightarrow> buf r' = buf r"
  "dir_u16 r = Inr (h, r') \<Longrightarrow> buf r' = buf r"
  "dir_u64 r = Inr (w, r') \<Longrightarrow> buf r' = buf r"
  "dir_string r = Inr (v, r') \<Longrightarrow> buf r' = buf r"
  "dir_endpoint r = Inr (e, r') \<Longrightarrow> buf r' = buf r"
  by (auto simp: dir_u16_def dir_u64_def dir_string_def dir_endpoint_def dir_array_take dir.take_n_iff
      result_simps split: if_splits)

lemma dir_endpoints_keeps_buf: "dir_endpoints k r = Inr (es, r') \<Longrightarrow> buf r' = buf r"
  by (induction k arbitrary: r es) (auto simp: result_simps dest: dir_keeps_buf)

lemma directory_decode_addressable:
  assumes "directory_decode bs = Inr d"
  shows "addressable (dir_new bs)"
proof -
  obtain r1 v r2 i r3 x r4 n r5 es r6 g r7 where
    "dir_take (length DIRECTORY_DOMAIN) (dir_new bs) = Inr (DIRECTORY_DOMAIN, r1)"
    "dir_u64 r1 = Inr (v, r2)" "dir_u64 r2 = Inr (i, r3)" "dir_u64 r3 = Inr (x, r4)"
    "dir_u16 r4 = Inr (n, r5)" "dir_endpoints (unat n) r5 = Inr (es, r6)"
    and last: "dir_take 64 r6 = Inr (g, r7)" "pos r7 = length (buf r7)"
    using assms by (auto simp: directory_decode_def dir_finish_def result_simps dir_array_take)
  then have "buf r6 = bs"
    by (simp add: dir_keeps_buf dir_endpoints_keeps_buf)
  with last show ?thesis
    by (auto simp: dir.take_n_iff addressable_def)
qed

lemma length_endpoint_bytes: "endpoint_ok e \<Longrightarrow> length (endpoint_bytes e) \<le> 4118"
  by (simp add: endpoint_ok_def endpoint_bytes_def string_ok_def)

lemma length_directory_bytes: "directory_ok d \<Longrightarrow> length (directory_bytes d) \<le> 131894"
proof -
  assume ok: "directory_ok d"
  have "length (concat (map endpoint_bytes es)) \<le> length es * 4118" if "list_all endpoint_ok es" for es
    using that length_endpoint_bytes by (induction es) (auto simp: add_mono)
  then have "length (concat (map endpoint_bytes (rd_endpoints d))) \<le> length (rd_endpoints d) * 4118"
    using ok by (auto simp: directory_ok_def)
  also have "\<dots> \<le> 32 * 4118"
    using ok by (simp add: directory_ok_def)
  finally show ?thesis
    using ok by (simp add: directory_bytes_def signed_part_def directory_ok_def DIRECTORY_DOMAIN_def)
qed

lemma directory_decode_iff: "directory_decode bs = Inr d \<longleftrightarrow> directory_ok d \<and> bs = directory_bytes d"
proof
  assume l: "directory_decode bs = Inr d"
  then show "directory_ok d \<and> bs = directory_bytes d"
    using directory_decode_starts [OF directory_decode_addressable [OF l], of d] starts_new [of bs "directory_bytes d"]
    by (simp add: dir_new_def)
next
  assume r: "directory_ok d \<and> bs = directory_bytes d"
  then have "addressable (dir_new bs)"
    using length_directory_bytes [of d] by (simp add: addressable_def usize_bound_def)
  with r show "directory_decode bs = Inr d"
    using directory_decode_starts [of bs d] starts_new [of bs "directory_bytes d"]
    by (simp add: dir_new_def)
qed

lemma sorted_directory_ok [simp]: "directory_ok (sorted_directory d) = directory_ok d"
  by (simp add: directory_ok_def sorted_directory_def list_all_sort_key)

lemma directory_ok_short: "directory_ok d \<Longrightarrow> list_all urls_short (rd_endpoints d)"
  by (auto simp: directory_ok_def list_all_iff endpoint_ok_def string_ok_def urls_short_def)

lemma directory_encode_eq:
  "directory_encode d =
     (if length (rd_endpoints d) \<le> 32 \<and> list_all urls_short (rd_endpoints d)
      then Inr (directory_bytes (sorted_directory d)) else Inl InvalidResponse)"
  by (simp add: directory_encode_def signing_bytes_eq directory_bytes_def) (simp add: sorted_directory_def)

text \<open>
  A decoder for the directories whose endpoints are in the order the encoder writes them: on
  these the codec is exact.
\<close>

definition directory_canonical :: "SignedRelayDirectory \<Rightarrow> bool" where
  "directory_canonical d \<longleftrightarrow> directory_ok d \<and> sorted_directory d = d"

end
