(* ===== verification/Directory_Tool.thy ===== *)
theory Directory_Tool
  imports Relay_Directory
begin

text \<open>
  The operator's tool for relay directories, \<open>tools/network-lab/src/bin/relay-directory.rs\<close>:
  generation of the signing key, signing of a directory read from a text file, verification.
  Files are a map from paths to contents, in which two spellings of a path are two files; the
  random key and, for every access to a file, whether it fails are arguments.
\<close>

section \<open>Text\<close>

text \<open>
  The characters of a \<open>str\<close>, each as its UTF-8 bytes; the characters with the Unicode property
  \<open>White_Space\<close>, \<open>trim\<close>, \<open>split_whitespace\<close> and \<open>lines\<close>.
\<close>

definition char_tail :: "byte \<Rightarrow> nat" where
  "char_tail a = (if a < 0x80 then 0 else if a < 0xE0 then 1 else if a < 0xF0 then 2 else 3)"

function utf8_chars :: "bytes \<Rightarrow> bytes list" where
  "utf8_chars [] = []"
| "utf8_chars (a # bs) = (a # take (char_tail a) bs) # utf8_chars (drop (char_tail a) bs)"
  by pat_completeness auto
termination by (relation "measure length") auto

definition white_space :: "bytes list" where
  "white_space = [[0x09], [0x0A], [0x0B], [0x0C], [0x0D], [0x20], [0xC2, 0x85], [0xC2, 0xA0], [0xE1, 0x9A, 0x80],
     [0xE2, 0x80, 0x80], [0xE2, 0x80, 0x81], [0xE2, 0x80, 0x82], [0xE2, 0x80, 0x83], [0xE2, 0x80, 0x84],
     [0xE2, 0x80, 0x85], [0xE2, 0x80, 0x86], [0xE2, 0x80, 0x87], [0xE2, 0x80, 0x88], [0xE2, 0x80, 0x89],
     [0xE2, 0x80, 0x8A], [0xE2, 0x80, 0xA8], [0xE2, 0x80, 0xA9], [0xE2, 0x80, 0xAF], [0xE2, 0x81, 0x9F],
     [0xE3, 0x80, 0x80]]"

definition is_whitespace :: "bytes \<Rightarrow> bool" where
  "is_whitespace c \<longleftrightarrow> c \<in> set white_space"

definition trim_chars :: "bytes list \<Rightarrow> bytes list" where
  "trim_chars cs = rev (dropWhile is_whitespace (rev (dropWhile is_whitespace cs)))"

definition trim :: "bytes \<Rightarrow> bytes" where
  "trim s = concat (trim_chars (utf8_chars s))"

function split_runs :: "bytes list \<Rightarrow> bytes list list" where
  "split_runs cs =
     (case dropWhile is_whitespace cs of
        [] \<Rightarrow> []
      | c # ds \<Rightarrow> (c # takeWhile (\<lambda>d. \<not> is_whitespace d) ds) # split_runs (dropWhile (\<lambda>d. \<not> is_whitespace d) ds))"
  by pat_completeness auto
termination
proof (relation "measure length")
  fix cs c ds
  assume "dropWhile is_whitespace cs = c # ds"
  then have "length ds < length cs"
    using length_dropWhile_le [of is_whitespace cs] by simp
  with length_dropWhile_le [of "\<lambda>d. \<not> is_whitespace d" ds]
  show "(dropWhile (\<lambda>d. \<not> is_whitespace d) ds, cs) \<in> measure length"
    by simp
qed simp

declare split_runs.simps [simp del]

definition split_whitespace :: "bytes \<Rightarrow> bytes list" where
  "split_whitespace s = map concat (split_runs (utf8_chars s))"

definition strip_cr :: "bytes \<Rightarrow> bytes" where
  "strip_cr l = (if l \<noteq> [] \<and> last l = 0x0D then butlast l else l)"

function text_lines :: "bytes \<Rightarrow> bytes list" where
  "text_lines s =
     (if s = [] then []
      else case dropWhile (\<lambda>b. b \<noteq> 0x0A) s of
        [] \<Rightarrow> [s]
      | _ # rest \<Rightarrow> strip_cr (takeWhile (\<lambda>b. b \<noteq> 0x0A) s) # text_lines rest)"
  by pat_completeness auto
termination
proof (relation "measure length")
  fix s b rest
  assume "dropWhile (\<lambda>b. b \<noteq> 0x0A) s = b # rest"
  then show "(rest, s) \<in> measure length"
    using length_dropWhile_le [of "\<lambda>b. b \<noteq> 0x0A" s] by simp
qed simp

declare text_lines.simps [simp del]

section \<open>Numbers\<close>

datatype tool_error = Io | BadKey | BadNumber | BadHex | BadEndpoints | Directory TransportError | Usage

text \<open>\<open>str::parse\<close> of an unsigned type with \<open>bound\<close> values: a \<open>+\<close> may come first.\<close>

fun parse_digits :: "nat \<Rightarrow> nat \<Rightarrow> bytes \<Rightarrow> (tool_error, nat) result" where
  "parse_digits bound acc [] = Inr acc"
| "parse_digits bound acc (c # cs) =
     (if between 0x30 0x39 c \<and> acc * 10 + unat (c - 0x30) < bound
      then parse_digits bound (acc * 10 + unat (c - 0x30)) cs else Inl BadNumber)"

definition parse_unsigned :: "nat \<Rightarrow> bytes \<Rightarrow> (tool_error, nat) result" where
  "parse_unsigned bound s =
     (if s = [] \<or> s = [0x2B] then Inl BadNumber
      else parse_digits bound 0 (if hd s = 0x2B then tl s else s))"

definition parse_u64 :: "bytes \<Rightarrow> (tool_error, u64) result" where
  "parse_u64 s = and_then (parse_unsigned (2 ^ 64) s) (\<lambda>n. Inr (word_of_nat n))"

definition parse_u16 :: "bytes \<Rightarrow> (tool_error, u16) result" where
  "parse_u16 s = and_then (parse_unsigned (2 ^ 16) s) (\<lambda>n. Inr (word_of_nat n))"

definition hex_nibble :: "byte \<Rightarrow> (tool_error, byte) result" where
  "hex_nibble v =
     (if between 0x30 0x39 v then Inr (v - 0x30)
      else if between 0x61 0x66 v then Inr (v - 0x61 + 10)
      else if between 0x41 0x46 v then Inr (v - 0x41 + 10)
      else Inl BadHex)"

fun hex_pairs :: "bytes \<Rightarrow> (tool_error, bytes) result" where
  "hex_pairs (a # b # rest) =
     and_then (hex_nibble a) (\<lambda>high.
     and_then (hex_nibble b) (\<lambda>low.
     and_then (hex_pairs rest) (\<lambda>vs.
     Inr (or (push_bit 4 high) low # vs))))"
| "hex_pairs _ = Inr []"

definition decode_hex :: "bytes \<Rightarrow> (tool_error, bytes) result" where
  "decode_hex v = (if odd (length v) then Inl BadHex else hex_pairs v)"

definition HEX :: bytes where
  "HEX = ascii ''0123456789abcdef''"

definition encode_hex :: "bytes \<Rightarrow> bytes" where
  "encode_hex v = concat (map (\<lambda>b. [HEX ! unat (drop_bit 4 b), HEX ! unat (and b 0x0F)]) v)"

section \<open>Files\<close>

text \<open>
  A file is its content and whether only its owner may read it. Each access works, is refused, or
  stops after some bytes were written.
\<close>

record tool_file =
  fi_content :: bytes
  fi_private :: bool

datatype io_outcome = Works | Refused | Cut nat

record disk =
  dk_files :: "bytes \<Rightarrow> tool_file option"
  dk_outcomes :: "io_outcome list"

type_synonym 'a disk_call = "disk \<Rightarrow> (tool_error, 'a) result \<times> disk"

definition next_outcome :: "disk \<Rightarrow> io_outcome \<times> disk" where
  "next_outcome d = (case dk_outcomes d of [] \<Rightarrow> (Works, d) | x # xs \<Rightarrow> (x, d\<lparr>dk_outcomes := xs\<rparr>))"

definition put_file :: "bytes \<Rightarrow> bytes \<Rightarrow> bool \<Rightarrow> disk \<Rightarrow> disk" where
  "put_file path v private d = d\<lparr>dk_files := (dk_files d)(path \<mapsto> \<lparr>fi_content = v, fi_private = private\<rparr>)\<rparr>"

definition written :: "bytes \<Rightarrow> bytes \<Rightarrow> bool \<Rightarrow> unit disk_call" where
  "written path v private d =
     (case next_outcome d of
        (Works, d) \<Rightarrow> (Inr (), put_file path v private d)
      | (Refused, d) \<Rightarrow> (Inl Io, d)
      | (Cut n, d) \<Rightarrow> (Inl Io, put_file path (take n v) private d))"

definition fs_read :: "bytes \<Rightarrow> bytes disk_call" where
  "fs_read path d =
     (case next_outcome d of
        (Works, d) \<Rightarrow> (and_then (ok_or Io (dk_files d path)) (\<lambda>f. Inr (fi_content f)), d)
      | (_, d) \<Rightarrow> (Inl Io, d))"

definition disk_then :: "'a disk_call \<Rightarrow> ('a \<Rightarrow> 'b disk_call) \<Rightarrow> 'b disk_call" where
  "disk_then m f d = (case m d of (Inl e, d) \<Rightarrow> (Inl e, d) | (Inr x, d) \<Rightarrow> f x d)"

definition pure :: "(tool_error, 'a) result \<Rightarrow> 'a disk_call" where
  "pure r d = (r, d)"

definition fs_read_to_string :: "bytes \<Rightarrow> bytes disk_call" where
  "fs_read_to_string path = disk_then (fs_read path) (\<lambda>v. pure (if utf8_valid v then Inr v else Inl Io))"

text \<open>\<open>fs::write\<close> keeps the mode of a file that exists; \<open>create_new\<close> refuses one that does.\<close>

definition fs_write :: "bytes \<Rightarrow> bytes \<Rightarrow> unit disk_call" where
  "fs_write path v d = written path v (case dk_files d path of None \<Rightarrow> False | Some f \<Rightarrow> fi_private f) d"

definition write_secret :: "bytes \<Rightarrow> bytes \<Rightarrow> unit disk_call" where
  "write_secret path v d = (if dk_files d path = None then written path v True d else (Inl Io, d))"

section \<open>The commands\<close>

definition read_endpoint :: "bytes \<Rightarrow> (tool_error, RelayEndpoint) result" where
  "read_endpoint line =
     (case split_whitespace line of
        [ident, priority, websocket_url, https_url] \<Rightarrow>
          and_then (decode_hex ident) (\<lambda>i.
          if length i \<noteq> 16 then Inl BadEndpoints else
          and_then (parse_u16 priority) (\<lambda>p.
          Inr \<lparr>re_endpoint_id = i, re_websocket_url = websocket_url, re_https_url = https_url, re_priority = p\<rparr>))
      | _ \<Rightarrow> Inl BadEndpoints)"

fun endpoint_lines :: "bytes list \<Rightarrow> (tool_error, RelayEndpoint list) result" where
  "endpoint_lines [] = Inr []"
| "endpoint_lines (l # ls) =
     (let line = trim l in
      if line = [] \<or> starts_with line (ascii ''#'') then endpoint_lines ls
      else and_then (read_endpoint line) (\<lambda>e. and_then (endpoint_lines ls) (\<lambda>es. Inr (e # es))))"

definition read_endpoints :: "bytes \<Rightarrow> RelayEndpoint list disk_call" where
  "read_endpoints path =
     disk_then (fs_read_to_string path) (\<lambda>text.
     pure (and_then (endpoint_lines (text_lines text)) (\<lambda>es. if es = [] then Inl BadEndpoints else Inr es)))"

definition directory_result :: "(TransportError, 'a) result \<Rightarrow> 'a disk_call" where
  "directory_result r = pure (map_err Directory r)"

definition generate_key :: "ed25519 \<Rightarrow> bytes \<Rightarrow> bytes \<Rightarrow> bytes \<Rightarrow> unit disk_call" where
  "generate_key E key secret public =
     disk_then (write_secret secret key) (\<lambda>_.
     fs_write public (encode_hex (ed_public E key)))"

definition sign_directory :: "ed25519 \<Rightarrow> bytes \<Rightarrow> bytes \<Rightarrow> bytes \<Rightarrow> bytes \<Rightarrow> bytes \<Rightarrow> bytes \<Rightarrow> unit disk_call" where
  "sign_directory E secret output version issued_at expires_at endpoints =
     disk_then (fs_read secret) (\<lambda>key.
     disk_then (pure (if length key = 32 then Inr key else Inl BadKey)) (\<lambda>key.
     disk_then (pure (parse_u64 version)) (\<lambda>v.
     disk_then (pure (parse_u64 issued_at)) (\<lambda>i.
     disk_then (pure (parse_u64 expires_at)) (\<lambda>x.
     disk_then (read_endpoints endpoints) (\<lambda>es.
     let directory = \<lparr>rd_version = v, rd_issued_at = i, rd_expires_at = x, rd_endpoints = es,
           rd_signature = replicate 64 0\<rparr> in
     disk_then (directory_result (signing_bytes directory)) (\<lambda>m.
     let directory = directory\<lparr>rd_signature := ed_sign E key m\<rparr> in
     disk_then (directory_result (directory_encode directory)) (\<lambda>v.
     fs_write output v))))))))"

definition verify_directory :: "ed25519 \<Rightarrow> bytes \<Rightarrow> bytes \<Rightarrow> bytes \<Rightarrow> bytes \<Rightarrow> unit disk_call" where
  "verify_directory E public input now minimum =
     disk_then (fs_read_to_string public) (\<lambda>text.
     disk_then (pure (decode_hex (trim text))) (\<lambda>public_key.
     disk_then (pure (if length public_key = 32 then Inr () else Inl BadKey)) (\<lambda>_.
     disk_then (fs_read input) (\<lambda>v.
     disk_then (directory_result (directory_decode v)) (\<lambda>directory.
     disk_then (pure (parse_u64 now)) (\<lambda>n.
     disk_then (pure (parse_u64 minimum)) (\<lambda>least.
     directory_result (directory_verify E public_key n least directory))))))))"

text \<open>\<open>main\<close>: \<open>key\<close> is the key that a run which generates one would draw.\<close>

definition tool_main :: "ed25519 \<Rightarrow> bytes \<Rightarrow> bytes list \<Rightarrow> unit disk_call" where
  "tool_main E key args d =
     (case args of
        [command, secret, public] \<Rightarrow>
          if command = ascii ''generate-key'' then generate_key E key secret public d else (Inl Usage, d)
      | [command, secret, output, version, issued_at, expires_at, endpoints] \<Rightarrow>
          if command = ascii ''sign'' then sign_directory E secret output version issued_at expires_at endpoints d
          else (Inl Usage, d)
      | [command, public, input, now, minimum] \<Rightarrow>
          if command = ascii ''verify'' then verify_directory E public input now minimum d else (Inl Usage, d)
      | _ \<Rightarrow> (Inl Usage, d))"

end
