(* ===== verification/Directory_Tool_Correct.thy ===== *)
theory Directory_Tool_Correct
  imports Directory_Tool
begin

text \<open>
  The commands of the directory tool together: hexadecimal and UTF-8 facts about what its text
  handling cuts out of a file, what a run that succeeds has left on the disk, and that a signed
  directory verifies.
\<close>

section \<open>Hexadecimal\<close>

lemma HEX_eq: "HEX = [0x30, 0x31, 0x32, 0x33, 0x34, 0x35, 0x36, 0x37, 0x38, 0x39, 0x61, 0x62, 0x63, 0x64, 0x65, 0x66]"
  by code_simp

lemma HEX_nibbles: "list_all (\<lambda>n. hex_nibble (HEX ! n) = Inr (word_of_nat n) \<and> between 0x30 0x7A (HEX ! n)) [0..<16]"
  by (simp add: upt_rec HEX_eq hex_nibble_def between_def)

lemma HEX_nibble:
  assumes "x < 16"
  shows "hex_nibble (HEX ! unat x) = Inr x" "between 0x30 0x7A (HEX ! unat x)"
proof -
  have "unat x \<in> set [0..<16]"
    using assms by (simp add: word_less_nat_alt)
  then show "hex_nibble (HEX ! unat x) = Inr x" "between 0x30 0x7A (HEX ! unat x)"
    using HEX_nibbles unfolding list_all_iff by fastforce+
qed

lemma byte_nibbles:
  fixes b :: byte
  shows "drop_bit 4 b < 16" "and b 0x0F < 16" "or (push_bit 4 (drop_bit 4 b)) (and b 0x0F) = b"
proof -
  have "unat (drop_bit 4 b) < 16"
    using unsigned_less [of b, where 'a = nat] by (simp only: unat_drop_bit_eq) (simp add: drop_bit_eq_div)
  then show "drop_bit 4 b < 16"
    by (simp add: word_less_nat_alt)
  have m: "(0x0F :: byte) = mask 4"
    by (simp add: mask_eq_exp_minus_1)
  show "and b 0x0F < 16"
  proof -
    have "unat (take_bit 4 b) < 16"
      using take_bit_nat_less_exp [of 4 "unat b"] by (simp add: unsigned_take_bit_eq)
    then show ?thesis
      unfolding m take_bit_eq_mask [symmetric] by (simp add: word_less_nat_alt)
  qed
  show "or (push_bit 4 (drop_bit 4 b)) (and b 0x0F) = b"
    unfolding m by (rule bit_word_eqI) (auto simp: bit_simps)
qed

lemma decode_encode_hex: "decode_hex (encode_hex v) = Inr v"
proof -
  have "hex_pairs (encode_hex v) = Inr v"
    by (induction v) (simp_all add: encode_hex_def HEX_nibble byte_nibbles)
  moreover have "even (length (encode_hex v))"
    by (induction v) (simp_all add: encode_hex_def)
  ultimately show ?thesis
    by (simp add: decode_hex_def)
qed

lemma encode_hex_printable: "list_all (between 0x30 0x7A) (encode_hex v)"
  by (induction v) (simp_all add: encode_hex_def HEX_nibble byte_nibbles)

section \<open>Characters\<close>

lemma ascii_chars:
  assumes "list_all (between 0x30 0x7A) s"
  shows "utf8_chars s = map (\<lambda>b. [b]) s" "utf8_valid s"
proof -
  have lt: "b < 0x80" if "between 0x30 0x7A b" for b
    using that by (simp add: between_def word_le_nat_alt word_less_nat_alt)
  show "utf8_chars s = map (\<lambda>b. [b]) s" "utf8_valid s"
    using assms by (induction s) (simp_all add: lt char_tail_def)
qed

lemma printable_no_space: "between 0x30 0x7A b \<Longrightarrow> \<not> is_whitespace [b]"
  by (auto simp: is_whitespace_def white_space_def between_def)

lemma trim_printable:
  assumes "list_all (between 0x30 0x7A) s"
  shows "trim s = s"
proof -
  have "\<forall>c \<in> set (map (\<lambda>b. [b]) s). \<not> is_whitespace c"
    using assms printable_no_space by (auto simp: list_all_iff)
  then have "dropWhile is_whitespace (map (\<lambda>b. [b]) s) = map (\<lambda>b. [b]) s"
      "dropWhile is_whitespace (rev (map (\<lambda>b. [b]) s)) = rev (map (\<lambda>b. [b]) s)"
    by (simp_all only: dropWhile_eq_self_iff) (metis hd_in_set set_rev)+
  then show ?thesis
    by (simp add: trim_def trim_chars_def ascii_chars [OF assms])
qed

text \<open>What is cut out of valid text between characters is valid.\<close>

lemma utf8_chars_concat: "concat (utf8_chars s) = s"
  by (induction s rule: utf8_chars.induct) simp_all

definition char_ok :: "byte \<Rightarrow> bytes \<Rightarrow> bool" where
  "char_ok a t \<longleftrightarrow>
     (case t of
        [] \<Rightarrow> a < 0x80
      | [b] \<Rightarrow> between 0xC2 0xDF a \<and> between 0x80 0xBF b
      | [b, c] \<Rightarrow> between 0xE0 0xEF a \<and>
          between (if a = 0xE0 then 0xA0 else 0x80) (if a = 0xED then 0x9F else 0xBF) b \<and> between 0x80 0xBF c
      | [b, c, d] \<Rightarrow> between 0xF0 0xF4 a \<and>
          between (if a = 0xF0 then 0x90 else 0x80) (if a = 0xF4 then 0x8F else 0xBF) b \<and>
          between 0x80 0xBF c \<and> between 0x80 0xBF d
      | _ \<Rightarrow> False)"

lemma lead_classes:
  "a < 0x80 \<Longrightarrow> char_tail a = 0"
  "between 0xC2 0xDF a \<Longrightarrow> char_tail a = 1 \<and> \<not> a < 0x80"
  "between 0xE0 0xEF a \<Longrightarrow> char_tail a = 2 \<and> \<not> a < 0x80 \<and> \<not> between 0xC2 0xDF a"
  "between 0xF0 0xF4 a \<Longrightarrow> char_tail a = 3 \<and> \<not> a < 0x80 \<and> \<not> between 0xC2 0xDF a \<and> \<not> between 0xE0 0xEF a"
  by (simp_all add: char_tail_def between_def word_le_nat_alt word_less_nat_alt)

lemma list_cases_3:
  obtains "xs = []" | b where "xs = [b]" | b c where "xs = [b, c]" | b c d ds where "xs = b # c # d # ds"
  by (metis neq_Nil_conv)

lemmas char_steps = utf8_valid.simps(2) char_ok_def if_True if_False list.case take_Suc_Cons drop_Suc_Cons
  take_0 drop_0 take_Nil drop_Nil simp_thms conj_assoc One_nat_def numeral_2_eq_2 numeral_3_eq_3

lemma utf8_valid_step:
  "utf8_valid (a # bs) \<longleftrightarrow> char_ok a (take (char_tail a) bs) \<and> utf8_valid (drop (char_tail a) bs)"
proof -
  consider "a < 0x80" | "between 0xC2 0xDF a" | "between 0xE0 0xEF a" | "between 0xF0 0xF4 a"
    | "\<not> a < 0x80" "\<not> between 0xC2 0xDF a" "\<not> between 0xE0 0xEF a" "\<not> between 0xF0 0xF4 a"
    by blast
  then show ?thesis
  proof cases
    case 1
    then show ?thesis by (simp add: lead_classes char_ok_def)
  next
    case 2
    with lead_classes(2) [OF 2] show ?thesis
      by (cases bs rule: list_cases_3) (simp_all only: char_steps)
  next
    case 3
    with lead_classes(3) [OF 3] show ?thesis
      by (cases bs rule: list_cases_3) (simp_all only: char_steps)
  next
    case 4
    with lead_classes(4) [OF 4] show ?thesis
      by (cases bs rule: list_cases_3) (simp_all only: char_steps)
  next
    case 5
    have "\<not> char_ok a t" for t
      using 5 by (auto simp: char_ok_def split: list.split)
    with 5 show ?thesis
      by (cases bs rule: list_cases_3) (simp_all only: char_steps)
  qed
qed

definition chars_ok :: "bytes list \<Rightarrow> bool" where
  "chars_ok cs \<longleftrightarrow> (\<forall>c \<in> set cs. c \<noteq> [] \<and> char_ok (hd c) (tl c))"

lemma chars_ok_valid: "utf8_valid s \<Longrightarrow> chars_ok (utf8_chars s)"
  by (induction s rule: utf8_chars.induct) (simp_all add: chars_ok_def utf8_valid_step del: utf8_valid.simps(2))

lemma char_ok_length: "char_ok a t \<Longrightarrow> length t = char_tail a"
  by (auto simp: char_ok_def lead_classes split: list.splits)

lemma valid_chars_ok: "chars_ok cs \<Longrightarrow> utf8_valid (concat cs)"
proof (induction cs)
  case (Cons c cs)
  then obtain a t where "c = a # t" "char_ok a t" "chars_ok cs"
    by (cases c) (auto simp: chars_ok_def)
  with Cons.IH char_ok_length show ?case
    by (simp add: utf8_valid_step del: utf8_valid.simps(2))
qed simp

lemma trim_valid: "utf8_valid s \<Longrightarrow> utf8_valid (trim s)"
  unfolding trim_def
  by (rule valid_chars_ok) (auto simp: trim_chars_def chars_ok_def dest!: set_dropWhileD chars_ok_valid)

lemma split_runs_subset: "r \<in> set (split_runs cs) \<Longrightarrow> set r \<subseteq> set cs"
proof (induction cs rule: split_runs.induct)
  case (1 cs)
  show ?case
  proof (cases "dropWhile is_whitespace cs")
    case (Cons c ds)
    then have sub: "set (c # ds) \<subseteq> set cs"
      by (metis set_dropWhileD subsetI)
    from "1.prems" Cons have "r = c # takeWhile (\<lambda>d. \<not> is_whitespace d) ds \<or>
        r \<in> set (split_runs (dropWhile (\<lambda>d. \<not> is_whitespace d) ds))"
      by (simp add: split_runs.simps [of cs])
    then show ?thesis
      using sub "1.IH" [OF Cons] by (auto dest!: set_takeWhileD set_dropWhileD)
  next
    case Nil
    then have "split_runs cs = []"
      by (subst split_runs.simps) (simp only: Nil list.case)
    with "1.prems" show ?thesis by simp
  qed
qed

lemma split_whitespace_valid: "utf8_valid s \<Longrightarrow> f \<in> set (split_whitespace s) \<Longrightarrow> utf8_valid f"
  using split_runs_subset chars_ok_valid [of s]
  by (fastforce simp: split_whitespace_def chars_ok_def intro!: valid_chars_ok)

lemma char_ok_tail: "char_ok a t \<Longrightarrow> b \<in> set t \<Longrightarrow> \<not> b < 0x80"
  by (auto simp: char_ok_def between_def word_le_nat_alt word_less_nat_alt split: list.splits if_splits)

text \<open>Splitting at an ASCII byte splits between characters.\<close>

lemma utf8_valid_split:
  "utf8_valid (xs @ x # ys) \<Longrightarrow> x < 0x80 \<Longrightarrow> utf8_valid xs \<and> utf8_valid ys"
proof (induction xs rule: utf8_chars.induct)
  case (2 a bs)
  let ?n = "char_tail a"
  have step: "char_ok a (take ?n (bs @ x # ys))" "utf8_valid (drop ?n (bs @ x # ys))"
    using "2.prems"(1) by (simp_all only: append_Cons utf8_valid_step)
  have "?n \<le> length bs"
  proof (rule ccontr)
    assume "\<not> ?n \<le> length bs"
    then have "x \<in> set (take ?n (bs @ x # ys))"
      by (simp add: take_Cons' )
    with char_ok_tail [OF step(1)] "2.prems"(2) show False by blast
  qed
  with step "2.IH" "2.prems"(2) show ?case
    by (simp add: utf8_valid_step del: utf8_valid.simps(2))
qed simp

lemma strip_cr_valid:
  assumes "utf8_valid l"
  shows "utf8_valid (strip_cr l)"
proof (cases "l \<noteq> [] \<and> last l = 0x0D")
  case True
  then have "l = butlast l @ [0x0D]"
    using append_butlast_last_id [of l] by metis
  with assms utf8_valid_split [of "butlast l" "0x0D" "[]"] True show ?thesis
    by (simp add: strip_cr_def)
qed (use assms in \<open>auto simp: strip_cr_def\<close>)

lemma text_lines_valid: "utf8_valid s \<Longrightarrow> l \<in> set (text_lines s) \<Longrightarrow> utf8_valid l"
proof (induction s rule: text_lines.induct)
  case (1 s)
  show ?case
  proof (cases "dropWhile (\<lambda>b. b \<noteq> 0x0A) s")
    case Nil
    with "1.prems" show ?thesis
      by (simp only: text_lines.simps [of s] list.case) (simp split: if_splits)
  next
    case (Cons b rest)
    then have "b = 0x0A" "s \<noteq> []"
      using hd_dropWhile [of "\<lambda>b. b \<noteq> 0x0A" s] by auto
    then have "s = takeWhile (\<lambda>b. b \<noteq> 0x0A) s @ 0x0A # rest"
      using takeWhile_dropWhile_id [of "\<lambda>b. b \<noteq> 0x0A" s] Cons by simp
    then have v: "utf8_valid (takeWhile (\<lambda>b. b \<noteq> 0x0A) s)" "utf8_valid rest"
      using utf8_valid_split [of "takeWhile (\<lambda>b. b \<noteq> 0x0A) s" "0x0A" rest] "1.prems"(1) by simp_all
    have "text_lines s = strip_cr (takeWhile (\<lambda>b. b \<noteq> 0x0A) s) # text_lines rest"
      by (subst text_lines.simps) (simp only: Cons list.case \<open>s \<noteq> []\<close> if_False)
    with v "1.prems"(2) "1.IH" [OF \<open>s \<noteq> []\<close> Cons v(2)] strip_cr_valid show ?thesis
      by auto
  qed
qed

section \<open>What the endpoints file gives\<close>

definition endpoint_text :: "RelayEndpoint \<Rightarrow> bool" where
  "endpoint_text e \<longleftrightarrow> length (re_endpoint_id e) = 16 \<and> utf8_valid (re_websocket_url e) \<and> utf8_valid (re_https_url e)"

lemma read_endpoint_text:
  assumes "read_endpoint l = Inr e" "utf8_valid l"
  shows "endpoint_text e"
proof -
  from assms(1) obtain i p w h where "split_whitespace l = [i, p, w, h]" "re_websocket_url e = w" "re_https_url e = h"
      "length (re_endpoint_id e) = 16"
    by (auto simp: read_endpoint_def result_simps split: list.splits if_splits)
  with split_whitespace_valid [OF assms(2)] show ?thesis
    by (simp add: endpoint_text_def)
qed

lemma endpoint_lines_text:
  "endpoint_lines ls = Inr es \<Longrightarrow> \<forall>l \<in> set ls. utf8_valid l \<Longrightarrow> list_all endpoint_text es"
  by (induction ls arbitrary: es)
    (auto simp: Let_def result_simps split: if_splits dest: read_endpoint_text [OF _ trim_valid])

section \<open>Runs on the disk\<close>

lemma pure_simp [simp]: "pure r d = (r, d)"
  by (simp add: pure_def)

lemma disk_then_Inr [result_simps]:
  "disk_then m f d = (Inr y, d') \<longleftrightarrow> (\<exists>x d1. m d = (Inr x, d1) \<and> f x d1 = (Inr y, d'))"
  by (auto simp: disk_then_def split: prod.splits sum.splits)

lemma next_outcome_files: "next_outcome d = (x, d') \<Longrightarrow> dk_files d' = dk_files d"
  by (auto simp: next_outcome_def split: list.splits)

lemma fs_read_Inr:
  "fs_read p d = (Inr v, d') \<Longrightarrow> dk_files d' = dk_files d \<and> (\<exists>f. dk_files d p = Some f \<and> fi_content f = v)"
  by (auto simp: fs_read_def result_simps dest!: next_outcome_files split: prod.splits io_outcome.splits)

lemma fs_read_to_string_Inr:
  "fs_read_to_string p d = (Inr v, d') \<Longrightarrow>
     dk_files d' = dk_files d \<and> utf8_valid v \<and> (\<exists>f. dk_files d p = Some f \<and> fi_content f = v)"
  by (auto simp: fs_read_to_string_def result_simps dest!: fs_read_Inr split: if_splits)

lemma written_Inr:
  "written p v private d = (Inr (), d') \<Longrightarrow> dk_files d' = (dk_files d)(p \<mapsto> \<lparr>fi_content = v, fi_private = private\<rparr>)"
  by (auto simp: written_def put_file_def dest!: next_outcome_files split: prod.splits io_outcome.splits)

lemma fs_write_Inr:
  "fs_write p v d = (Inr (), d') \<Longrightarrow> \<exists>private. dk_files d' = (dk_files d)(p \<mapsto> \<lparr>fi_content = v, fi_private = private\<rparr>)"
  by (auto simp: fs_write_def dest!: written_Inr)

lemma read_endpoints_Inr:
  assumes "read_endpoints p d = (Inr es, d')"
  shows "dk_files d' = dk_files d" "es \<noteq> []" "list_all endpoint_text es"
    "\<exists>f. dk_files d p = Some f \<and> endpoint_lines (text_lines (fi_content f)) = Inr es"
proof -
  from assms obtain content d1 where run: "fs_read_to_string p d = (Inr content, d1)" "d' = d1" "es \<noteq> []"
      "endpoint_lines (text_lines content) = Inr es"
    by (auto simp: read_endpoints_def result_simps split: if_splits)
  note read = fs_read_to_string_Inr [OF run(1)]
  show "dk_files d' = dk_files d" "es \<noteq> []"
      "\<exists>f. dk_files d p = Some f \<and> endpoint_lines (text_lines (fi_content f)) = Inr es"
    using read run by auto
  show "list_all endpoint_text es"
    using endpoint_lines_text [OF run(4)] text_lines_valid read by blast
qed

text \<open>Reading on a disk where every access works.\<close>

abbreviation calm :: "disk \<Rightarrow> disk" where
  "calm d \<equiv> d\<lparr>dk_outcomes := []\<rparr>"

lemma calm_read [simp]: "fs_read p (calm d) = (and_then (ok_or Io (dk_files d p)) (\<lambda>f. Inr (fi_content f)), calm d)"
  by (simp add: fs_read_def next_outcome_def)

lemma calm_then [simp]:
  "m (calm d) = (Inr x, calm d) \<Longrightarrow> disk_then m f (calm d) = f x (calm d)"
  "m (calm d) = (Inl e, calm d) \<Longrightarrow> disk_then m f (calm d) = (Inl e, calm d)"
  by (simp_all add: disk_then_def)

section \<open>The three commands together\<close>

lemma generate_key_Inr:
  assumes "generate_key E key secret public d0 = (Inr (), d1)" "secret \<noteq> public"
  shows "dk_files d0 secret = None" "dk_files d1 secret = Some \<lparr>fi_content = key, fi_private = True\<rparr>"
    "\<exists>private. dk_files d1 public = Some \<lparr>fi_content = encode_hex (ed_public E key), fi_private = private\<rparr>"
  using assms
  by (auto simp: generate_key_def write_secret_def result_simps split: if_splits dest!: written_Inr fs_write_Inr)

definition signed_directory :: "ed25519 \<Rightarrow> bytes \<Rightarrow> SignedRelayDirectory \<Rightarrow> SignedRelayDirectory" where
  "signed_directory E key d = d\<lparr>rd_signature := ed_sign E key (signed_part (sorted_directory d))\<rparr>"

lemma sign_directory_Inr:
  assumes "sign_directory E secret output version issued_at expires_at endpoints d1 = (Inr (), d2)"
    and "dk_files d1 secret = Some \<lparr>fi_content = key, fi_private = pr\<rparr>"
  shows "\<exists>v i x es pr'. parse_u64 version = Inr v \<and> parse_u64 issued_at = Inr i \<and> parse_u64 expires_at = Inr x \<and>
    es \<noteq> [] \<and> list_all endpoint_text es \<and> list_all urls_short es \<and> length es \<le> 32 \<and>
    (\<exists>f. dk_files d1 endpoints = Some f \<and> endpoint_lines (text_lines (fi_content f)) = Inr es) \<and>
    dk_files d2 = (dk_files d1)(output \<mapsto> \<lparr>fi_content = directory_bytes (sorted_directory (signed_directory E key
       \<lparr>rd_version = v, rd_issued_at = i, rd_expires_at = x, rd_endpoints = es, rd_signature = replicate 64 0\<rparr>)),
       fi_private = pr'\<rparr>)"
proof -
  from assms(1) obtain k v i x es m w da db dc where
    key: "fs_read secret d1 = (Inr k, da)" and num: "parse_u64 version = Inr v" "parse_u64 issued_at = Inr i"
      "parse_u64 expires_at = Inr x"
    and es: "read_endpoints endpoints da = (Inr es, db)"
    and m: "signing_bytes \<lparr>rd_version = v, rd_issued_at = i, rd_expires_at = x, rd_endpoints = es,
      rd_signature = replicate 64 0\<rparr> = Inr m"
    and w: "directory_encode \<lparr>rd_version = v, rd_issued_at = i, rd_expires_at = x, rd_endpoints = es,
      rd_signature = ed_sign E k m\<rparr> = Inr w"
    and out: "fs_write output w db = (Inr (), d2)"
    by (auto simp: sign_directory_def result_simps Let_def directory_result_def split: if_splits)
  note files = fs_read_Inr [OF key] read_endpoints_Inr [OF es]
  from fs_write_Inr [OF out] obtain pr' where
    "dk_files d2 = (dk_files d1)(output \<mapsto> \<lparr>fi_content = w, fi_private = pr'\<rparr>)"
    using files by auto
  moreover have "k = key"
    using files assms(2) by auto
  ultimately show ?thesis
    using m w num files
    by (intro exI [of _ v] exI [of _ i] exI [of _ x] exI [of _ es] exI [of _ pr'])
      (auto simp: signing_bytes_eq directory_encode_eq signed_directory_def split: if_splits)
qed

lemma verify_directory_calm:
  assumes "dk_files d public = Some f" "fi_content f = encode_hex pk" "length pk = 32"
    and "dk_files d input = Some g" "parse_u64 now = Inr n" "parse_u64 minimum = Inr least"
  shows "fst (verify_directory E public input now minimum (calm d)) = Inr () \<longleftrightarrow>
    (\<exists>dir. directory_decode (fi_content g) = Inr dir \<and> directory_verify E pk n least dir = Inr ())"
proof -
  have "fs_read_to_string public (calm d) = (Inr (encode_hex pk), calm d)"
    using assms(1,2) ascii_chars(2) [OF encode_hex_printable] by (simp add: fs_read_to_string_def)
  then show ?thesis
    using assms(3-6)
    by (cases "directory_decode (fi_content g)"; cases "directory_verify E pk n least (projr (directory_decode (fi_content g)))")
      (simp_all add: verify_directory_def directory_result_def trim_printable [OF encode_hex_printable] decode_encode_hex)
qed

lemma sorted_twice [simp]: "sorted_directory (sorted_directory d) = sorted_directory d"
  by (simp add: sorted_directory_def sort_key_id_if_sorted)

lemma signed_directory_fields [simp]:
  "rd_version (signed_directory E key d) = rd_version d" "rd_issued_at (signed_directory E key d) = rd_issued_at d"
  "rd_expires_at (signed_directory E key d) = rd_expires_at d" "rd_endpoints (signed_directory E key d) = rd_endpoints d"
  "rd_version (sorted_directory d) = rd_version d" "rd_issued_at (sorted_directory d) = rd_issued_at d"
  "rd_expires_at (sorted_directory d) = rd_expires_at d" "rd_signature (sorted_directory d) = rd_signature d"
  by (simp_all add: signed_directory_def sorted_directory_def)

text \<open>A directory that was signed verifies under the public key, exactly within its time and above the minimum.\<close>

lemma signed_directory_verify:
  assumes "ed25519_correct E" "length key = 32" "length (rd_endpoints d) \<le> 32" "list_all urls_short (rd_endpoints d)"
  shows "directory_verify E (ed_public E key) n least (sorted_directory (signed_directory E key d)) = Inr () \<longleftrightarrow>
    least \<le> rd_version d \<and> rd_issued_at d \<le> saturating_add64 n 300 \<and> n < rd_expires_at d \<and> rd_issued_at d < rd_expires_at d"
proof -
  have "signing_bytes (sorted_directory (signed_directory E key d)) = Inr (signed_part (sorted_directory d))"
    using assms(3,4)
    by (simp add: signing_bytes_eq list_all_sort_key) (simp add: sorted_directory_def signed_directory_def signed_part_def list_all_sort_key)
  moreover have "ed_valid_key E (ed_public E key)"
      "ed_verify E (ed_public E key) (signed_part (sorted_directory d)) (rd_signature (signed_directory E key d))"
    using assms(1,2) by (simp_all add: ed25519_correct_def signed_directory_def)
  ultimately show ?thesis
    by (auto simp: directory_verify_def not_less not_le)
qed

text \<open>The layout determines the endpoints also when the decoder refuses their addresses.\<close>

definition endpoint_sized :: "RelayEndpoint \<Rightarrow> bool" where
  "endpoint_sized e \<longleftrightarrow> length (re_endpoint_id e) = 16 \<and> urls_short e"

lemma be_inject [simp]: "be16 x = be16 y \<longleftrightarrow> x = y" "be64 u = be64 v \<longleftrightarrow> u = v"
  by (metis from_be16_be16, metis from_be64_be64)

lemma short_count: "n < 65536 \<Longrightarrow> m < 65536 \<Longrightarrow> (word_of_nat n :: u16) = word_of_nat m \<longleftrightarrow> n = m"
  using of_nat_inverse [of n "word_of_nat n :: u16"] of_nat_inverse [of m "word_of_nat n :: u16"] by auto

lemma string_field_inject:
  assumes "string_field v @ r = string_field v' @ r'" "length v \<le> 2048" "length v' \<le> 2048"
  shows "v = v' \<and> r = r'"
  using assms short_count [of "length v" "length v'"] by (auto simp: string_field_def)

lemma endpoint_bytes_inject:
  assumes "endpoint_bytes e @ r = endpoint_bytes e' @ r'" "endpoint_sized e" "endpoint_sized e'"
  shows "e = e' \<and> r = r'"
proof -
  have "re_endpoint_id e = re_endpoint_id e' \<and> re_priority e = re_priority e' \<and>
      string_field (re_websocket_url e) @ string_field (re_https_url e) @ r =
      string_field (re_websocket_url e') @ string_field (re_https_url e') @ r'"
    using assms by (auto simp: endpoint_bytes_def endpoint_sized_def)
  with string_field_inject [of "re_websocket_url e" "string_field (re_https_url e) @ r"
      "re_websocket_url e'" "string_field (re_https_url e') @ r'"]
    string_field_inject [of "re_https_url e" r "re_https_url e'" r'] assms(2,3)
  show ?thesis
    by (auto simp: endpoint_sized_def urls_short_def intro: RelayEndpoint.equality)
qed

lemma endpoints_inject:
  "concat (map endpoint_bytes es) @ r = concat (map endpoint_bytes es') @ r' \<Longrightarrow> length es = length es' \<Longrightarrow>
     list_all endpoint_sized es \<Longrightarrow> list_all endpoint_sized es' \<Longrightarrow> es = es' \<and> r = r'"
proof (induction es es' rule: list_induct2')
  case (4 e es e' es')
  with endpoint_bytes_inject [of e "concat (map endpoint_bytes es) @ r" e' "concat (map endpoint_bytes es') @ r'"]
  show ?case by simp
qed simp_all

definition directory_sized :: "SignedRelayDirectory \<Rightarrow> bool" where
  "directory_sized d \<longleftrightarrow> length (rd_endpoints d) \<le> 32 \<and> list_all endpoint_sized (rd_endpoints d)"

lemma directory_bytes_inject:
  assumes "directory_bytes d = directory_bytes d'" "directory_sized d" "directory_sized d'"
  shows "d = d'"
proof -
  have "rd_version d = rd_version d' \<and> rd_issued_at d = rd_issued_at d' \<and> rd_expires_at d = rd_expires_at d' \<and>
      length (rd_endpoints d) = length (rd_endpoints d') \<and>
      concat (map endpoint_bytes (rd_endpoints d)) @ rd_signature d = concat (map endpoint_bytes (rd_endpoints d')) @ rd_signature d'"
    using assms short_count [of "length (rd_endpoints d)" "length (rd_endpoints d')"]
    by (auto simp: directory_bytes_def signed_part_def directory_sized_def)
  with endpoints_inject [of "rd_endpoints d" "rd_signature d" "rd_endpoints d'" "rd_signature d'"] assms(2,3)
  show ?thesis
    by (auto simp: directory_sized_def intro: SignedRelayDirectory.equality)
qed

lemma directory_ok_sized: "directory_ok d \<Longrightarrow> directory_sized d"
  by (auto simp: directory_ok_def directory_sized_def list_all_iff endpoint_ok_def endpoint_sized_def string_ok_def urls_short_def)

lemma signed_directory_decode:
  assumes "ed25519_correct E" "length key = 32" "length (rd_endpoints d) \<le> 32" "list_all urls_short (rd_endpoints d)"
    "list_all endpoint_text (rd_endpoints d)"
  shows "directory_decode (directory_bytes (sorted_directory (signed_directory E key d))) = Inr dir \<longleftrightarrow>
    list_all (\<lambda>e. endpoint_urls_ok (re_websocket_url e) (re_https_url e)) (rd_endpoints d) \<and>
    dir = sorted_directory (signed_directory E key d)"
proof -
  let ?d = "sorted_directory (signed_directory E key d)"
  have "directory_sized ?d"
    using assms(3-5) by (auto simp: directory_sized_def sorted_directory_def signed_directory_def list_all_iff
        endpoint_sized_def endpoint_text_def)
  then have "directory_ok dir \<and> directory_bytes ?d = directory_bytes dir \<longleftrightarrow> directory_ok dir \<and> dir = ?d"
    using directory_bytes_inject directory_ok_sized by blast
  moreover have "directory_ok ?d \<longleftrightarrow>
      list_all (\<lambda>e. endpoint_urls_ok (re_websocket_url e) (re_https_url e)) (rd_endpoints d)"
    unfolding sorted_directory_ok using assms ed25519_lengths(2) [OF assms(1,2)]
    by (auto simp: directory_ok_def endpoint_ok_def endpoint_text_def string_ok_def urls_short_def list_all_iff
        signed_directory_def)
  ultimately show ?thesis
    unfolding directory_decode_iff by blast
qed

section \<open>Property\<close>

text \<open>
  C24: the commands of the directory tool fit together. After a key was generated, which needs a
  path where no file exists and leaves the secret readable by its owner only, and a directory
  signed with it, the file written verifies with the public key written exactly when every address
  in the endpoints file has a scheme that clients accept, the version is at least the minimum, and
  the time of the check is before the expiry and at most 300 seconds before the issue date.
  Signing does not look at the schemes.
\<close>

theorem signed_directory_verifies:
  assumes "ed25519_correct E" "length key = 32" "secret \<noteq> public" "output \<noteq> public"
    and "tool_main E key [ascii ''generate-key'', secret, public] d0 = (Inr (), d1)"
    and "tool_main E key' [ascii ''sign'', secret, output, version, issued_at, expires_at, endpoints] d1 = (Inr (), d2)"
    and "parse_u64 now = Inr n" "parse_u64 minimum = Inr least"
  shows "dk_files d0 secret = None \<and> dk_files d1 secret = Some \<lparr>fi_content = key, fi_private = True\<rparr> \<and>
    (\<exists>v i x f es. parse_u64 version = Inr v \<and> parse_u64 issued_at = Inr i \<and> parse_u64 expires_at = Inr x \<and>
       dk_files d1 endpoints = Some f \<and> endpoint_lines (text_lines (fi_content f)) = Inr es \<and> es \<noteq> [] \<and>
       (fst (tool_main E key'' [ascii ''verify'', public, output, now, minimum] (d2\<lparr>dk_outcomes := []\<rparr>)) = Inr () \<longleftrightarrow>
          list_all (\<lambda>e. endpoint_urls_ok (re_websocket_url e) (re_https_url e)) es \<and>
          least \<le> v \<and> i \<le> saturating_add64 n 300 \<and> n < x \<and> i < x))"
proof -
  have "generate_key E key secret public d0 = (Inr (), d1)"
    using assms(5) by (simp add: tool_main_def)
  note gen = generate_key_Inr [OF this assms(3)]
  have "sign_directory E secret output version issued_at expires_at endpoints d1 = (Inr (), d2)"
    using assms(6) by (simp add: tool_main_def)
  from sign_directory_Inr [OF this gen(2)] obtain v i x es pr' f where
    num: "parse_u64 version = Inr v" "parse_u64 issued_at = Inr i" "parse_u64 expires_at = Inr x"
    and es: "es \<noteq> []" "list_all endpoint_text es" "list_all urls_short es" "length es \<le> 32"
      "dk_files d1 endpoints = Some f" "endpoint_lines (text_lines (fi_content f)) = Inr es"
    and out: "dk_files d2 = (dk_files d1)(output \<mapsto> \<lparr>fi_content = directory_bytes (sorted_directory (signed_directory E key
       \<lparr>rd_version = v, rd_issued_at = i, rd_expires_at = x, rd_endpoints = es, rd_signature = replicate 64 0\<rparr>)),
       fi_private = pr'\<rparr>)"
    by blast
  let ?d = "\<lparr>rd_version = v, rd_issued_at = i, rd_expires_at = x, rd_endpoints = es, rd_signature = replicate 64 0\<rparr>"
  obtain pub where pub: "dk_files d2 public = Some pub" "fi_content pub = encode_hex (ed_public E key)"
    using gen(3) out assms(4) by auto
  obtain g where g: "dk_files d2 output = Some g"
      "fi_content g = directory_bytes (sorted_directory (signed_directory E key ?d))"
    using out by auto
  note verify = verify_directory_calm [OF pub ed25519_lengths(1) [OF assms(1,2)] g(1) assms(7,8), of E]
  have "fst (tool_main E key'' [ascii ''verify'', public, output, now, minimum] (calm d2)) =
      fst (verify_directory E public output now minimum (calm d2))"
    by (simp add: tool_main_def)
  also have "\<dots> = Inr () \<longleftrightarrow> list_all (\<lambda>e. endpoint_urls_ok (re_websocket_url e) (re_https_url e)) es \<and>
      least \<le> v \<and> i \<le> saturating_add64 n 300 \<and> n < x \<and> i < x"
    using verify signed_directory_decode [OF assms(1,2), of ?d] signed_directory_verify [OF assms(1,2), of ?d] es g(2) by auto
  finally show ?thesis
    using gen(1,2) num es by blast
qed

section \<open>A run\<close>

definition demo_endpoints :: bytes where
  "demo_endpoints = ascii ''# relays'' @ [0x0D, 0x0A, 0x20, 0x0A] @ ascii ''07070707070707070707070707070707 1'' @ [0x09] @ ascii ''wss://a https://b'' @ [0x0A]"

definition demo_disk :: disk where
  "demo_disk = \<lparr>dk_files = [ascii ''e'' \<mapsto> \<lparr>fi_content = demo_endpoints, fi_private = False\<rparr>], dk_outcomes = []\<rparr>"

definition demo_generated :: disk where
  "demo_generated = \<lparr>dk_files = [ascii ''e'' \<mapsto> \<lparr>fi_content = demo_endpoints, fi_private = False\<rparr>,
     ascii ''s'' \<mapsto> \<lparr>fi_content = replicate 32 9, fi_private = True\<rparr>,
     ascii ''p'' \<mapsto> \<lparr>fi_content = encode_hex (replicate 32 9), fi_private = False\<rparr>], dk_outcomes = []\<rparr>"

lemma demo_paths: "distinct [ascii ''e'', ascii ''s'', ascii ''p'', ascii ''o'']"
  by code_simp

lemma demo_generate:
  "tool_main plain_ed25519 (replicate 32 9) [ascii ''generate-key'', ascii ''s'', ascii ''p''] demo_disk = (Inr (), demo_generated)"
  using demo_paths
  by (auto simp: tool_main_def generate_key_def write_secret_def fs_write_def written_def next_outcome_def put_file_def
      disk_then_def demo_disk_def demo_generated_def plain_ed25519_def)

definition demo_signed :: disk where
  "demo_signed = snd (tool_main plain_ed25519 [] [ascii ''sign'', ascii ''s'', ascii ''o'', ascii ''3'', ascii ''10'', ascii ''+90'', ascii ''e'']
     demo_generated)"

lemma demo_sign:
  "fst (tool_main plain_ed25519 [] [ascii ''sign'', ascii ''s'', ascii ''o'', ascii ''3'', ascii ''10'', ascii ''+90'', ascii ''e'']
     demo_generated) = Inr ()"
  by code_simp

lemma demo_numbers:
  "parse_u64 (ascii ''20'') = Inr 20" "parse_u64 (ascii ''3'') = Inr 3" "parse_u64 (ascii ''10'') = Inr 10"
  "parse_u64 (ascii ''+90'') = Inr 90"
  by code_simp+

lemma demo_endpoints_read:
  "case endpoint_lines (text_lines demo_endpoints) of Inl _ \<Rightarrow> False
   | Inr es \<Rightarrow> list_all (\<lambda>e. endpoint_urls_ok (re_websocket_url e) (re_https_url e)) es"
  by code_simp

theorem signed_directory_verifies_witness:
  "fst (tool_main plain_ed25519 [] [ascii ''verify'', ascii ''p'', ascii ''o'', ascii ''20'', ascii ''3'']
     (demo_signed\<lparr>dk_outcomes := []\<rparr>)) = Inr ()"
proof -
  have paths: "ascii ''s'' \<noteq> ascii ''p''" "ascii ''o'' \<noteq> ascii ''p''"
    using demo_paths by auto
  have sign: "tool_main plain_ed25519 [] [ascii ''sign'', ascii ''s'', ascii ''o'', ascii ''3'', ascii ''10'', ascii ''+90'', ascii ''e'']
        demo_generated = (Inr (), demo_signed)"
    using demo_sign by (simp add: prod_eq_iff demo_signed_def)
  have "dk_files demo_generated (ascii ''e'') = Some \<lparr>fi_content = demo_endpoints, fi_private = False\<rparr>"
    using demo_paths by (simp add: demo_generated_def)
  moreover have "(10 :: u64) \<le> saturating_add64 20 300"
    by code_simp
  ultimately show ?thesis
    using signed_directory_verifies [OF plain_ed25519_correct _ paths demo_generate sign demo_numbers(1,2), of "[]"]
      demo_numbers demo_endpoints_read
    by auto
qed

end
