(* ===== verification/Tables.thy ===== *)
theory Tables
  imports Prelude "HOL-Library.Multiset"
begin

text \<open>
  Database tables as lists of rows in insertion order, with the handful of statement shapes
  the sources use on SQLite and PostgreSQL: lookup by key, \<open>INSERT\<close>, \<open>INSERT .. ON CONFLICT
  DO NOTHING\<close>, \<open>.. DO UPDATE\<close>, \<open>UPDATE .. WHERE\<close>, \<open>DELETE .. WHERE\<close>. The lemmas say what each
  does to the key of every row, so that a component's invariant is carried by \<open>simp\<close>. Two
  locales state what a sequence of operations keeps once each operation keeps it:
  \<open>transition_system\<close> (an invariant) and \<open>monotone_system\<close> (a level that never falls).
\<close>

named_theorems table_simps \<open>how a statement changes the rows and keys of a table\<close>

section \<open>Statements\<close>

definition find_row :: "('r \<Rightarrow> 'k) \<Rightarrow> 'k \<Rightarrow> 'r list \<Rightarrow> 'r option" where
  "find_row key k rows = find (\<lambda>r. key r = k) rows"

definition has_key :: "('r \<Rightarrow> 'k) \<Rightarrow> 'k \<Rightarrow> 'r list \<Rightarrow> bool" where
  "has_key key k rows = list_ex (\<lambda>r. key r = k) rows"

text \<open>The rows a statement changed, and the new table.\<close>

definition insert_ignore :: "('r \<Rightarrow> 'k) \<Rightarrow> 'r \<Rightarrow> 'r list \<Rightarrow> nat \<times> 'r list" where
  "insert_ignore key r rows = (if has_key key (key r) rows then (0, rows) else (1, rows @ [r]))"

text \<open>A plain \<open>INSERT\<close> fails on a key that exists.\<close>

definition insert_new :: "('r \<Rightarrow> 'k) \<Rightarrow> 'r \<Rightarrow> 'r list \<Rightarrow> 'r list option" where
  "insert_new key r rows = (if has_key key (key r) rows then None else Some (rows @ [r]))"

definition update_where :: "('r \<Rightarrow> bool) \<Rightarrow> ('r \<Rightarrow> 'r) \<Rightarrow> 'r list \<Rightarrow> nat \<times> 'r list" where
  "update_where p f rows = (length (filter p rows), map (\<lambda>r. if p r then f r else r) rows)"

definition delete_where :: "('r \<Rightarrow> bool) \<Rightarrow> 'r list \<Rightarrow> 'r list" where
  "delete_where p rows = filter (\<lambda>r. \<not> p r) rows"

text \<open>\<open>INSERT .. ON CONFLICT(key) DO UPDATE\<close>: \<open>f\<close> is the update of the row that exists.\<close>

definition upsert :: "('r \<Rightarrow> 'k) \<Rightarrow> 'r \<Rightarrow> ('r \<Rightarrow> 'r) \<Rightarrow> 'r list \<Rightarrow> 'r list" where
  "upsert key r f rows =
     (if has_key key (key r) rows then map (\<lambda>x. if key x = key r then f x else x) rows
      else rows @ [r])"

text \<open>Collecting an iterator of results: the first error in order, or all the values.\<close>

fun collect_results :: "('a \<Rightarrow> ('e, 'b) result) \<Rightarrow> 'a list \<Rightarrow> ('e, 'b list) result" where
  "collect_results f [] = Inr []"
| "collect_results f (x # xs) =
     and_then (f x) (\<lambda>y. and_then (collect_results f xs) (\<lambda>ys. Inr (y # ys)))"

text \<open>Keys are unique, as a primary key keeps them.\<close>

definition keyed :: "('r \<Rightarrow> 'k) \<Rightarrow> 'r list \<Rightarrow> bool" where
  "keyed key rows = distinct (map key rows)"

section \<open>Lemmas\<close>

lemma has_key_iff [table_simps]: "has_key key k rows \<longleftrightarrow> k \<in> key ` set rows"
  by (auto simp: has_key_def list_ex_iff)

lemma find_row_None: "find_row key k rows = None \<longleftrightarrow> k \<notin> key ` set rows"
  by (auto simp: find_row_def find_None_iff)

lemma find_row_SomeD: "find_row key k rows = Some r \<Longrightarrow> r \<in> set rows \<and> key r = k"
  by (auto simp: find_row_def find_Some_iff)

lemma find_row_Some_iff:
  assumes "keyed key rows"
  shows "find_row key k rows = Some r \<longleftrightarrow> r \<in> set rows \<and> key r = k"
proof
  assume r: "r \<in> set rows \<and> key r = k"
  then obtain x where x: "find_row key k rows = Some x"
    using find_row_None [of key k rows] by (cases "find_row key k rows") auto
  then have "x \<in> set rows \<and> key x = k"
    by (rule find_row_SomeD)
  with r assms have "x = r"
    by (auto simp: keyed_def distinct_map inj_on_def)
  with x show "find_row key k rows = Some r" by simp
qed (rule find_row_SomeD)

lemma keyed_simps [table_simps]:
  "keyed key []" "keyed key (rows @ [r]) \<longleftrightarrow> keyed key rows \<and> key r \<notin> key ` set rows"
  by (auto simp: keyed_def)

lemma update_where_iff [simp]:
  "fst (update_where p f rows) = 0 \<longleftrightarrow> (\<forall>r \<in> set rows. \<not> p r)"
  "x \<in> set (snd (update_where p f rows)) \<longleftrightarrow> (\<exists>r \<in> set rows. x = (if p r then f r else r))"
  by (auto simp: update_where_def filter_empty_conv)

lemma update_where_noop: "\<forall>r \<in> set rows. \<not> p r \<Longrightarrow> update_where p f rows = (0, rows)"
  by (auto simp: update_where_def filter_empty_conv intro: map_idI)

lemma ball_update_where [simp]:
  "(\<forall>x \<in> set (snd (update_where p f rows)). Q x) \<longleftrightarrow> (\<forall>r \<in> set rows. Q (if p r then f r else r))"
  by (auto simp: update_where_def)

lemma keys_update_where [table_simps]:
  "(\<And>r. key (f r) = key r) \<Longrightarrow> key ` set (snd (update_where p f rows)) = key ` set rows"
  unfolding update_where_def snd_conv by (induction rows) auto

lemma keyed_update_where [table_simps]:
  "(\<And>r. key (f r) = key r) \<Longrightarrow> keyed key (snd (update_where p f rows)) \<longleftrightarrow> keyed key rows"
  by (simp add: update_where_def keyed_def comp_def if_distrib cong: if_cong)

lemma update_one:
  assumes "keyed key (xs @ r # ys)"
  shows "update_where (\<lambda>x. key x = key r) f (xs @ r # ys) = (1, xs @ f r # ys)"
proof -
  have "key r \<notin> key ` set xs \<union> key ` set ys"
    using assms by (simp add: keyed_def)
  then have "key x \<noteq> key r" if "x \<in> set xs \<union> set ys" for x
    using that by (metis UnCI UnE imageI)
  then show ?thesis by (auto simp: update_where_def intro: map_idI)
qed

lemma find_row_update_where [table_simps]:
  "(\<And>r. key (f r) = key r) \<Longrightarrow>
   find_row key k (snd (update_where p f rows)) = map_option (\<lambda>r. if p r then f r else r) (find_row key k rows)"
  unfolding find_row_def update_where_def snd_conv by (induction rows) auto

lemma keyed_filter_key: "keyed key rows \<Longrightarrow> find_row key k rows = Some m \<Longrightarrow> filter (\<lambda>r. key r = k) rows = [m]"
proof (induction rows)
  case (Cons r rows)
  then show ?case
    by (cases "key r = k") (auto simp: keyed_def find_row_def filter_empty_conv rev_image_eqI)
qed (simp add: find_row_def)

text \<open>An update of one row by its key, under a condition on the row.\<close>

lemma update_where_key:
  assumes "keyed key rows" "find_row key k rows = Some m"
  shows "update_where (\<lambda>r. key r = k \<and> P r) f rows =
    (if P m then (1, snd (update_where (\<lambda>r. key r = k) f rows)) else (0, rows))"
proof -
  have "r = m" if "r \<in> set rows" "key r = k" for r
    using arg_cong [OF keyed_filter_key [OF assms], of set] that by auto
  then have same: "key r = k \<and> P r \<longleftrightarrow> P m \<and> key r = k" if "r \<in> set rows" for r
    using that by auto
  show ?thesis
    unfolding update_where_def using keyed_filter_key [OF assms] same
    by (auto simp: filter_empty_conv cong: filter_cong intro!: map_idI)
qed

lemma update_where_none:
  "find_row key k rows = None \<Longrightarrow> update_where (\<lambda>r. key r = k \<and> P r) f rows = (0, rows)"
  by (auto simp: update_where_def find_row_None filter_empty_conv intro!: map_idI)

lemma delete_where_none: "k \<notin> key ` set rows \<Longrightarrow> delete_where (\<lambda>r. key r = k) rows = rows"
  by (auto simp: delete_where_def filter_id_conv)

lemma find_row_append [table_simps]:
  "find_row key k (rows @ [r]) =
     (case find_row key k rows of Some x \<Rightarrow> Some x | None \<Rightarrow> if key r = k then Some r else None)"
  unfolding find_row_def by (induction rows) auto

lemma find_row_insert_ignore [table_simps]:
  "find_row key k (snd (insert_ignore key r rows)) =
     (if k = key r \<and> find_row key k rows = None then Some r else find_row key k rows)"
  unfolding insert_ignore_def has_key_iff
  by (auto simp: find_row_append find_row_None split: option.splits)
    (metis find_row_None option.distinct(1))+

lemma find_row_delete_where [table_simps]:
  "find_row key k (delete_where (\<lambda>r. key r = j) rows) = (if k = j then None else find_row key k rows)"
  unfolding find_row_def delete_where_def by (induction rows) auto

lemma delete_where_simps [table_simps]:
  "x \<in> set (delete_where p rows) \<longleftrightarrow> x \<in> set rows \<and> \<not> p x"
  "keyed key rows \<Longrightarrow> keyed key (delete_where p rows)"
  by (auto simp: delete_where_def keyed_def distinct_map_filter)

lemma keys_delete_where [table_simps]:
  "key ` set (delete_where (\<lambda>r. key r = k) rows) = key ` set rows - {k}"
  by (auto simp: delete_where_def)

lemma keyed_insert_ignore [table_simps]: "keyed key rows \<Longrightarrow> keyed key (snd (insert_ignore key r rows))"
  by (simp add: insert_ignore_def table_simps)

lemma keys_insert_ignore [table_simps]:
  "key ` set (snd (insert_ignore key r rows)) = insert (key r) (key ` set rows)"
  by (auto simp: insert_ignore_def table_simps)

lemma insert_ignore_noop: "fst (insert_ignore key r rows) = 0 \<Longrightarrow> snd (insert_ignore key r rows) = rows"
  by (simp add: insert_ignore_def split: if_splits)

lemma ball_insert_ignore: "\<forall>x \<in> set rows. Q x \<Longrightarrow> Q r \<Longrightarrow> \<forall>x \<in> set (snd (insert_ignore key r rows)). Q x"
  by (auto simp: insert_ignore_def)

lemma upsert_update_where:
  "has_key key (key r) rows \<Longrightarrow> upsert key r f rows = snd (update_where (\<lambda>x. key x = key r) f rows)"
  by (simp add: upsert_def update_where_def)

lemma keyed_upsert [table_simps]:
  "(\<And>x. key (f x) = key x) \<Longrightarrow> keyed key rows \<Longrightarrow> keyed key (upsert key r f rows)"
  by (cases "has_key key (key r) rows")
    (simp_all add: upsert_update_where keyed_update_where, simp add: upsert_def table_simps)

lemma keys_upsert [table_simps]:
  "(\<And>x. key (f x) = key x) \<Longrightarrow> key ` set (upsert key r f rows) = insert (key r) (key ` set rows)"
  by (cases "has_key key (key r) rows")
    (auto simp: upsert_update_where keys_update_where has_key_iff, auto simp: upsert_def table_simps)

lemma find_row_upsert [table_simps]:
  "(\<And>x. key (f x) = key x) \<Longrightarrow>
   find_row key k (upsert key r f rows) =
     (if k = key r then Some (case find_row key k rows of None \<Rightarrow> r | Some x \<Rightarrow> f x) else find_row key k rows)"
proof (cases "has_key key (key r) rows")
  case True
  assume f: "\<And>x. key (f x) = key x"
  have "map_option (\<lambda>x. if key x = key r then f x else x) (find_row key k rows) =
      (if k = key r then Some (case find_row key k rows of None \<Rightarrow> r | Some x \<Rightarrow> f x) else find_row key k rows)"
    using True find_row_None [of key k rows] find_row_SomeD [of key k rows]
    by (cases "find_row key k rows") (auto simp: has_key_iff)
  then show ?thesis using f by (simp add: upsert_update_where [OF True] find_row_update_where)
next
  case False
  then have "find_row key (key r) rows = None" by (simp add: find_row_None has_key_iff)
  with False show ?thesis
    by (cases "find_row key k rows") (auto simp: upsert_def find_row_append)
qed

lemma ball_upsert:
  "\<forall>x \<in> set rows. Q x \<Longrightarrow> Q r \<Longrightarrow> (\<And>x. x \<in> set rows \<Longrightarrow> key x = key r \<Longrightarrow> Q (f x)) \<Longrightarrow>
   \<forall>x \<in> set (upsert key r f rows). Q x"
  by (auto simp: upsert_def)

lemma collect_results_Inr_iff:
  "collect_results f xs = Inr ys \<longleftrightarrow> list_all2 (\<lambda>x y. f x = Inr y) xs ys"
  by (induction xs arbitrary: ys) (auto simp: result_simps list_all2_Cons1)

lemma collect_results_map: "(\<And>x. x \<in> set xs \<Longrightarrow> f x = Inr (g x)) \<Longrightarrow> collect_results f xs = Inr (map g xs)"
  by (induction xs) auto

lemma list_all2_results_set:
  "list_all2 (\<lambda>x y. f x = Inr y) xs ys \<Longrightarrow> y \<in> set ys \<longleftrightarrow> (\<exists>x \<in> set xs. f x = Inr y)"
  by (induction rule: list_all2_induct) auto

lemma collect_results_comp: "collect_results f (map g xs) = collect_results (\<lambda>x. f (g x)) xs"
  by (induction xs) auto

lemma collect_results_cong: "map f xs = map g ys \<Longrightarrow> collect_results f xs = collect_results g ys"
  by (induction xs arbitrary: ys) auto

subsection \<open>Ordered selections\<close>

lemma insort_key_map: "insort_key key (f x) (map f xs) = map f (insort_key (\<lambda>x. key (f x)) x xs)"
  by (induction xs) auto

lemma sort_key_map: "sort_key key (map f xs) = map f (sort_key (\<lambda>x. key (f x)) xs)"
  by (induction xs) (simp_all add: insort_key_map)

lemma insort_key_cong: "(\<And>y. y \<in> insert x (set xs) \<Longrightarrow> f y = g y) \<Longrightarrow> insort_key f x xs = insort_key g x xs"
  by (induction xs) auto

lemma sort_key_cong: "(\<And>x. x \<in> set xs \<Longrightarrow> f x = g x) \<Longrightarrow> sort_key f xs = sort_key g xs"
proof (induction xs)
  case (Cons x xs)
  then have "sort_key f xs = sort_key g xs" by simp
  moreover have "insort_key f x (sort_key g xs) = insort_key g x (sort_key g xs)"
    using Cons.prems by (intro insort_key_cong) auto
  ultimately show ?case by simp
qed simp

lemma keyed_filter [table_simps]: "keyed key rows \<Longrightarrow> keyed key (filter p rows)"
  by (simp add: keyed_def distinct_map_filter)

lemma keyed_sort_key [table_simps]: "keyed key (sort_key f rows) \<longleftrightarrow> keyed key rows"
  unfolding keyed_def by (rule mset_eq_imp_distinct_iff) simp

text \<open>Two tables whose rows agree, row by row, on what a query selects, orders by and reads.\<close>

lemma ordered_selection_cong:
  assumes "list_all2 R xs ys" and "\<And>x y. R x y \<Longrightarrow> key x = key y \<and> P x = P y \<and> f x = g y"
  shows "map f (sort_key key (filter P xs)) = map g (sort_key key (filter P ys))"
proof -
  define zs where "zs = filter (\<lambda>z. P (fst z)) (zip xs ys)"
  have len: "length xs = length ys" and R: "R (fst z) (snd z)" if "z \<in> set (zip xs ys)" for z
    using assms(1) that by (auto simp: list_all2_iff)
  then have len: "length xs = length ys" using assms(1) by (simp add: list_all2_lengthD)
  have agree: "key (fst z) = key (snd z) \<and> P (fst z) = P (snd z) \<and> f (fst z) = g (snd z)"
    if "z \<in> set (zip xs ys)" for z
    using assms(2) R that by blast
  have "filter P (map fst (zip xs ys)) = map fst zs" "filter P (map snd (zip xs ys)) = map snd zs"
    using agree by (auto simp: zs_def filter_map comp_def intro!: arg_cong [where f = "map snd"] filter_cong)
  then have "filter P xs = map fst zs" "filter P ys = map snd zs" using len by simp_all
  moreover have "sort_key (\<lambda>z. key (fst z)) zs = sort_key (\<lambda>z. key (snd z)) zs"
    using agree by (intro sort_key_cong) (auto simp: zs_def)
  ultimately show ?thesis
    using agree by (simp add: sort_key_map comp_def) (auto simp: zs_def)
qed

section \<open>Connections, statements that may fail, transactions\<close>

text \<open>
  A connection has the rows it sees (\<open>live\<close>), the rows to go back to when a transaction is
  left open on it (\<open>saved\<close>), and the failures to come (\<open>faults\<close>): the \<open>i\<close>-th statement sent on
  the connection, \<open>BEGIN\<close> and \<open>COMMIT\<close> included, fails when the \<open>i\<close>-th entry is true, whatever
  the reason (a busy or full database, an I/O error). A statement that fails changes no row.
  What a reader sees after the process stops is \<open>durable\<close>.
\<close>

record 's conn =
  live :: 's
  saved :: "'s option"
  faults :: "bool list"

type_synonym ('e, 's, 'a) db = "'s conn \<Rightarrow> ('e, 'a) result \<times> 's conn"

definition durable :: "'s conn \<Rightarrow> 's" where
  "durable c = (case saved c of None \<Rightarrow> live c | Some s \<Rightarrow> s)"

definition db_return :: "'a \<Rightarrow> ('e, 's, 'a) db" where
  "db_return x c = (Inr x, c)"

definition db_fail :: "'e \<Rightarrow> ('e, 's, 'a) db" where
  "db_fail e c = (Inl e, c)"

definition db_bind :: "('e, 's, 'a) db \<Rightarrow> ('a \<Rightarrow> ('e, 's, 'b) db) \<Rightarrow> ('e, 's, 'b) db" where
  "db_bind m f c = (case m c of (Inl e, c') \<Rightarrow> (Inl e, c') | (Inr x, c') \<Rightarrow> f x c')"

definition db_then :: "('e, 's, 'a) db \<Rightarrow> ('e, 's, 'b) db \<Rightarrow> ('e, 's, 'b) db" where
  "db_then m n = db_bind m (\<lambda>_. n)"

text \<open>Lift a computation that touches no table.\<close>

definition db_lift :: "('e, 'a) result \<Rightarrow> ('e, 's, 'a) db" where
  "db_lift r c = (r, c)"

text \<open>One statement: \<open>e\<close> is the error of a failure of the database itself.\<close>

definition db_stmt :: "'e \<Rightarrow> ('s \<Rightarrow> ('e, 'a \<times> 's) result) \<Rightarrow> ('e, 's, 'a) db" where
  "db_stmt e f c =
     (let c' = c\<lparr>faults := tl (faults c)\<rparr> in
      if faults c \<noteq> [] \<and> hd (faults c) then (Inl e, c')
      else case f (live c) of
             Inl e' \<Rightarrow> (Inl e', c')
           | Inr (x, s) \<Rightarrow> (Inr x, c'\<lparr>live := s\<rparr>))"

definition db_query :: "'e \<Rightarrow> ('s \<Rightarrow> ('e, 'a) result) \<Rightarrow> ('e, 's, 'a) db" where
  "db_query e f = db_stmt e (\<lambda>s. and_then (f s) (\<lambda>x. Inr (x, s)))"

text \<open>
  A transaction guard: \<open>BEGIN\<close> fails when a transaction is open already; when the body or the
  \<open>COMMIT\<close> fails, dropping the guard rolls back.
\<close>

definition db_transaction :: "'e \<Rightarrow> ('e, 's, 'a) db \<Rightarrow> ('e, 's, 'a) db" where
  "db_transaction e body c =
     (case db_stmt e (\<lambda>s. if saved c = None then Inr ((), s) else Inl e) c of
        (Inl e', c1) \<Rightarrow> (Inl e', c1)
      | (Inr _, c1) \<Rightarrow>
          (case db_bind body (\<lambda>x. db_then (db_stmt e (\<lambda>s. Inr ((), s))) (db_return x)) c1 of
             (Inl e', c2) \<Rightarrow> (Inl e', c2\<lparr>live := live c\<rparr>)
           | (Inr x, c2) \<Rightarrow> (Inr x, c2)))"

text \<open>
  A transaction whose body says how it ends: \<open>Commit r\<close> commits and then returns \<open>r\<close>, which may
  be an error; \<open>Abandon r\<close> returns \<open>r\<close> and drops the guard, which rolls back. An error of the
  body rolls back as well.
\<close>

datatype ('e, 'a) tx_exit = Commit "('e, 'a) result" | Abandon "('e, 'a) result"

definition db_tx :: "'e \<Rightarrow> ('e, 's, ('e, 'a) tx_exit) db \<Rightarrow> ('e, 's, 'a) db" where
  "db_tx e body c =
     (case db_stmt e (\<lambda>s. if saved c = None then Inr ((), s) else Inl e) c of
        (Inl e', c1) \<Rightarrow> (Inl e', c1)
      | (Inr _, c1) \<Rightarrow>
          (case body c1 of
             (Inl e', c2) \<Rightarrow> (Inl e', c2\<lparr>live := live c\<rparr>)
           | (Inr (Abandon r), c2) \<Rightarrow> (r, c2\<lparr>live := live c\<rparr>)
           | (Inr (Commit r), c2) \<Rightarrow>
               (case db_stmt e (\<lambda>s. Inr ((), s)) c2 of
                  (Inl e', c3) \<Rightarrow> (Inl e', c3\<lparr>live := live c\<rparr>)
                | (Inr _, c3) \<Rightarrow> (r, c3))))"

text \<open>A loop over a list, in order, stopping at the first error.\<close>

fun db_for :: "('a \<Rightarrow> ('e, 's, 'b) db) \<Rightarrow> 'a list \<Rightarrow> ('e, 's, 'b list) db" where
  "db_for f [] = db_return []"
| "db_for f (x # xs) = db_bind (f x) (\<lambda>y. db_bind (db_for f xs) (\<lambda>ys. db_return (y # ys)))"

subsection \<open>What a computation ensures\<close>

text \<open>
  \<open>ensures m s Q\<close>: started on the rows \<open>s\<close> with no open transaction, whichever statements fail,
  \<open>m\<close> ends with no open transaction, and its result and rows satisfy \<open>Q\<close>.
  \<open>steady m\<close>: an open transaction is left as it is found. \<open>keeps I m\<close>: whatever the connection,
  the durable rows satisfy \<open>I\<close> afterwards when they did before. \<open>quiet s\<close> is a connection on
  which nothing fails.
\<close>

definition ensures :: "('e, 's, 'a) db \<Rightarrow> 's \<Rightarrow> (('e, 'a) result \<Rightarrow> 's \<Rightarrow> bool) \<Rightarrow> bool" where
  "ensures m s Q \<longleftrightarrow> (\<forall>c r c'. live c = s \<longrightarrow> saved c = None \<longrightarrow> m c = (r, c') \<longrightarrow>
     saved c' = None \<and> Q r (live c'))"

definition steady :: "('e, 's, 'a) db \<Rightarrow> bool" where
  "steady m \<longleftrightarrow> (\<forall>c r c'. m c = (r, c') \<longrightarrow> saved c' = saved c)"

definition keeps :: "('s \<Rightarrow> bool) \<Rightarrow> ('e, 's, 'a) db \<Rightarrow> bool" where
  "keeps I m \<longleftrightarrow> (\<forall>c. I (durable c) \<longrightarrow> I (durable (snd (m c))))"

definition quiet :: "'s \<Rightarrow> 's conn" where
  "quiet s = \<lparr>live = s, saved = None, faults = []\<rparr>"

lemma db_bind_run:
  "db_bind m f c = (r, c') \<longleftrightarrow>
     (\<exists>e. m c = (Inl e, c') \<and> r = Inl e) \<or> (\<exists>x c1. m c = (Inr x, c1) \<and> f x c1 = (r, c'))"
  by (auto simp: db_bind_def split: sum.splits prod.splits)

lemma db_stmt_run:
  "db_stmt e f c = (r, c') \<longleftrightarrow>
     (let c1 = c\<lparr>faults := tl (faults c)\<rparr> in
      if faults c \<noteq> [] \<and> hd (faults c) then r = Inl e \<and> c' = c1
      else (case f (live c) of Inl e' \<Rightarrow> r = Inl e' \<and> c' = c1
            | Inr (x, s) \<Rightarrow> r = Inr x \<and> c' = c1\<lparr>live := s\<rparr>))"
  by (auto simp: db_stmt_def Let_def split: sum.splits)

lemma db_transaction_run:
  "db_transaction e body c = (r, c') \<longleftrightarrow>
     (let c1 = c\<lparr>faults := tl (faults c)\<rparr> in
      if faults c \<noteq> [] \<and> hd (faults c) \<or> saved c \<noteq> None then r = Inl e \<and> c' = c1
      else (\<exists>e' c2. body c1 = (Inl e', c2) \<and> r = Inl e' \<and> c' = c2\<lparr>live := live c\<rparr>) \<or>
           (\<exists>x c2. body c1 = (Inr x, c2) \<and>
              (if faults c2 \<noteq> [] \<and> hd (faults c2)
               then r = Inl e \<and> c' = c2\<lparr>faults := tl (faults c2), live := live c\<rparr>
               else r = Inr x \<and> c' = c2\<lparr>faults := tl (faults c2)\<rparr>)))"
proof (cases "faults c \<noteq> [] \<and> hd (faults c) \<or> saved c \<noteq> None")
  case True
  then show ?thesis
    by (auto simp: db_transaction_def db_stmt_def Let_def)
next
  case False
  define c1 where "c1 = c\<lparr>faults := tl (faults c)\<rparr>"
  have begin_ok: "db_stmt e (\<lambda>s. if saved c = None then Inr ((), s) else Inl e) c = (Inr (), c1)"
    using False by (simp add: db_stmt_def Let_def c1_def)
  obtain r1 c2 where body: "body c1 = (r1, c2)" by fastforce
  show ?thesis
    unfolding db_transaction_def begin_ok
    using False body
    by (cases r1) (auto simp: db_bind_def db_then_def db_return_def db_stmt_def Let_def simp flip: c1_def)
qed

lemma steady_basic [simp]:
  "steady (db_return x)" "steady (db_fail e)" "steady (db_lift r)" "steady (db_stmt e f)"
  "steady (db_query e g)"
  by (auto simp: steady_def db_return_def db_fail_def db_lift_def db_stmt_run db_query_def Let_def
      split: sum.splits if_splits)

lemma steady_bind [intro!]: "steady m \<Longrightarrow> (\<And>x. steady (f x)) \<Longrightarrow> steady (db_bind m f)"
  unfolding steady_def db_bind_run by metis

lemma steady_then [intro!]: "steady m \<Longrightarrow> steady n \<Longrightarrow> steady (db_then m n)"
  by (auto simp: db_then_def)

lemma steady_for [intro!]: "(\<And>x. steady (f x)) \<Longrightarrow> steady (db_for f xs)"
  by (induction xs) auto

lemma steady_transaction [intro!]: "steady m \<Longrightarrow> steady (db_transaction e m)"
  unfolding steady_def db_transaction_run Let_def
  by (fastforce split: if_splits)

lemma ensuresD: "ensures m s Q \<Longrightarrow> live c = s \<Longrightarrow> saved c = None \<Longrightarrow> m c = (r, c') \<Longrightarrow> Q r (live c')"
  by (auto simp: ensures_def)

lemma ensures_mono: "ensures m s Q \<Longrightarrow> (\<And>r s'. Q r s' \<Longrightarrow> Q' r s') \<Longrightarrow> ensures m s Q'"
  by (auto simp: ensures_def)

lemma ensures_basic [simp]:
  "ensures (db_return x) s Q \<longleftrightarrow> Q (Inr x) s"
  "ensures (db_fail e) s Q \<longleftrightarrow> Q (Inl e) s"
  "ensures (db_lift r) s Q \<longleftrightarrow> Q r s"
  by (auto simp: ensures_def db_return_def db_fail_def db_lift_def intro: exI [of _ "quiet s"])
    (auto simp: quiet_def dest: spec [of _ "quiet s"])

lemma ensures_stmt [simp]:
  "ensures (db_stmt e f) s Q \<longleftrightarrow>
     Q (Inl e) s \<and> (case f s of Inl e' \<Rightarrow> Q (Inl e') s | Inr (x, s') \<Rightarrow> Q (Inr x) s')" (is "?l \<longleftrightarrow> ?r")
proof
  assume l: ?l
  have "Q (Inl e) s"
    using l [unfolded ensures_def, rule_format, of "\<lparr>live = s, saved = None, faults = [True]\<rparr>"]
    by (simp add: db_stmt_def Let_def)
  moreover have "case f s of Inl e' \<Rightarrow> Q (Inl e') s | Inr (x, s') \<Rightarrow> Q (Inr x) s'"
    using l [unfolded ensures_def, rule_format, of "quiet s"]
    by (cases "f s") (auto simp: db_stmt_def Let_def quiet_def)
  ultimately show ?r ..
qed (auto simp: ensures_def db_stmt_run Let_def split: sum.splits if_splits)

lemma ensures_query [simp]:
  "ensures (db_query e f) s Q \<longleftrightarrow> Q (Inl e) s \<and> Q (f s) s"
  by (cases "f s") (auto simp: db_query_def)

lemma ensures_bindI [intro!]:
  "ensures m s (\<lambda>r s'. case r of Inl e \<Rightarrow> Q (Inl e) s' | Inr x \<Rightarrow> ensures (f x) s' Q) \<Longrightarrow>
   ensures (db_bind m f) s Q"
  by (fastforce simp: ensures_def db_bind_run)

lemma ensures_thenI [intro!]:
  "ensures m s (\<lambda>r s'. case r of Inl e \<Rightarrow> Q (Inl e) s' | Inr x \<Rightarrow> ensures n s' Q) \<Longrightarrow>
   ensures (db_then m n) s Q"
  unfolding db_then_def by (rule ensures_bindI)

lemma ensures_transactionI [intro!]:
  assumes "Q (Inl e) s"
    and "ensures m s (\<lambda>r s'. case r of Inl e' \<Rightarrow> Q (Inl e') s | Inr x \<Rightarrow> Q (Inr x) s')"
  shows "ensures (db_transaction e m) s Q"
  unfolding ensures_def
proof (intro allI impI)
  fix c r c'
  assume c: "live c = s" "saved c = None" and run: "db_transaction e m c = (r, c')"
  obtain r1 c2 where body: "m (c\<lparr>faults := tl (faults c)\<rparr>) = (r1, c2)" by fastforce
  then have "saved c2 = None \<and> (case r1 of Inl e' \<Rightarrow> Q (Inl e') s | Inr x \<Rightarrow> Q (Inr x) (live c2))"
    using assms(2) [unfolded ensures_def, rule_format, of "c\<lparr>faults := tl (faults c)\<rparr>" r1 c2] c by simp
  with run body c assms(1) show "saved c' = None \<and> Q r (live c')"
    by (auto simp: db_transaction_run Let_def split: if_splits)
qed

lemma ensures_txI [intro!]:
  assumes "Q (Inl e) s"
    and "ensures m s (\<lambda>r s'. case r of Inl e' \<Rightarrow> Q (Inl e') s | Inr (Commit x) \<Rightarrow> Q x s' | Inr (Abandon x) \<Rightarrow> Q x s)"
  shows "ensures (db_tx e m) s Q"
  unfolding ensures_def
proof (intro allI impI)
  fix c r c'
  assume c: "live c = s" "saved c = None" and run: "db_tx e m c = (r, c')"
  obtain r1 c2 where body: "m (c\<lparr>faults := tl (faults c)\<rparr>) = (r1, c2)" by fastforce
  then have "saved c2 = None \<and> (case r1 of Inl e' \<Rightarrow> Q (Inl e') s | Inr (Commit x) \<Rightarrow> Q x (live c2) | Inr (Abandon x) \<Rightarrow> Q x s)"
    using assms(2) [unfolded ensures_def, rule_format, of "c\<lparr>faults := tl (faults c)\<rparr>" r1 c2] c by simp
  with run body c assms(1) show "saved c' = None \<and> Q r (live c')"
    by (auto simp: db_tx_def db_stmt_def Let_def split: if_splits sum.splits tx_exit.splits)
qed

lemma ensures_for:
  assumes "I s"
    and "\<And>x s. x \<in> set xs \<Longrightarrow> I s \<Longrightarrow>
          ensures (f x) s (\<lambda>r s'. case r of Inl e \<Rightarrow> E e s' | Inr _ \<Rightarrow> I s')"
  shows "ensures (db_for f xs) s (\<lambda>r s'. case r of Inl e \<Rightarrow> E e s' | Inr _ \<Rightarrow> I s')"
  using assms
proof (induction xs arbitrary: s)
  case (Cons x xs)
  have IH: "I s' \<Longrightarrow> ensures (db_bind (db_for f xs) (\<lambda>ys. db_return (y # ys))) s'
              (\<lambda>r s'. case r of Inl e \<Rightarrow> E e s' | Inr _ \<Rightarrow> I s')" for y s'
    using Cons.prems(2) by (intro ensures_bindI ensures_mono [OF Cons.IH]) (auto split: sum.splits)
  have "ensures (f x) s (\<lambda>r s'. case r of Inl e \<Rightarrow> E e s' | Inr _ \<Rightarrow> I s')"
    using Cons.prems by simp
  then have "ensures (f x) s (\<lambda>r s'. case r of Inl e \<Rightarrow> (case Inl e of Inl e \<Rightarrow> E e s' | Inr _ \<Rightarrow> I s')
      | Inr y \<Rightarrow> ensures (db_bind (db_for f xs) (\<lambda>ys. db_return (y # ys))) s'
                   (\<lambda>r s'. case r of Inl e \<Rightarrow> E e s' | Inr _ \<Rightarrow> I s'))"
    by (rule ensures_mono, case_tac r) (simp_all add: IH)
  then show ?case
    unfolding db_for.simps by (rule ensures_bindI)
qed simp

lemma keepsI:
  assumes "steady m" and "\<And>s. I s \<Longrightarrow> ensures m s (\<lambda>_. I)"
  shows "keeps I m"
  unfolding keeps_def
proof (intro allI impI)
  fix c
  assume I: "I (durable c)"
  obtain r c' where run: "m c = (r, c')" by fastforce
  then have "saved c' = saved c" using assms(1) by (auto simp: steady_def)
  then show "I (durable (snd (m c)))"
    using I run assms(2) by (cases "saved c") (auto simp: durable_def ensures_def)
qed

text \<open>All or nothing: a transaction that returns an error has changed no row.\<close>

lemma transaction_atomic:
  assumes "steady m" "db_transaction e m c = (Inl e', c')"
  shows "live c' = live c \<and> saved c' = saved c \<and> durable c' = durable c"
proof -
  have "steady (db_transaction e m)" using assms(1) by blast
  then have "saved c' = saved c" using assms(2) by (auto simp: steady_def)
  moreover have "live c' = live c"
    using assms(2) by (auto simp: db_transaction_run Let_def split: if_splits)
  ultimately show ?thesis by (simp add: durable_def cong: option.case_cong)
qed

lemma durable_faults [simp]: "durable (c\<lparr>faults := fs\<rparr>) = durable c"
  by (simp add: durable_def cong: option.case_cong)

lemma transaction_blocked: "saved c \<noteq> None \<Longrightarrow> fst (db_transaction e m c) = Inl e"
  by (auto simp: db_transaction_def db_stmt_def Let_def)

text \<open>A transaction that returns a value started with none open.\<close>

lemma transaction_ok: "db_transaction e m c = (Inr x, c') \<Longrightarrow> saved c = None"
  by (auto simp: db_transaction_run Let_def split: if_splits)

lemma quiet_simps [simp]:
  "db_return x (quiet s) = (Inr x, quiet s)"
  "db_fail e (quiet s) = (Inl e, quiet s)"
  "db_lift r (quiet s) = (r, quiet s)"
  "db_stmt e g (quiet s) = (case g s of Inl e' \<Rightarrow> (Inl e', quiet s) | Inr (x, s') \<Rightarrow> (Inr x, quiet s'))"
  "live (quiet s) = s" "saved (quiet s) = None" "durable (quiet s) = s"
  by (auto simp: db_return_def db_fail_def db_lift_def db_stmt_def quiet_def Let_def durable_def
      split: sum.splits)

lemma quiet_query [simp]: "db_query e h (quiet s) = (h s, quiet s)"
  by (cases "h s") (auto simp: db_query_def)

lemma quiet_update [simp]:
  "(quiet s)\<lparr>live := s'\<rparr> = quiet s'" "(quiet s)\<lparr>faults := []\<rparr> = quiet s" "faults (quiet s) = []"
  by (simp_all add: quiet_def)

lemma quiet_inject [simp]: "quiet s = quiet s' \<longleftrightarrow> s = s'"
  by (auto simp: quiet_def)

lemma quiet_transaction [simp]:
  "db_transaction e m (quiet s) =
     (case m (quiet s) of
        (Inl e', c) \<Rightarrow> (Inl e', c\<lparr>live := s\<rparr>)
      | (Inr x, c) \<Rightarrow>
          if faults c \<noteq> [] \<and> hd (faults c) then (Inl e, c\<lparr>faults := tl (faults c), live := s\<rparr>)
          else (Inr x, c\<lparr>faults := tl (faults c)\<rparr>))"
  by (auto simp: db_transaction_def db_bind_def db_then_def db_stmt_def db_return_def Let_def quiet_def
      split: sum.splits prod.splits)

lemma quiet_tx [simp]:
  "db_tx e m (quiet s) =
     (case m (quiet s) of
        (Inl e', c) \<Rightarrow> (Inl e', c\<lparr>live := s\<rparr>)
      | (Inr (Abandon r), c) \<Rightarrow> (r, c\<lparr>live := s\<rparr>)
      | (Inr (Commit r), c) \<Rightarrow>
          (if faults c \<noteq> [] \<and> hd (faults c) then (Inl e, c\<lparr>faults := tl (faults c), live := s\<rparr>)
           else (r, c\<lparr>faults := tl (faults c)\<rparr>)))"
  by (auto simp: db_tx_def db_stmt_def Let_def quiet_def
      split: prod.splits sum.splits tx_exit.splits)

lemma quiet_bind [simp]:
  "db_bind m f (quiet s) = (case m (quiet s) of (Inl e, c) \<Rightarrow> (Inl e, c) | (Inr x, c) \<Rightarrow> f x c)"
  by (simp add: db_bind_def)

lemma quiet_then [simp]:
  "db_then m n (quiet s) = (case m (quiet s) of (Inl e, c) \<Rightarrow> (Inl e, c) | (Inr x, c) \<Rightarrow> n c)"
  by (simp add: db_then_def)

section \<open>Relations every statement stays within\<close>

text \<open>
  \<open>within R m\<close>: whichever statements fail, the rows after \<open>m\<close> are related by \<open>R\<close> to the rows before.
  When \<open>R\<close> is reflexive and transitive, \<open>m\<close> is within \<open>R\<close> as soon as each of its statements is.
\<close>

definition within :: "('s \<Rightarrow> 's \<Rightarrow> bool) \<Rightarrow> ('e, 's, 'a) db \<Rightarrow> bool" where
  "within R m \<longleftrightarrow> (\<forall>s. ensures m s (\<lambda>_ s'. R s s'))"

lemma within_run:
  "within R m \<Longrightarrow> saved c = None \<Longrightarrow> R (live c) (live (snd (m c))) \<and> saved (snd (m c)) = None"
  unfolding within_def ensures_def by (metis prod.collapse)

locale state_preorder =
  fixes R :: "'s \<Rightarrow> 's \<Rightarrow> bool"
  assumes refl: "R s s"
    and trans: "R s t \<Longrightarrow> R t u \<Longrightarrow> R s u"
begin

lemma within_basic [simp]:
  "within R (db_return x)" "within R (db_fail e)" "within R (db_lift r)" "within R (db_query e g)"
  by (auto simp: within_def refl)

lemma within_stmt: "(\<And>s x s'. f s = Inr (x, s') \<Longrightarrow> R s s') \<Longrightarrow> within R (db_stmt e f)"
  by (auto simp: within_def refl split: sum.splits)

lemma within_bind: "within R m \<Longrightarrow> (\<And>x. within R (f x)) \<Longrightarrow> within R (db_bind m f)"
  unfolding within_def
  by (intro allI ensures_bindI) (rule ensures_mono, erule spec, auto simp: refl intro: ensures_mono trans split: sum.splits)

lemma within_then: "within R m \<Longrightarrow> within R n \<Longrightarrow> within R (db_then m n)"
  unfolding db_then_def by (rule within_bind)

lemma within_for: "(\<And>x. within R (f x)) \<Longrightarrow> within R (db_for f xs)"
  by (induction xs) (auto intro!: within_bind)

lemma within_transaction: "within R m \<Longrightarrow> within R (db_transaction e m)"
  unfolding within_def
  by (intro allI ensures_transactionI refl) (rule ensures_mono, erule spec, auto simp: refl split: sum.splits)

lemma within_tx: "within R m \<Longrightarrow> within R (db_tx e m)"
  unfolding within_def
  by (intro allI ensures_txI refl) (rule ensures_mono, erule spec, auto simp: refl split: sum.splits tx_exit.splits)

lemma within_if: "(c \<Longrightarrow> within R m) \<Longrightarrow> (\<not> c \<Longrightarrow> within R n) \<Longrightarrow> within R (if c then m else n)"
  by simp

lemma within_option: "(v = None \<Longrightarrow> within R m) \<Longrightarrow> (\<And>x. v = Some x \<Longrightarrow> within R (f x)) \<Longrightarrow>
    within R (case v of None \<Rightarrow> m | Some x \<Rightarrow> f x)"
  by (cases v) auto

lemma within_list: "(v = [] \<Longrightarrow> within R m) \<Longrightarrow> (\<And>x xs. v = x # xs \<Longrightarrow> within R (f x xs)) \<Longrightarrow>
    within R (case v of [] \<Rightarrow> m | x # xs \<Rightarrow> f x xs)"
  by (cases v) auto

lemma within_prod: "(\<And>x y. p = (x, y) \<Longrightarrow> within R (f x y)) \<Longrightarrow> within R (case p of (x, y) \<Rightarrow> f x y)"
  by (cases p) auto

lemmas within_intros = within_bind within_then within_for within_transaction within_tx within_if
  within_option within_list within_prod

end

section \<open>What a sequence of operations keeps\<close>

text \<open>\<open>ok\<close> is what the types of the source promise of an operation's arguments.\<close>

locale transition_system =
  fixes step :: "'s \<Rightarrow> 'op \<Rightarrow> 's"
    and ok :: "'op \<Rightarrow> bool"
    and inv :: "'s \<Rightarrow> bool"
  assumes step_inv: "inv s \<Longrightarrow> ok op \<Longrightarrow> inv (step s op)"
begin

lemma run_inv: "inv s \<Longrightarrow> list_all ok ops \<Longrightarrow> inv (foldl step s ops)"
  by (induction ops arbitrary: s) (auto intro: step_inv)

end

locale monotone_system =
  fixes step :: "'s \<Rightarrow> 'op \<Rightarrow> 's"
    and ok :: "'op \<Rightarrow> bool"
    and inv :: "'s \<Rightarrow> bool"
    and level :: "'s \<Rightarrow> 'l::preorder"
  assumes mono_inv: "inv s \<Longrightarrow> ok op \<Longrightarrow> inv (step s op)"
    and step_mono: "inv s \<Longrightarrow> ok op \<Longrightarrow> level s \<le> level (step s op)"

sublocale monotone_system \<subseteq> transition_system step ok inv
  by unfold_locales (rule mono_inv)

context monotone_system
begin

lemma run_mono: "inv s \<Longrightarrow> list_all ok ops \<Longrightarrow> level s \<le> level (foldl step s ops)"
proof (induction ops arbitrary: s)
  case Nil
  then show ?case by simp
next
  case (Cons op ops)
  then have "level s \<le> level (step s op)" by (auto intro: step_mono)
  also have "\<dots> \<le> level (foldl step (step s op) ops)" using Cons by (auto intro: mono_inv)
  finally show ?case by simp
qed

lemma run_mono_prefix:
  "inv s \<Longrightarrow> list_all ok (us @ vs) \<Longrightarrow> level (foldl step s us) \<le> level (foldl step s (us @ vs))"
  using run_mono run_inv by auto

end

end
