(* ===== verification/Identity.thy ===== *)
theory Identity
  imports Primitives
begin

text \<open>
  The anonymous identity, \<open>crates/messenger-identity/src/lib.rs\<close>: account and device keys, the
  device certificate, signed invites and their QR payload, the encrypted recovery package and
  the canonical form of usernames. SHA-256, HKDF, the mnemonics of \<open>bip39\<close> and the NFKC form of
  \<open>unicode_normalization\<close> are arguments; random bytes and the clock are arguments as well.
\<close>

section \<open>Types\<close>

datatype IdentityError = InvalidInput | CryptographicFailure

text \<open>\<open>SigningKey\<close> is its 32 secret bytes.\<close>

type_synonym SigningKey = bytes

record DeviceCertificate =
  dc_device_id :: bytes
  dc_device_public_key :: bytes
  dc_issued_at :: u64
  dc_signature :: bytes

record SignedInvite =
  si_version :: byte
  si_account_id :: bytes
  si_fingerprint :: bytes
  si_expires_at :: "u64 option"
  si_signature :: bytes

type_synonym hash = "bytes \<Rightarrow> bytes"

definition unwrap_or :: "'a \<Rightarrow> 'a option \<Rightarrow> 'a" where
  "unwrap_or d x = (case x of None \<Rightarrow> d | Some v \<Rightarrow> v)"

section \<open>Accounts and devices\<close>

definition ACCOUNT_ID_DOMAIN :: bytes where
  "ACCOUNT_ID_DOMAIN = ascii ''resilient/account-id/v1''"

definition account_id_from_root_public :: "hash \<Rightarrow> bytes \<Rightarrow> bytes" where
  "account_id_from_root_public sha256 root_public = sha256 (ACCOUNT_ID_DOMAIN @ root_public)"

definition account_id :: "hash \<Rightarrow> ed25519 \<Rightarrow> SigningKey \<Rightarrow> bytes" where
  "account_id sha256 E root = account_id_from_root_public sha256 (ed_public E root)"

definition sign_device_certificate ::
    "ed25519 \<Rightarrow> bytes \<Rightarrow> u64 \<Rightarrow> SigningKey \<Rightarrow> SigningKey \<Rightarrow> DeviceCertificate" where
  "sign_device_certificate E random_id now root device =
     (let v = (random_id @ ed_public E device) @ be64 now
      in \<lparr>dc_device_id = random_id, dc_device_public_key = ed_public E device, dc_issued_at = now,
          dc_signature = ed_sign E root v\<rparr>)"

definition create_account ::
    "ed25519 \<Rightarrow> bytes \<Rightarrow> bytes \<Rightarrow> bytes \<Rightarrow> u64 \<Rightarrow> SigningKey \<times> SigningKey \<times> DeviceCertificate" where
  "create_account E random_root random_device random_id now =
     (random_root, random_device, sign_device_certificate E random_id now random_root random_device)"

definition device_certificate_signing_payload :: "DeviceCertificate \<Rightarrow> bytes" where
  "device_certificate_signing_payload cert =
     (dc_device_id cert @ dc_device_public_key cert) @ be64 (dc_issued_at cert)"

definition verify_device_certificate :: "ed25519 \<Rightarrow> bytes \<Rightarrow> DeviceCertificate \<Rightarrow> bool" where
  "verify_device_certificate E root_public cert =
     (if \<not> ed_valid_key E root_public then False
      else let v = (dc_device_id cert @ dc_device_public_key cert) @ be64 (dc_issued_at cert)
           in ed_verify E root_public v (dc_signature cert))"

definition device_certificate_fingerprint :: "hash \<Rightarrow> DeviceCertificate \<Rightarrow> bytes" where
  "device_certificate_fingerprint sha256 cert =
     take 16 (sha256 ((ascii ''resilient/device-certificate-fingerprint/v1'' @
       device_certificate_signing_payload cert) @ dc_signature cert))"

definition auth_challenge_payload :: "bytes \<Rightarrow> bytes \<Rightarrow> bytes" where
  "auth_challenge_payload challenge_id challenge =
     (ascii ''resilient/auth-challenge/v1'' @ challenge_id) @ challenge"

definition refresh_proof_payload :: "bytes \<Rightarrow> bytes" where
  "refresh_proof_payload refresh_token = ascii ''resilient/refresh-proof/v1'' @ refresh_token"

section \<open>Recovery\<close>

text \<open>
  \<open>bip39::Mnemonic\<close>: its entropy and the parser of its English words. \<open>hkdf\<close> is extract and
  expand with salt, input key, info and output length, \<open>None\<close> for a length it refuses.
\<close>

record 'p mnemonic =
  to_entropy :: "'p \<Rightarrow> bytes"
  parse_in_normalized :: "bytes \<Rightarrow> 'p option"

type_synonym hkdf = "bytes \<Rightarrow> bytes \<Rightarrow> bytes \<Rightarrow> nat \<Rightarrow> bytes option"

record 'p RecoveryPackage =
  rp_phrase :: 'p
  rp_recovery_identifier :: bytes
  rp_encrypted_root :: bytes

definition recovery_identifier :: "hash \<Rightarrow> 'p mnemonic \<Rightarrow> 'p \<Rightarrow> bytes" where
  "recovery_identifier sha256 M phrase = sha256 (ascii ''resilient/recovery-id/v1'' @ to_entropy M phrase)"

definition recovery_key :: "hkdf \<Rightarrow> 'p mnemonic \<Rightarrow> 'p \<Rightarrow> (IdentityError, bytes) result" where
  "recovery_key hk M phrase =
     ok_or CryptographicFailure (hk (ascii ''resilient/recovery/salt/v1'') (to_entropy M phrase) (ascii ''recovery-blob'') 32)"

definition encrypt_recovery_blob ::
    "aead \<Rightarrow> hkdf \<Rightarrow> 'p mnemonic \<Rightarrow> bytes \<Rightarrow> 'p \<Rightarrow> bytes \<Rightarrow> (IdentityError, bytes) result" where
  "encrypt_recovery_blob A hk M nonce phrase plaintext =
     and_then (recovery_key hk M phrase) (\<lambda>key.
     if length key \<noteq> 32 then Inl CryptographicFailure
     else and_then (ok_or CryptographicFailure (seal A key nonce [] plaintext)) (\<lambda>c. Inr (nonce @ c)))"

definition decrypt_recovery_blob ::
    "aead \<Rightarrow> hkdf \<Rightarrow> 'p mnemonic \<Rightarrow> 'p \<Rightarrow> bytes \<Rightarrow> (IdentityError, bytes) result" where
  "decrypt_recovery_blob A hk M phrase blob =
     (if length blob < 24 then Inl InvalidInput
      else and_then (recovery_key hk M phrase) (\<lambda>key.
        if length key \<noteq> 32 then Inl CryptographicFailure
        else ok_or CryptographicFailure (unseal A key (take 24 blob) [] (drop 24 blob))))"

definition create_recovery_package ::
    "hash \<Rightarrow> aead \<Rightarrow> hkdf \<Rightarrow> 'p mnemonic \<Rightarrow> 'p \<Rightarrow> bytes \<Rightarrow> SigningKey \<Rightarrow>
     (IdentityError, 'p RecoveryPackage) result" where
  "create_recovery_package sha256 A hk M phrase nonce root =
     and_then (encrypt_recovery_blob A hk M nonce phrase root) (\<lambda>encrypted_root.
     Inr \<lparr>rp_phrase = phrase, rp_recovery_identifier = recovery_identifier sha256 M phrase,
          rp_encrypted_root = encrypted_root\<rparr>)"

definition restore_account_root ::
    "aead \<Rightarrow> hkdf \<Rightarrow> 'p mnemonic \<Rightarrow> bytes \<Rightarrow> bytes \<Rightarrow> (IdentityError, SigningKey) result" where
  "restore_account_root A hk M phrase encrypted_root =
     and_then (ok_or InvalidInput (parse_in_normalized M phrase)) (\<lambda>phrase.
     and_then (decrypt_recovery_blob A hk M phrase encrypted_root) (\<lambda>b.
     if length b = 32 then Inr b else Inl InvalidInput))"

section \<open>Usernames\<close>

text \<open>
  A string is the list of its code points. \<open>nfkc\<close> is the normal form, \<open>to_lowercase\<close> the
  mapping of one character of the Unicode tables.
\<close>

type_synonym chars = "nat list"

record unicode =
  nfkc :: "chars \<Rightarrow> chars"
  to_lowercase :: "nat \<Rightarrow> chars"

definition is_ascii_alphanumeric :: "nat \<Rightarrow> bool" where
  "is_ascii_alphanumeric c \<longleftrightarrow> 48 \<le> c \<and> c \<le> 57 \<or> 65 \<le> c \<and> c \<le> 90 \<or> 97 \<le> c \<and> c \<le> 122"

text \<open>The category Cc.\<close>

definition is_control :: "nat \<Rightarrow> bool" where
  "is_control c \<longleftrightarrow> c \<le> 31 \<or> 127 \<le> c \<and> c \<le> 159"

definition canonical_username :: "unicode \<Rightarrow> chars \<Rightarrow> (IdentityError, chars) result" where
  "canonical_username U input =
     (let v = concat (map (to_lowercase U) (nfkc U input)) in
      if \<not> (3 \<le> length v \<and> length v \<le> 32) \<or>
         list_ex (\<lambda>c. is_control c \<or> \<not> (is_ascii_alphanumeric c \<or> c = 95 \<or> c = 46)) v
      then Inl InvalidInput else Inr v)"

section \<open>Invites\<close>

definition sign_invite :: "hash \<Rightarrow> ed25519 \<Rightarrow> SigningKey \<Rightarrow> u64 option \<Rightarrow> SignedInvite" where
  "sign_invite sha256 E root expires_at =
     (let i = account_id sha256 E root;
          fp = take 16 (ed_public E root);
          v = (([1] @ i) @ fp) @ be64 (unwrap_or 0 expires_at)
      in \<lparr>si_version = 1, si_account_id = i, si_fingerprint = fp, si_expires_at = expires_at,
          si_signature = ed_sign E root v\<rparr>)"

definition verify_invite :: "ed25519 \<Rightarrow> bytes \<Rightarrow> SignedInvite \<Rightarrow> u64 \<Rightarrow> bool" where
  "verify_invite E root_public invite at =
     (if si_version invite \<noteq> 1 \<or> (case si_expires_at invite of None \<Rightarrow> False | Some x \<Rightarrow> x < at) then False
      else if \<not> ed_valid_key E root_public then False
      else let v = (([si_version invite] @ si_account_id invite) @ si_fingerprint invite) @
                     be64 (unwrap_or 0 (si_expires_at invite))
           in ed_verify E root_public v (si_signature invite))"

definition encode_qr_payload :: "hash \<Rightarrow> ed25519 \<Rightarrow> SigningKey \<Rightarrow> SignedInvite \<Rightarrow> (IdentityError, bytes) result" where
  "encode_qr_payload sha256 E root invite =
     (let pub = ed_public E root in
      if \<not> verify_invite E pub invite 0 \<or> account_id sha256 E root \<noteq> si_account_id invite
      then Inl InvalidInput
      else Inr (((((((ascii ''RMQ1'' @ pub) @ [si_version invite]) @ si_account_id invite) @
        si_fingerprint invite) @ [if si_expires_at invite \<noteq> None then 1 else 0]) @
        be64 (unwrap_or 0 (si_expires_at invite))) @ si_signature invite))"

text \<open>The slices are taken of a value of 158 bytes, so that no range and no \<open>try_into\<close> fails.\<close>

definition sub_slice :: "nat \<Rightarrow> nat \<Rightarrow> bytes \<Rightarrow> bytes" where
  "sub_slice a b v = take (b - a) (drop a v)"

definition decode_and_verify_qr_payload ::
    "hash \<Rightarrow> ed25519 \<Rightarrow> bytes \<Rightarrow> u64 \<Rightarrow> (IdentityError, bytes \<times> SignedInvite) result" where
  "decode_and_verify_qr_payload sha256 E v at =
     (if length v \<noteq> 158 \<or> take 4 v \<noteq> ascii ''RMQ1'' then Inl InvalidInput
      else let root_public = sub_slice 4 36 v; has_expiry = v ! 85 in
        if has_expiry > 1 then Inl InvalidInput
        else let expiry = from_be64 (sub_slice 86 94 v);
                 invite = \<lparr>si_version = v ! 36, si_account_id = sub_slice 37 69 v,
                   si_fingerprint = sub_slice 69 85 v,
                   si_expires_at = (if has_expiry = 1 then Some expiry else None),
                   si_signature = sub_slice 94 158 v\<rparr>
             in if verify_invite E root_public invite at \<and>
                   account_id_from_root_public sha256 root_public = si_account_id invite
                then Inr (root_public, invite) else Inl InvalidInput)"

section \<open>Lemmas\<close>

lemma verify_device_certificate_eq:
  "verify_device_certificate E k c = ed_check E k (device_certificate_signing_payload c) (dc_signature c)"
  by (simp add: verify_device_certificate_def ed_check_def device_certificate_signing_payload_def)

text \<open>The bytes an invite signs.\<close>

definition invite_payload :: "SignedInvite \<Rightarrow> bytes" where
  "invite_payload i = [si_version i] @ si_account_id i @ si_fingerprint i @ be64 (unwrap_or 0 (si_expires_at i))"

definition invite_live :: "SignedInvite \<Rightarrow> u64 \<Rightarrow> bool" where
  "invite_live i at \<longleftrightarrow> (case si_expires_at i of None \<Rightarrow> True | Some x \<Rightarrow> at \<le> x)"

lemma verify_invite_eq:
  "verify_invite E k i at \<longleftrightarrow>
     si_version i = 1 \<and> invite_live i at \<and> ed_check E k (invite_payload i) (si_signature i)"
  by (auto simp: verify_invite_def ed_check_def invite_payload_def invite_live_def not_less
      split: option.splits)

definition invite_typed :: "SignedInvite \<Rightarrow> bool" where
  "invite_typed i \<longleftrightarrow> length (si_account_id i) = 32 \<and> length (si_fingerprint i) = 16 \<and> length (si_signature i) = 64"

definition qr_bytes :: "bytes \<Rightarrow> SignedInvite \<Rightarrow> bytes" where
  "qr_bytes pub i = ascii ''RMQ1'' @ pub @ [si_version i] @ si_account_id i @ si_fingerprint i @
     [if si_expires_at i \<noteq> None then 1 else 0] @ be64 (unwrap_or 0 (si_expires_at i)) @ si_signature i"

lemma sub_slice_append:
  "length x = a \<Longrightarrow> length y = b - a \<Longrightarrow> sub_slice a b (x @ y @ z) = y"
  by (simp add: sub_slice_def)

lemma qr_bytes_fields:
  assumes "length pub = 32" "invite_typed i"
  shows "length (qr_bytes pub i) = 158" "take 4 (qr_bytes pub i) = ascii ''RMQ1''"
    "sub_slice 4 36 (qr_bytes pub i) = pub" "qr_bytes pub i ! 36 = si_version i"
    "sub_slice 37 69 (qr_bytes pub i) = si_account_id i" "sub_slice 69 85 (qr_bytes pub i) = si_fingerprint i"
    "qr_bytes pub i ! 85 = (if si_expires_at i \<noteq> None then 1 else 0)"
    "sub_slice 86 94 (qr_bytes pub i) = be64 (unwrap_or 0 (si_expires_at i))"
    "sub_slice 94 158 (qr_bytes pub i) = si_signature i"
  using assms by (simp_all add: qr_bytes_def invite_typed_def sub_slice_def nth_append ascii_def)

lemma decode_qr_bytes:
  assumes "length pub = 32" "invite_typed i"
  shows "decode_and_verify_qr_payload sha256 E (qr_bytes pub i) at =
    (if verify_invite E pub i at \<and> account_id_from_root_public sha256 pub = si_account_id i
     then Inr (pub, i) else Inl InvalidInput)"
proof -
  obtain v a f x g where i: "i = \<lparr>si_version = v, si_account_id = a, si_fingerprint = f, si_expires_at = x,
      si_signature = g\<rparr>"
    by (cases i) auto
  show ?thesis
    using qr_bytes_fields [OF assms]
    by (cases x) (simp_all add: decode_and_verify_qr_payload_def Let_def i unwrap_or_def)
qed

lemma encode_qr_eq:
  "encode_qr_payload sha256 E root i =
    (if verify_invite E (ed_public E root) i 0 \<and> account_id sha256 E root = si_account_id i
     then Inr (qr_bytes (ed_public E root) i) else Inl InvalidInput)"
  by (simp add: encode_qr_payload_def qr_bytes_def Let_def)

lemma sign_invite_ok:
  assumes "ed25519_correct E" "length root = 32" "\<And>m. length (sha256 m) = 32"
  shows "invite_typed (sign_invite sha256 E root x)"
    "verify_invite E (ed_public E root) (sign_invite sha256 E root x) at \<longleftrightarrow>
       invite_live (sign_invite sha256 E root x) at"
  using assms ed_check_sign [OF assms(1,2)] ed25519_lengths [OF assms(1,2)]
  by (simp_all add: sign_invite_def Let_def invite_typed_def account_id_def account_id_from_root_public_def
      verify_invite_eq invite_payload_def)

section \<open>Properties\<close>

text \<open>
  C33: a new account's device certificate verifies under the account's public key, and a
  verifying certificate says exactly what was signed: certificates with the same signed bytes
  agree on the device, its key and the time.
\<close>

theorem certificate_sound:
  assumes "ed25519_correct E" "length root = 32" "length device = 32" "length i = 16"
    and "create_account E root device i now = (r, d, cert)"
  shows "verify_device_certificate E (ed_public E root) cert \<and> r = root \<and> d = device \<and>
    (length (dc_device_id c) = 16 \<and> length (dc_device_public_key c) = 32 \<and>
     device_certificate_signing_payload c = device_certificate_signing_payload cert \<longrightarrow>
     dc_device_id c = i \<and> dc_device_public_key c = ed_public E device \<and> dc_issued_at c = now)"
proof -
  have cert: "r = root" "d = device" "cert = sign_device_certificate E i now root device"
    using assms(5) by (auto simp: create_account_def)
  have "verify_device_certificate E (ed_public E root) cert"
    using ed_check_sign [OF assms(1,2)] cert
    by (simp add: verify_device_certificate_eq device_certificate_signing_payload_def sign_device_certificate_def Let_def)
  moreover have "be64 a = be64 b \<longleftrightarrow> a = b" for a b
    by (metis from_be64_be64)
  ultimately show ?thesis
    using cert assms(3,4) ed25519_lengths(1) [OF assms(1,3)]
    by (auto simp: device_certificate_signing_payload_def sign_device_certificate_def Let_def)
qed

text \<open>
  C34: the QR payload of an invite. An account's own invite encodes to 158 bytes, and decoding
  returns the account's public key and the invite at every time up to its expiry and refuses it
  afterwards.
\<close>

theorem qr_round_trip:
  assumes "ed25519_correct E" "length root = 32" "\<forall>m. length (sha256 m) = 32"
  shows "\<exists>b. encode_qr_payload sha256 E root (sign_invite sha256 E root x) = Inr b \<and> length b = 158 \<and>
    decode_and_verify_qr_payload sha256 E b at =
      (if (case x of None \<Rightarrow> True | Some t \<Rightarrow> at \<le> t)
       then Inr (ed_public E root, sign_invite sha256 E root x) else Inl InvalidInput)"
proof -
  let ?i = "sign_invite sha256 E root x"
  note ok = sign_invite_ok [OF assms(1,2), of sha256 x] 
  have i: "si_account_id ?i = account_id_from_root_public sha256 (ed_public E root)" "si_expires_at ?i = x"
    by (simp_all add: sign_invite_def Let_def account_id_def)
  have "encode_qr_payload sha256 E root ?i = Inr (qr_bytes (ed_public E root) ?i)"
    using ok assms(3) i by (auto simp: encode_qr_eq account_id_def invite_live_def split: option.splits)
  then show ?thesis
    using decode_qr_bytes [OF ed25519_lengths(1) [OF assms(1,2)] ok(1)] ok(2) assms(3) i
      qr_bytes_fields(1) [OF ed25519_lengths(1) [OF assms(1,2)] ok(1)]
    by (auto simp: invite_live_def)
qed

text \<open>
  C35: recovery. A recovery package restores the account's secret key from the text of its
  phrase; a blob that is too short is refused.
\<close>

theorem recovery_round_trip:
  assumes "aead_correct A" "length nonce = 24" "length root = 32"
    and "parse_in_normalized M words = Some phrase"
    and "create_recovery_package sha256 A hk M phrase nonce root = Inr pkg"
  shows "restore_account_root A hk M words (rp_encrypted_root pkg) = Inr root \<and>
    length (rp_encrypted_root pkg) = 72 \<and>
    restore_account_root A hk M words (take 23 (rp_encrypted_root pkg)) = Inl InvalidInput"
proof -
  obtain key c where key: "recovery_key hk M phrase = Inr key" "length key = 32"
    and c: "seal A key nonce [] root = Some c" and pkg: "rp_encrypted_root pkg = nonce @ c"
    using assms(5) by (auto simp: create_recovery_package_def encrypt_recovery_blob_def result_simps)
  have "unseal A key nonce [] c = Some root" "length c = 48"
    using assms(1) [unfolded aead_correct_def, rule_format, OF key(2) assms(2) c] assms(3) by simp_all
  then show ?thesis
    using assms(2-4) key by (simp add: restore_account_root_def decrypt_recovery_blob_def pkg)
qed

text \<open>
  Usernames. A canonical username has 3 to 32 characters, each a lower-case ASCII letter, a
  digit, an underscore or a dot, and is its own canonical form, so that every spelling of it is
  looked up under one key. This rests on ASCII text being its own normal form, on the lower case
  of ASCII characters, and on lower case mappings having no upper-case ASCII letter.
\<close>

theorem canonical_username_stable:
  assumes "\<forall>s. list_all (\<lambda>c. c < 128) s \<longrightarrow> nfkc U s = s"
    and "\<forall>c < 128. to_lowercase U c = [if 65 \<le> c \<and> c \<le> 90 then c + 32 else c]"
    and "\<forall>c d. d \<in> set (to_lowercase U c) \<longrightarrow> \<not> (65 \<le> d \<and> d \<le> 90)"
    and "canonical_username U input = Inr name"
  shows "3 \<le> length name \<and> length name \<le> 32 \<and>
    list_all (\<lambda>c. 97 \<le> c \<and> c \<le> 122 \<or> 48 \<le> c \<and> c \<le> 57 \<or> c = 95 \<or> c = 46) name \<and>
    canonical_username U name = Inr name"
proof -
  have name: "concat (map (to_lowercase U) (nfkc U input)) = name"
    using assms(4) by (auto simp: canonical_username_def Let_def split: if_splits)
  have len: "3 \<le> length name" "length name \<le> 32"
    and chars: "\<forall>c \<in> set name. is_ascii_alphanumeric c \<or> c = 95 \<or> c = 46"
    using assms(4) unfolding canonical_username_def Let_def name
    by (auto simp: list_ex_iff split: if_splits)
  have lower: "97 \<le> c \<and> c \<le> 122 \<or> 48 \<le> c \<and> c \<le> 57 \<or> c = 95 \<or> c = 46" if c: "c \<in> set name" for c
  proof -
    obtain d where "c \<in> set (to_lowercase U d)"
      using c name [symmetric] by auto
    with assms(3) chars c show ?thesis
      by (fastforce simp: is_ascii_alphanumeric_def)
  qed
  have "to_lowercase U c = [c]" if "c \<in> set name" for c
    using lower [OF that] assms(2) by auto
  then have "concat (map (to_lowercase U) name) = name"
    by (induction name) auto
  moreover have "nfkc U name = name"
    using lower assms(1) by (fastforce simp: list_all_iff)
  moreover have "\<not> list_ex (\<lambda>c. is_control c \<or> \<not> (is_ascii_alphanumeric c \<or> c = 95 \<or> c = 46)) name"
    using lower chars by (fastforce simp: list_ex_iff is_control_def)
  ultimately show ?thesis
    using len lower by (simp add: canonical_username_def list_all_iff)
qed

section \<open>Examples\<close>

text \<open>Text that is already in normal form, with the ASCII lower case.\<close>

definition ascii_unicode :: unicode where
  "ascii_unicode = \<lparr>nfkc = (\<lambda>s. s), to_lowercase = (\<lambda>c. [if 65 \<le> c \<and> c \<le> 90 then c + 32 else c])\<rparr>"

definition plain_hkdf :: hkdf where
  "plain_hkdf salt ikm info n = Some (replicate n 7)"

definition one_phrase :: "unit mnemonic" where
  "one_phrase = \<lparr>to_entropy = (\<lambda>_. [1, 2]), parse_in_normalized = (\<lambda>w. if w = ascii ''abandon'' then Some () else None)\<rparr>"

theorem certificate_sound_witness:
  "verify_device_certificate plain_ed25519 (replicate 32 1)
     (snd (snd (create_account plain_ed25519 (replicate 32 1) (replicate 32 2) (replicate 16 3) 77)))"
  using certificate_sound [OF plain_ed25519_correct, of "replicate 32 1" "replicate 32 2" "replicate 16 3" 77]
  by (simp add: create_account_def plain_ed25519_def)

theorem qr_round_trip_witness:
  "\<exists>b. encode_qr_payload plain_hash plain_ed25519 (replicate 32 1)
      (sign_invite plain_hash plain_ed25519 (replicate 32 1) (Some 50)) = Inr b \<and>
    decode_and_verify_qr_payload plain_hash plain_ed25519 b 51 = Inl InvalidInput"
  using qr_round_trip [OF plain_ed25519_correct, of "replicate 32 1" plain_hash "Some 50" 51] by auto

theorem recovery_round_trip_witness:
  "\<exists>pkg. create_recovery_package plain_hash tag_aead plain_hkdf one_phrase () (replicate 24 4) (replicate 32 1) = Inr pkg \<and>
    restore_account_root tag_aead plain_hkdf one_phrase (ascii ''abandon'') (rp_encrypted_root pkg) = Inr (replicate 32 1)"
proof -
  let ?r = "create_recovery_package plain_hash tag_aead plain_hkdf one_phrase () (replicate 24 4) (replicate 32 1)"
  have "is_ok ?r"
    by code_simp
  then obtain pkg where pkg: "?r = Inr pkg"
    by (auto simp: result_simps)
  have "parse_in_normalized one_phrase (ascii ''abandon'') = Some ()"
    by (simp add: one_phrase_def)
  from recovery_round_trip [OF tag_aead_correct _ _ this pkg] pkg show ?thesis
    by simp
qed

theorem canonical_username_stable_witness:
  "canonical_username ascii_unicode [65, 108, 49, 95] = Inr [97, 108, 49, 95] \<and>
   canonical_username ascii_unicode [97, 108, 49, 95] = Inr [97, 108, 49, 95]"
proof -
  have "canonical_username ascii_unicode [65, 108, 49, 95] = Inr [97, 108, 49, 95]"
    by code_simp
  moreover from this have "canonical_username ascii_unicode [97, 108, 49, 95] = Inr [97, 108, 49, 95]"
    by (rule canonical_username_stable [THEN conjunct2, THEN conjunct2, THEN conjunct2, rotated 3])
      (auto simp: ascii_unicode_def split: if_splits)
  ultimately show ?thesis ..
qed

end
