(* ===== verification/Delivery.thy ===== *)
theory Delivery
  imports Tables Identity "HOL-Library.List_Lexorder" "HOL-Library.Product_Lexorder"
begin

text \<open>
  The delivery backend, \<open>services/core-api/src/lib.rs\<close>, on the PostgreSQL schema of
  \<open>services/core-api/migrations/0001_foundation.sql\<close>: device registration, challenges and
  sessions, usernames, recovery and key packages, groups and their members, welcomes, events,
  receipts, cursors and the rate limit. One function per method of \<open>Backend\<close>, statement by
  statement, over the tables as rows in insertion order. The clock \<open>now()\<close> (which PostgreSQL
  fixes at the start of a transaction), random bytes, the values of the identity sequence,
  SHA-256 and Ed25519 are arguments. Times are microseconds. Columns that no statement reads
  (\<open>claimed_at\<close>, \<open>updated_at\<close>, most \<open>created_at\<close>) are left out.
\<close>

section \<open>Constants, errors, requests\<close>

definition ACCESS_TTL_SECONDS :: int where "ACCESS_TTL_SECONDS = 15 * 60"
definition REFRESH_TTL_SECONDS :: int where "REFRESH_TTL_SECONDS = 30 * 24 * 60 * 60"
definition CHALLENGE_TTL_SECONDS :: int where "CHALLENGE_TTL_SECONDS = 120"
definition EVENT_TTL_SECONDS :: int where "EVENT_TTL_SECONDS = 7 * 24 * 60 * 60"
definition MAX_SYNC_BATCH :: int where "MAX_SYNC_BATCH = 50"
definition MAX_KEY_PACKAGE_SIZE :: nat where "MAX_KEY_PACKAGE_SIZE = 64 * 1024"
definition MAX_RECOVERY_BLOB_SIZE :: nat where "MAX_RECOVERY_BLOB_SIZE = 256 * 1024"
definition EVENT_KIND_MLS_COMMIT :: int where "EVENT_KIND_MLS_COMMIT = 2"

lemmas delivery_limits = ACCESS_TTL_SECONDS_def REFRESH_TTL_SECONDS_def CHALLENGE_TTL_SECONDS_def
  EVENT_TTL_SECONDS_def MAX_SYNC_BATCH_def MAX_KEY_PACKAGE_SIZE_def MAX_RECOVERY_BLOB_SIZE_def
  EVENT_KIND_MLS_COMMIT_def

text \<open>\<open>make_interval(secs => n)\<close> in microseconds.\<close>

definition secs :: "int \<Rightarrow> int" where
  "secs n = n * 1000000"

datatype ApiError =
    InvalidCredentials | Expired | Replay | TokenReuse | Conflict | Unauthorized
  | CursorRegression | InvalidInput | Database

record Challenge =
  cl_challenge_id :: bytes
  cl_challenge :: bytes

record SessionTokens =
  st_access_token :: bytes
  st_refresh_token :: bytes

record UploadedEvent =
  ue_event_id :: bytes
  ue_group_id :: bytes
  ue_author_device_id :: bytes
  ue_client_message_id :: bytes
  ue_event_kind :: int
  ue_ciphertext :: bytes
  ue_correlation_id :: "bytes option"

record UploadAccepted =
  ua_cursor :: int
  ua_duplicate :: bool

record SyncEvent =
  se_cursor :: int
  se_event_id :: bytes
  se_event_kind :: int
  se_ciphertext :: bytes

record MembershipOperation =
  mr_correlation_id :: bytes
  mr_group_id :: bytes
  mr_author_device_id :: bytes
  mr_target_device_id :: bytes
  mr_role :: int
  mr_remove :: bool
  mr_signature :: bytes

section \<open>The schema\<close>

record account_row =
  ac_id :: bytes
  ac_root_key :: bytes
  ac_recovery_id :: "bytes option"
  ac_recovery_blob :: "bytes option"

record device_row =
  dv_id :: bytes
  dv_account :: bytes
  dv_key :: bytes
  dv_revoked :: "int option"

record certificate_row =
  ct_device :: bytes
  ct_signature :: bytes
  ct_issued :: int

record username_row =
  un_name :: chars
  un_account :: bytes
  un_released :: "int option"

record cooldown_row =
  cd_name :: chars
  cd_account :: bytes
  cd_until :: int

record challenge_row =
  ch_id :: bytes
  ch_device :: bytes
  ch_challenge :: bytes
  ch_expires :: int
  ch_consumed :: "int option"

record access_row =
  as_hash :: bytes
  as_device :: bytes
  as_expires :: int

record refresh_row =
  rs_hash :: bytes
  rs_family :: bytes
  rs_device :: bytes
  rs_replaced :: "bytes option"
  rs_expires :: int
  rs_used :: "int option"
  rs_revoked :: "int option"

record package_row =
  kp_id :: bytes
  kp_device :: bytes
  kp_package :: bytes
  kp_consumed :: "int option"
  kp_created :: int

record group_row =
  gr_id :: bytes
  gr_creator :: bytes

record group_member_row =
  gm_group :: bytes
  gm_device :: bytes
  gm_account :: bytes
  gm_role :: int
  gm_removed :: "int option"

record operation_row =
  mo_correlation :: bytes
  mo_group :: bytes
  mo_author :: bytes
  mo_operation :: bytes
  mo_signature :: bytes
  mo_applied :: "int option"

record event_row =
  ev_cursor :: int
  ev_id :: bytes
  ev_group :: bytes
  ev_author :: bytes
  ev_client_id :: bytes
  ev_correlation :: "bytes option"
  ev_kind :: int
  ev_ciphertext :: bytes
  ev_expires :: int

record welcome_row =
  we_id :: bytes
  we_target :: bytes
  we_group :: bytes
  we_welcome :: bytes
  we_expires :: int
  we_consumed :: "int option"

record group_cursor_row =
  gc_device :: bytes
  gc_group :: bytes
  gc_cursor :: int

record receipt_row =
  rc_event :: bytes
  rc_device :: bytes
  rc_type :: int

record abuse_row =
  ab_scope :: bytes
  ab_window :: int
  ab_count :: int

text \<open>
  \<open>schema_migrations\<close> is \<open>None\<close> until the table exists; \<open>foundation\<close> says that the tables of the
  migration exist. \<open>notifications\<close> are the payloads sent on \<open>EVENT_NOTIFY_CHANNEL\<close>; PostgreSQL
  sends them when the transaction commits and drops them when it rolls back.
\<close>

record backend =
  schema_migrations :: "(int \<times> bytes) list option"
  foundation :: bool
  accounts :: "account_row list"
  devices :: "device_row list"
  device_certificates :: "certificate_row list"
  usernames :: "username_row list"
  username_cooldowns :: "cooldown_row list"
  auth_challenges :: "challenge_row list"
  access_sessions :: "access_row list"
  refresh_sessions :: "refresh_row list"
  key_packages :: "package_row list"
  groups :: "group_row list"
  group_members :: "group_member_row list"
  membership_operations :: "operation_row list"
  group_events :: "event_row list"
  welcome_mailbox :: "welcome_row list"
  device_group_cursors :: "group_cursor_row list"
  message_receipts :: "receipt_row list"
  abuse_counters :: "abuse_row list"
  notifications :: "bytes list"

type_synonym 'a api_db = "(ApiError, backend, 'a) db"

definition group_member_key :: "group_member_row \<Rightarrow> bytes \<times> bytes" where
  "group_member_key m = (gm_group m, gm_device m)"

definition cursor_key :: "group_cursor_row \<Rightarrow> bytes \<times> bytes" where
  "cursor_key c = (gc_device c, gc_group c)"

definition receipt_key :: "receipt_row \<Rightarrow> bytes \<times> bytes \<times> int" where
  "receipt_key r = (rc_event r, rc_device r, rc_type r)"

definition event_key :: "event_row \<Rightarrow> bytes \<times> bytes" where
  "event_key e = (ev_author e, ev_client_id e)"

subsection \<open>Statements\<close>

text \<open>
  Every failure of the database is \<open>ApiError::Database\<close> (\<open>From<sqlx::Error>\<close>): a plain \<open>INSERT\<close>
  whose checks, references or unique keys fail too. \<open>get\<close> and \<open>upd\<close> are the selector and the
  update function of the table.
\<close>

definition pg_query :: "(backend \<Rightarrow> 'a) \<Rightarrow> 'a api_db" where
  "pg_query f = db_query Database (\<lambda>s. Inr (f s))"

definition pg_insert :: "(backend \<Rightarrow> bool) \<Rightarrow> ('r \<Rightarrow> 'k) \<Rightarrow> 'r \<Rightarrow> (backend \<Rightarrow> 'r list) \<Rightarrow>
    (('r list \<Rightarrow> 'r list) \<Rightarrow> backend \<Rightarrow> backend) \<Rightarrow> unit api_db" where
  "pg_insert checks key r get upd = db_stmt Database (\<lambda>s.
     if checks s \<and> \<not> has_key key (key r) (get s) then Inr ((), upd (\<lambda>rows. rows @ [r]) s) else Inl Database)"

text \<open>\<open>ON CONFLICT(key) DO NOTHING\<close>; the number of rows inserted.\<close>

definition pg_insert_ignore :: "(backend \<Rightarrow> bool) \<Rightarrow> ('r \<Rightarrow> 'k) \<Rightarrow> 'r \<Rightarrow> (backend \<Rightarrow> 'r list) \<Rightarrow>
    (('r list \<Rightarrow> 'r list) \<Rightarrow> backend \<Rightarrow> backend) \<Rightarrow> nat api_db" where
  "pg_insert_ignore checks key r get upd = db_stmt Database (\<lambda>s.
     if has_key key (key r) (get s) then Inr (0, s)
     else if checks s then Inr (1, upd (\<lambda>rows. rows @ [r]) s) else Inl Database)"

definition pg_upsert :: "(backend \<Rightarrow> bool) \<Rightarrow> ('r \<Rightarrow> 'k) \<Rightarrow> 'r \<Rightarrow> ('r \<Rightarrow> 'r) \<Rightarrow>
    (('r list \<Rightarrow> 'r list) \<Rightarrow> backend \<Rightarrow> backend) \<Rightarrow> unit api_db" where
  "pg_upsert checks key r f upd = db_stmt Database (\<lambda>s.
     if checks s then Inr ((), upd (upsert key r f) s) else Inl Database)"

definition pg_update :: "('r \<Rightarrow> bool) \<Rightarrow> ('r \<Rightarrow> 'r) \<Rightarrow> (backend \<Rightarrow> 'r list) \<Rightarrow>
    (('r list \<Rightarrow> 'r list) \<Rightarrow> backend \<Rightarrow> backend) \<Rightarrow> nat api_db" where
  "pg_update p f get upd = db_stmt Database (\<lambda>s.
     Inr (fst (update_where p f (get s)), upd (\<lambda>rows. snd (update_where p f rows)) s))"

definition pg_delete :: "('r \<Rightarrow> bool) \<Rightarrow> (backend \<Rightarrow> 'r list) \<Rightarrow>
    (('r list \<Rightarrow> 'r list) \<Rightarrow> backend \<Rightarrow> backend) \<Rightarrow> nat api_db" where
  "pg_delete p get upd = db_stmt Database (\<lambda>s.
     Inr (length (filter p (get s)), upd (delete_where p) s))"

lemmas pg_defs = pg_query_def pg_insert_def pg_insert_ignore_def pg_upsert_def pg_update_def pg_delete_def

text \<open>\<open>value.try_into()\<close> into an array of \<open>n\<close> bytes.\<close>

definition fixed_bytes :: "nat \<Rightarrow> ApiError \<Rightarrow> bytes \<Rightarrow> (ApiError, bytes) result" where
  "fixed_bytes n e b = (if length b = n then Inr b else Inl e)"

definition active_device :: "bytes \<Rightarrow> backend \<Rightarrow> bool" where
  "active_device i s = list_ex (\<lambda>d. dv_id d = i \<and> dv_revoked d = None) (devices s)"

definition active_member :: "bytes \<Rightarrow> bytes \<Rightarrow> backend \<Rightarrow> bool" where
  "active_member grp dev s = list_ex (\<lambda>m. gm_group m = grp \<and> gm_device m = dev \<and> gm_removed m = None) (group_members s)"

section \<open>Migration\<close>

text \<open>
  \<open>checksum\<close> is the SHA-256 of the text of the migration. Running the migration creates every
  table, so that it fails on a database that has them.
\<close>

definition pg_migrate :: "bytes \<Rightarrow> unit api_db" where
  "pg_migrate checksum = db_transaction Database
     (db_then (pg_query (\<lambda>_. ()))
     (db_then (db_stmt Database (\<lambda>s. Inr ((), s\<lparr>schema_migrations :=
        Some (unwrap_or [] (schema_migrations s))\<rparr>)))
     (db_bind (pg_query (\<lambda>s. map_of (unwrap_or [] (schema_migrations s)) 1)) (\<lambda>applied.
      case applied of
        Some c \<Rightarrow> if c = checksum then db_return () else db_fail Conflict
      | None \<Rightarrow>
          db_then (db_stmt Database (\<lambda>s. if foundation s then Inl Database else Inr ((), s\<lparr>foundation := True\<rparr>)))
          (db_stmt Database (\<lambda>s. Inr ((), s\<lparr>schema_migrations :=
             Some (unwrap_or [] (schema_migrations s) @ [(1, checksum)])\<rparr>)))))))"

section \<open>Sessions\<close>

definition token_hash :: "hash \<Rightarrow> bytes \<Rightarrow> bytes \<Rightarrow> bytes" where
  "token_hash sha256 domain token = sha256 ((ascii ''resilient/session/v1'' @ domain) @ token)"

definition authenticate_access :: "hash \<Rightarrow> int \<Rightarrow> bytes \<Rightarrow> bytes api_db" where
  "authenticate_access sha256 now access_token =
     db_bind (pg_query (\<lambda>s. find (\<lambda>a. as_hash a = token_hash sha256 (ascii ''access'') access_token \<and>
        as_expires a > now \<and> active_device (as_device a) s) (access_sessions s))) (\<lambda>device.
     db_bind (db_lift (ok_or InvalidCredentials device)) (\<lambda>a.
     db_lift (fixed_bytes 16 Database (as_device a))))"

definition device_account_id :: "bytes \<Rightarrow> bytes api_db" where
  "device_account_id device_id =
     db_bind (pg_query (\<lambda>s. find (\<lambda>d. dv_id d = device_id \<and> dv_revoked d = None) (devices s))) (\<lambda>row.
     db_bind (db_lift (ok_or Unauthorized row)) (\<lambda>d.
     db_lift (fixed_bytes 32 Database (dv_account d))))"

text \<open>\<open>count\<close> is an \<open>INTEGER\<close>: the statement fails when \<open>count + 1\<close> leaves its range.\<close>

definition check_rate_limit :: "int \<Rightarrow> bytes \<Rightarrow> int \<Rightarrow> int \<Rightarrow> unit api_db" where
  "check_rate_limit now scope maximum window_seconds =
     (if scope = [] \<or> length scope > 96 \<or> maximum < 1 \<or> window_seconds < 1 then db_fail InvalidInput
      else db_bind (db_stmt Database (\<lambda>s.
        let old = find_row ab_scope scope (abuse_counters s);
            stale = (\<lambda>r. ab_window r \<le> now - secs window_seconds);
            step = (\<lambda>r. r\<lparr>ab_window := (if stale r then now else ab_window r),
                        ab_count := (if stale r then 1 else ab_count r + 1)\<rparr>);
            count = (case old of None \<Rightarrow> 1 | Some r \<Rightarrow> ab_count (step r))
        in if count > 2147483647 then Inl Database
           else Inr (count, s\<lparr>abuse_counters :=
             upsert ab_scope \<lparr>ab_scope = scope, ab_window = now, ab_count = 1\<rparr> step (abuse_counters s)\<rparr>)))
        (\<lambda>count. if count > maximum then db_fail Unauthorized else db_return ()))"

text \<open>\<open>cert.issued_at as i64\<close>\<close>

definition as_i64 :: "u64 \<Rightarrow> int" where
  "as_i64 w = sint w"

definition register_account_device ::
    "hash \<Rightarrow> ed25519 \<Rightarrow> bytes \<Rightarrow> bytes \<Rightarrow> DeviceCertificate \<Rightarrow> unit api_db" where
  "register_account_device sha256 E account root_public_key cert =
     (if account_id_from_root_public sha256 root_public_key \<noteq> account \<or>
         \<not> verify_device_certificate E root_public_key cert then db_fail InvalidCredentials
      else db_transaction Database
        (db_bind (pg_query (\<lambda>s. has_key dv_id (dc_device_id cert) (devices s))) (\<lambda>known.
         if known then db_fail Replay
         else
           db_then (pg_insert_ignore
             (\<lambda>s. length account = 32 \<and> length root_public_key = 32 \<and> \<not> has_key ac_root_key root_public_key (accounts s))
             ac_id \<lparr>ac_id = account, ac_root_key = root_public_key, ac_recovery_id = None, ac_recovery_blob = None\<rparr>
             accounts accounts_update)
           (db_bind (pg_query (\<lambda>s. list_ex (\<lambda>a. ac_id a = account \<and> ac_root_key a = root_public_key) (accounts s))) (\<lambda>valid.
            if \<not> valid then db_fail Conflict
            else
              db_then (pg_insert
                (\<lambda>s. length (dc_device_id cert) = 16 \<and> length (dc_device_public_key cert) = 32 \<and>
                     has_key ac_id account (accounts s) \<and>
                     \<not> list_ex (\<lambda>d. dv_account d = account \<and> dv_key d = dc_device_public_key cert) (devices s))
                dv_id \<lparr>dv_id = dc_device_id cert, dv_account = account, dv_key = dc_device_public_key cert, dv_revoked = None\<rparr>
                devices devices_update)
              (pg_insert
                (\<lambda>s. length (dc_signature cert) = 64 \<and> 0 \<le> as_i64 (dc_issued_at cert) \<and>
                     has_key dv_id (dc_device_id cert) (devices s))
                ct_device \<lparr>ct_device = dc_device_id cert, ct_signature = dc_signature cert,
                           ct_issued = as_i64 (dc_issued_at cert)\<rparr>
                device_certificates device_certificates_update))))))"

definition begin_challenge :: "int \<Rightarrow> bytes \<Rightarrow> bytes \<Rightarrow> bytes \<Rightarrow> Challenge api_db" where
  "begin_challenge now random_id random_challenge device_id =
     db_bind (pg_query (active_device device_id)) (\<lambda>active.
     if \<not> active then db_fail InvalidCredentials
     else
       db_then (pg_insert
         (\<lambda>s. length random_id = 16 \<and> has_key dv_id device_id (devices s) \<and> length random_challenge = 32 \<and>
              \<not> has_key ch_challenge random_challenge (auth_challenges s))
         ch_id \<lparr>ch_id = random_id, ch_device = device_id, ch_challenge = random_challenge,
                ch_expires = now + secs CHALLENGE_TTL_SECONDS, ch_consumed = None\<rparr>
         auth_challenges auth_challenges_update)
       (db_return \<lparr>cl_challenge_id = random_id, cl_challenge = random_challenge\<rparr>))"

text \<open>The four random values of \<open>issue_tokens\<close>; the family only without a family to go on with.\<close>

record token_seed =
  ts_access :: bytes
  ts_refresh :: bytes
  ts_family :: bytes

definition issue_tokens :: "hash \<Rightarrow> int \<Rightarrow> token_seed \<Rightarrow> bytes \<Rightarrow> bytes option \<Rightarrow> SessionTokens api_db" where
  "issue_tokens sha256 now seed device_id family =
     (let access_hash = token_hash sha256 (ascii ''access'') (ts_access seed);
          refresh_hash = token_hash sha256 (ascii ''refresh'') (ts_refresh seed);
          family_id = unwrap_or (ts_family seed) family
      in
        db_then (pg_insert (\<lambda>s. length access_hash = 32 \<and> has_key dv_id device_id (devices s))
          as_hash \<lparr>as_hash = access_hash, as_device = device_id, as_expires = now + secs ACCESS_TTL_SECONDS\<rparr>
          access_sessions access_sessions_update)
        (db_then (pg_insert (\<lambda>s. length refresh_hash = 32 \<and> length family_id = 16 \<and> has_key dv_id device_id (devices s))
          rs_hash \<lparr>rs_hash = refresh_hash, rs_family = family_id, rs_device = device_id, rs_replaced = None,
                   rs_expires = now + secs REFRESH_TTL_SECONDS, rs_used = None, rs_revoked = None\<rparr>
          refresh_sessions refresh_sessions_update)
        (db_return \<lparr>st_access_token = ts_access seed, st_refresh_token = ts_refresh seed\<rparr>)))"

text \<open>
  The join of \<open>auth_challenges\<close> (or \<open>refresh_sessions\<close>) with \<open>devices\<close>: a row whose device exists,
  with the device's key. Revoked devices are not left out.
\<close>

definition complete_challenge ::
    "hash \<Rightarrow> ed25519 \<Rightarrow> int \<Rightarrow> token_seed \<Rightarrow> bytes \<Rightarrow> bytes \<Rightarrow> SessionTokens api_db" where
  "complete_challenge sha256 E now seed challenge_id signature = db_transaction Database
     (db_bind (pg_query (\<lambda>s. case find_row ch_id challenge_id (auth_challenges s) of
          None \<Rightarrow> None
        | Some c \<Rightarrow> map_option (\<lambda>d. (c, dv_key d)) (find_row dv_id (ch_device c) (devices s)))) (\<lambda>row.
      db_bind (db_lift (ok_or InvalidCredentials row)) (\<lambda>(c, pub).
      if ch_consumed c \<noteq> None then db_fail Replay
      else if ch_expires c \<le> now then db_fail Expired
      else
        db_bind (db_lift (fixed_bytes 32 InvalidCredentials pub)) (\<lambda>pub.
        db_bind (db_lift (fixed_bytes 32 InvalidCredentials (ch_challenge c))) (\<lambda>challenge.
        if \<not> ed_check E pub (auth_challenge_payload challenge_id challenge) signature then db_fail InvalidCredentials
        else
          db_then (pg_update (\<lambda>r. ch_id r = challenge_id) (\<lambda>r. r\<lparr>ch_consumed := Some now\<rparr>)
            auth_challenges auth_challenges_update)
          (issue_tokens sha256 now seed (ch_device c) None))))))"

definition rotate_refresh ::
    "hash \<Rightarrow> ed25519 \<Rightarrow> int \<Rightarrow> token_seed \<Rightarrow> bytes \<Rightarrow> bytes \<Rightarrow> bytes \<Rightarrow> SessionTokens api_db" where
  "rotate_refresh sha256 E now seed device_id refresh_token device_signature =
     (let hash = token_hash sha256 (ascii ''refresh'') refresh_token in
      db_tx Database
       (db_bind (pg_query (\<lambda>s. case find (\<lambda>r. rs_hash r = hash \<and> rs_device r = device_id) (refresh_sessions s) of
            None \<Rightarrow> None
          | Some r \<Rightarrow> map_option (\<lambda>d. (r, dv_key d)) (find_row dv_id (rs_device r) (devices s)))) (\<lambda>row.
        db_bind (db_lift (ok_or InvalidCredentials row)) (\<lambda>(r, pub).
        if rs_used r \<noteq> None \<or> rs_revoked r \<noteq> None then
          db_then (pg_update (\<lambda>x. rs_family x = rs_family r)
            (\<lambda>x. x\<lparr>rs_revoked := Some (unwrap_or now (rs_revoked x))\<rparr>) refresh_sessions refresh_sessions_update)
          (db_return (Commit (Inl TokenReuse)))
        else if rs_expires r \<le> now then db_fail Expired
        else
          db_bind (db_lift (fixed_bytes 32 InvalidCredentials pub)) (\<lambda>pub.
          if \<not> ed_check E pub (refresh_proof_payload refresh_token) device_signature then db_fail InvalidCredentials
          else
            db_bind (issue_tokens sha256 now seed device_id (Some (rs_family r))) (\<lambda>tokens.
            db_then (db_stmt Database (\<lambda>s.
              let new_hash = token_hash sha256 (ascii ''refresh'') (st_refresh_token tokens) in
              if has_key rs_hash new_hash (refresh_sessions s)
              then Inr ((), s\<lparr>refresh_sessions := snd (update_where (\<lambda>x. rs_hash x = hash)
                     (\<lambda>x. x\<lparr>rs_used := Some now, rs_replaced := Some new_hash\<rparr>) (refresh_sessions s))\<rparr>)
              else Inl Database))
            (db_return (Commit (Inr tokens)))))))))"

section \<open>Usernames\<close>

definition reserved_usernames :: "chars list" where
  "reserved_usernames = map (map of_char) [''admin'', ''support'', ''security'', ''resilient'', ''system'']"

definition requested_username :: "unicode \<Rightarrow> chars \<Rightarrow> (ApiError, chars) result" where
  "requested_username U requested =
     and_then (map_err (\<lambda>_. InvalidInput) (canonical_username U requested)) (\<lambda>canonical.
     if canonical \<in> set reserved_usernames then Inl InvalidInput else Inr canonical)"

definition cooling :: "int \<Rightarrow> chars \<Rightarrow> backend \<Rightarrow> bool" where
  "cooling now name s = list_ex (\<lambda>c. cd_name c = name \<and> cd_until c > now) (username_cooldowns s)"

definition active_username :: "bytes \<Rightarrow> backend \<Rightarrow> bool" where
  "active_username account s = list_ex (\<lambda>u. un_account u = account \<and> un_released u = None) (usernames s)"

definition claim_username :: "unicode \<Rightarrow> int \<Rightarrow> bytes \<Rightarrow> chars \<Rightarrow> chars api_db" where
  "claim_username U now account requested =
     db_bind (db_lift (requested_username U requested)) (\<lambda>canonical.
     db_transaction Database
       (db_then (db_stmt Database (\<lambda>s. Inr ((), s\<lparr>usernames := delete_where
          (\<lambda>u. un_name u = canonical \<and> un_released u \<noteq> None \<and> \<not> cooling now canonical s) (usernames s)\<rparr>)))
       (db_bind (db_stmt Database (\<lambda>s.
          if has_key un_name canonical (usernames s) \<or> active_username account s then Inr (0, s)
          else if 3 \<le> length canonical \<and> length canonical \<le> 32 \<and> has_key ac_id account (accounts s)
          then Inr (1, s\<lparr>usernames := usernames s @ [\<lparr>un_name = canonical, un_account = account, un_released = None\<rparr>]\<rparr>)
          else Inl Database)) (\<lambda>changed.
        if changed \<noteq> (1 :: nat) then db_fail Conflict else db_return canonical))))"

definition select_username :: "bytes \<Rightarrow> chars option api_db" where
  "select_username account = pg_query (\<lambda>s. map_option un_name
     (find (\<lambda>u. un_account u = account \<and> un_released u = None) (usernames s)))"

text \<open>Releasing the name \<open>old\<close> starts a cooldown of 30 days.\<close>

definition free_username :: "int \<Rightarrow> bytes \<Rightarrow> chars \<Rightarrow> unit api_db" where
  "free_username now account old =
     db_then (pg_update (\<lambda>u. un_name u = old) (\<lambda>u. u\<lparr>un_released := Some now\<rparr>) usernames usernames_update)
     (pg_upsert (\<lambda>s. has_key ac_id account (accounts s)) cd_name
        \<lparr>cd_name = old, cd_account = account, cd_until = now + secs (30 * 24 * 60 * 60)\<rparr>
        (\<lambda>c. c\<lparr>cd_account := account, cd_until := now + secs (30 * 24 * 60 * 60)\<rparr>) username_cooldowns_update)"

definition change_username :: "unicode \<Rightarrow> int \<Rightarrow> bytes \<Rightarrow> chars \<Rightarrow> chars api_db" where
  "change_username U now account requested =
     db_bind (db_lift (requested_username U requested)) (\<lambda>nxt.
     db_tx Database
       (db_bind (select_username account) (\<lambda>current.
        if current = Some nxt then db_return (Abandon (Inr nxt))
        else
          db_bind (pg_query (\<lambda>s. \<not> list_ex (\<lambda>u. un_name u = nxt \<and> (un_released u = None \<or> cooling now nxt s)) (usernames s))) (\<lambda>available.
          if \<not> available then db_fail Conflict
          else
            db_then (pg_delete (\<lambda>u. un_name u = nxt \<and> un_released u \<noteq> None) usernames usernames_update)
            (db_then (case current of None \<Rightarrow> db_return () | Some old \<Rightarrow> free_username now account old)
            (db_then (pg_insert
              (\<lambda>s. 3 \<le> length nxt \<and> length nxt \<le> 32 \<and> has_key ac_id account (accounts s) \<and> \<not> active_username account s)
              un_name \<lparr>un_name = nxt, un_account = account, un_released = None\<rparr> usernames usernames_update)
            (db_return (Commit (Inr nxt)))))))))"

definition release_username :: "int \<Rightarrow> bytes \<Rightarrow> unit api_db" where
  "release_username now account = db_transaction Database
     (db_bind (select_username account) (\<lambda>current.
      db_bind (db_lift (ok_or InvalidInput current)) (\<lambda>current.
      free_username now account current)))"

definition exact_username_lookup :: "unicode \<Rightarrow> chars \<Rightarrow> bytes option api_db" where
  "exact_username_lookup U requested =
     db_bind (db_lift (map_err (\<lambda>_. InvalidInput) (canonical_username U requested))) (\<lambda>canonical.
     db_bind (pg_query (\<lambda>s. map_option un_account
        (find (\<lambda>u. un_name u = canonical \<and> un_released u = None) (usernames s)))) (\<lambda>v.
     case v of
       None \<Rightarrow> db_return None
     | Some b \<Rightarrow> db_lift (and_then (fixed_bytes 32 Database b) (\<lambda>b. Inr (Some b)))))"

section \<open>Recovery and key packages\<close>

text \<open>\<open>recovery_identifier\<close> is unique: the update fails when another account has it.\<close>

definition store_recovery_package :: "bytes \<Rightarrow> bytes \<Rightarrow> bytes \<Rightarrow> unit api_db" where
  "store_recovery_package account identifier blob =
     (if blob = [] \<or> length blob > MAX_RECOVERY_BLOB_SIZE then db_fail InvalidInput
      else db_bind (db_stmt Database (\<lambda>s.
        let p = (\<lambda>a. ac_id a = account \<and> (ac_recovery_id a = None \<or> ac_recovery_id a = Some identifier));
            (n, rows) = update_where p (\<lambda>a. a\<lparr>ac_recovery_id := Some identifier, ac_recovery_blob := Some blob\<rparr>) (accounts s)
        in if n > 0 \<and> (length identifier \<noteq> 32 \<or>
                list_ex (\<lambda>a. ac_id a \<noteq> account \<and> ac_recovery_id a = Some identifier) (accounts s)) then Inl Database
           else Inr (n, s\<lparr>accounts := rows\<rparr>)))
        (\<lambda>changed. if changed = 1 then db_return () else db_fail Conflict))"

definition fetch_recovery_package :: "bytes \<Rightarrow> bytes option api_db" where
  "fetch_recovery_package identifier = pg_query (\<lambda>s.
     case find (\<lambda>a. ac_recovery_id a = Some identifier \<and> ac_recovery_blob a \<noteq> None) (accounts s) of
       None \<Rightarrow> None
     | Some a \<Rightarrow> ac_recovery_blob a)"

text \<open>\<open>INSERT .. SELECT .. WHERE EXISTS(..)\<close>: no row when the device is not active.\<close>

definition publish_key_package :: "int \<Rightarrow> bytes \<Rightarrow> bytes \<Rightarrow> bytes \<Rightarrow> unit api_db" where
  "publish_key_package now device_id package_id pkg =
     (if pkg = [] \<or> length pkg > MAX_KEY_PACKAGE_SIZE then db_fail InvalidInput
      else db_bind (db_stmt Database (\<lambda>s.
        if \<not> active_device device_id s \<or> has_key kp_id package_id (key_packages s) then Inr (0, s)
        else if length package_id = 16 \<and> length pkg \<le> 65536
        then Inr (1, s\<lparr>key_packages := key_packages s @ [\<lparr>kp_id = package_id, kp_device = device_id,
               kp_package = pkg, kp_consumed = None, kp_created = now\<rparr>]\<rparr>)
        else Inl Database))
        (\<lambda>changed. if changed = (1 :: nat) then db_return () else db_fail Conflict))"

text \<open>\<open>ORDER BY created_at LIMIT 1\<close>; rows of one time in the order they were inserted.\<close>

definition fetch_key_package :: "int \<Rightarrow> bytes \<Rightarrow> (bytes \<times> bytes) option api_db" where
  "fetch_key_package now target =
     db_bind (db_transaction Database
       (db_bind (pg_query (\<lambda>s. sort_key kp_created
          (filter (\<lambda>k. kp_device k = target \<and> kp_consumed k = None) (key_packages s)))) (\<lambda>rows.
        case rows of
          [] \<Rightarrow> db_return None
        | k # _ \<Rightarrow>
            db_then (pg_update (\<lambda>r. kp_id r = kp_id k) (\<lambda>r. r\<lparr>kp_consumed := Some now\<rparr>) key_packages key_packages_update)
            (db_return (Some (kp_id k, kp_package k)))))) (\<lambda>row.
     case row of
       None \<Rightarrow> db_return None
     | Some (i, pkg) \<Rightarrow> db_lift (and_then (fixed_bytes 16 Database i) (\<lambda>i. Inr (Some (i, pkg)))))"

section \<open>Groups\<close>

definition member_checks :: "group_member_row \<Rightarrow> backend \<Rightarrow> bool" where
  "member_checks m s \<longleftrightarrow> has_key gr_id (gm_group m) (groups s) \<and> has_key dv_id (gm_device m) (devices s) \<and>
     has_key ac_id (gm_account m) (accounts s) \<and> 0 \<le> gm_role m \<and> gm_role m \<le> 2"

definition insert_member :: "group_member_row \<Rightarrow> unit api_db" where
  "insert_member m = pg_insert (member_checks m) group_member_key m group_members group_members_update"

definition pg_create_group :: "bytes \<Rightarrow> bytes \<Rightarrow> bytes \<Rightarrow> unit api_db" where
  "pg_create_group group_id creator account = db_transaction Database
     (db_bind (pg_query (\<lambda>s. list_ex (\<lambda>d. dv_id d = creator \<and> dv_account d = account \<and> dv_revoked d = None) (devices s))) (\<lambda>owns_device.
      if \<not> owns_device then db_fail Unauthorized
      else
        db_then (pg_insert (\<lambda>s. length group_id = 16 \<and> has_key dv_id creator (devices s))
          gr_id \<lparr>gr_id = group_id, gr_creator = creator\<rparr> groups groups_update)
        (insert_member \<lparr>gm_group = group_id, gm_device = creator, gm_account = account, gm_role = 2, gm_removed = None\<rparr>)))"

definition add_group_member :: "bytes \<Rightarrow> bytes \<Rightarrow> bytes \<Rightarrow> int \<Rightarrow> unit api_db" where
  "add_group_member group_id device_id account role =
     insert_member \<lparr>gm_group = group_id, gm_device = device_id, gm_account = account, gm_role = role, gm_removed = None\<rparr>"

text \<open>\<open>role.to_be_bytes()\<close> of an \<open>i16\<close>.\<close>

definition be_i16 :: "int \<Rightarrow> bytes" where
  "be_i16 n = be16 (word_of_int n)"

definition membership_operation_payload :: "bytes \<Rightarrow> bytes \<Rightarrow> bytes \<Rightarrow> bytes \<Rightarrow> int \<Rightarrow> bool \<Rightarrow> bytes" where
  "membership_operation_payload correlation_id group_id author target role remove =
     (((((ascii ''resilient/membership-operation/v1'' @ correlation_id) @ group_id) @ author) @ target) @
       be_i16 role) @ [if remove then 1 else 0]"

definition author_key :: "bytes \<Rightarrow> bytes \<Rightarrow> backend \<Rightarrow> bytes option" where
  "author_key group_id author s =
     (case find (\<lambda>m. gm_group m = group_id \<and> gm_device m = author \<and> gm_role m = 2 \<and> gm_removed m = None) (group_members s) of
        None \<Rightarrow> None
      | Some m \<Rightarrow> map_option dv_key (find_row dv_id (gm_device m) (devices s)))"

definition remove_group_member :: "int \<Rightarrow> bytes \<Rightarrow> bytes \<Rightarrow> unit api_db" where
  "remove_group_member now group_id target =
     db_bind (pg_update (\<lambda>m. gm_group m = group_id \<and> gm_device m = target \<and> gm_removed m = None)
       (\<lambda>m. m\<lparr>gm_removed := Some now\<rparr>) group_members group_members_update) (\<lambda>changed.
     if changed \<noteq> 1 then db_fail InvalidInput else db_return ())"

definition upsert_group_member :: "bytes \<Rightarrow> bytes \<Rightarrow> int \<Rightarrow> unit api_db" where
  "upsert_group_member group_id target role =
     db_bind (pg_query (\<lambda>s. find (\<lambda>d. dv_id d = target \<and> dv_revoked d = None) (devices s))) (\<lambda>row.
     db_bind (db_lift (ok_or InvalidInput row)) (\<lambda>d.
     let m = \<lparr>gm_group = group_id, gm_device = target, gm_account = dv_account d, gm_role = role, gm_removed = None\<rparr>
     in pg_upsert (member_checks m) group_member_key m
          (\<lambda>x. x\<lparr>gm_account := dv_account d, gm_role := role, gm_removed := None\<rparr>) group_members_update))"

definition apply_membership_operation :: "ed25519 \<Rightarrow> int \<Rightarrow> MembershipOperation \<Rightarrow> bool api_db" where
  "apply_membership_operation E now req =
     (if \<not> (0 \<le> mr_role req \<and> mr_role req \<le> 2) then db_fail InvalidInput
      else
        let operation = membership_operation_payload (mr_correlation_id req) (mr_group_id req)
              (mr_author_device_id req) (mr_target_device_id req) (mr_role req) (mr_remove req)
        in db_transaction Database
          (db_bind (pg_query (author_key (mr_group_id req) (mr_author_device_id req))) (\<lambda>author.
           db_bind (db_lift (ok_or Unauthorized author)) (\<lambda>pub.
           db_bind (db_lift (fixed_bytes 32 Database pub)) (\<lambda>pub.
           if \<not> ed_check E pub operation (mr_signature req) then db_fail InvalidCredentials
           else
             db_bind (pg_query (\<lambda>s. find_row mo_correlation (mr_correlation_id req) (membership_operations s))) (\<lambda>stored.
             case stored of
               Some o' \<Rightarrow>
                 if mo_operation o' = operation \<and> mo_signature o' = mr_signature req then db_return True
                 else db_fail Conflict
             | None \<Rightarrow>
                 db_then (pg_insert
                   (\<lambda>s. length (mr_correlation_id req) = 16 \<and> has_key gr_id (mr_group_id req) (groups s) \<and>
                        has_key dv_id (mr_author_device_id req) (devices s))
                   mo_correlation \<lparr>mo_correlation = mr_correlation_id req, mo_group = mr_group_id req,
                     mo_author = mr_author_device_id req, mo_operation = operation,
                     mo_signature = mr_signature req, mo_applied = None\<rparr>
                   membership_operations membership_operations_update)
                 (db_then (if mr_remove req then remove_group_member now (mr_group_id req) (mr_target_device_id req)
                           else upsert_group_member (mr_group_id req) (mr_target_device_id req) (mr_role req))
                 (db_then (pg_update (\<lambda>o'. mo_correlation o' = mr_correlation_id req)
                    (\<lambda>o'. o'\<lparr>mo_applied := Some now\<rparr>) membership_operations membership_operations_update)
                 (db_return False)))))))))"

definition assert_active_member :: "bytes \<Rightarrow> bytes \<Rightarrow> unit api_db" where
  "assert_active_member grp dev =
     db_bind (pg_query (active_member grp dev)) (\<lambda>allowed.
     if allowed then db_return () else db_fail Unauthorized)"

text \<open>\<open>limit.clamp(1, MAX_SYNC_BATCH)\<close>\<close>

definition clamp :: "int \<Rightarrow> int \<Rightarrow> int \<Rightarrow> int" where
  "clamp lo hi n = (if n < lo then lo else if n > hi then hi else n)"

section \<open>Welcomes\<close>

definition upload_welcome :: "int \<Rightarrow> bytes \<Rightarrow> bytes \<Rightarrow> bytes \<Rightarrow> bytes \<Rightarrow> bytes \<Rightarrow> unit api_db" where
  "upload_welcome now author target group_id welcome_id welcome =
     (if welcome = [] \<or> length welcome > 65536 then db_fail InvalidInput
      else db_transaction Database
        (db_then (assert_active_member group_id author)
        (db_bind (pg_query (\<lambda>s. has_key group_member_key (group_id, target) (group_members s))) (\<lambda>target_known.
         if \<not> target_known then db_fail Unauthorized
         else
           db_then (pg_insert_ignore
             (\<lambda>s. length welcome_id = 16 \<and> has_key dv_id target (devices s) \<and> has_key gr_id group_id (groups s) \<and>
                  length welcome \<le> 65536)
             we_id \<lparr>we_id = welcome_id, we_target = target, we_group = group_id, we_welcome = welcome,
                    we_expires = now + secs EVENT_TTL_SECONDS, we_consumed = None\<rparr>
             welcome_mailbox welcome_mailbox_update)
           (db_return ())))))"

definition pending_welcomes :: "int \<Rightarrow> bytes \<Rightarrow> nat \<Rightarrow> backend \<Rightarrow> welcome_row list" where
  "pending_welcomes now target n s = take n (sort_key we_expires
     (filter (\<lambda>w. we_target w = target \<and> we_consumed w = None \<and> we_expires w > now) (welcome_mailbox s)))"

definition fetch_welcomes :: "int \<Rightarrow> bytes \<Rightarrow> int \<Rightarrow> (bytes \<times> bytes \<times> bytes) list api_db" where
  "fetch_welcomes now target limit =
     db_bind (db_transaction Database
       (db_bind (pg_query (pending_welcomes now target (nat (clamp 1 MAX_SYNC_BATCH limit)))) (\<lambda>rows.
        db_then (db_for (\<lambda>w. pg_update (\<lambda>r. we_id r = we_id w) (\<lambda>r. r\<lparr>we_consumed := Some now\<rparr>)
          welcome_mailbox welcome_mailbox_update) rows)
        (db_return rows)))) (\<lambda>rows.
     db_lift (collect_results (\<lambda>w.
       and_then (fixed_bytes 16 Database (we_id w)) (\<lambda>welcome_id.
       and_then (fixed_bytes 16 Database (we_group w)) (\<lambda>group_id.
       Inr (welcome_id, group_id, we_welcome w)))) rows))"

section \<open>Events\<close>

text \<open>\<open>nextval\<close> is the value the identity column takes from its sequence.\<close>

definition insert_event :: "int \<Rightarrow> int \<Rightarrow> UploadedEvent \<Rightarrow> int api_db" where
  "insert_event now nextval e =
     (let r = \<lparr>ev_cursor = nextval, ev_id = ue_event_id e, ev_group = ue_group_id e,
           ev_author = ue_author_device_id e, ev_client_id = ue_client_message_id e,
           ev_correlation = ue_correlation_id e, ev_kind = ue_event_kind e,
           ev_ciphertext = ue_ciphertext e, ev_expires = now + secs EVENT_TTL_SECONDS\<rparr>
      in db_then (pg_insert
        (\<lambda>s. length (ue_event_id e) = 16 \<and> has_key gr_id (ue_group_id e) (groups s) \<and>
             has_key dv_id (ue_author_device_id e) (devices s) \<and> length (ue_client_message_id e) = 16 \<and>
             (case ue_correlation_id e of None \<Rightarrow> True | Some c \<Rightarrow> length c = 16) \<and>
             length (ue_ciphertext e) \<le> 65536 \<and> \<not> has_key ev_cursor nextval (group_events s) \<and>
             \<not> has_key event_key (event_key r) (group_events s))
        ev_id r group_events group_events_update)
      (db_return nextval))"

definition upload_event :: "int \<Rightarrow> int \<Rightarrow> UploadedEvent \<Rightarrow> UploadAccepted api_db" where
  "upload_event now nextval e =
     (if ue_ciphertext e = [] \<or> length (ue_ciphertext e) > 65536 then db_fail InvalidInput
      else db_transaction Database
        (db_then (assert_active_member (ue_group_id e) (ue_author_device_id e))
        (if ue_event_kind e = EVENT_KIND_MLS_COMMIT \<and> ue_correlation_id e = None then db_fail InvalidInput
         else
           db_then (case ue_correlation_id e of
               None \<Rightarrow> db_return ()
             | Some correlation_id \<Rightarrow>
                 db_bind (pg_query (\<lambda>s. list_ex (\<lambda>o'. mo_correlation o' = correlation_id \<and> mo_group o' = ue_group_id e \<and>
                     mo_applied o' \<noteq> None) (membership_operations s))) (\<lambda>operation_exists.
                 if \<not> operation_exists then db_fail Conflict else db_return ()))
           (db_bind (pg_query (\<lambda>s. find_row event_key (ue_author_device_id e, ue_client_message_id e) (group_events s))) (\<lambda>row.
            case row of
              Some old \<Rightarrow>
                if ev_id old = ue_event_id e \<and> ev_ciphertext old = ue_ciphertext e
                then db_return \<lparr>ua_cursor = ev_cursor old, ua_duplicate = True\<rparr>
                else db_fail Conflict
            | None \<Rightarrow>
                db_bind (insert_event now nextval e) (\<lambda>cursor.
                db_then (db_stmt Database (\<lambda>s. Inr ((), s\<lparr>notifications := notifications s @ [ue_group_id e]\<rparr>)))
                (db_return \<lparr>ua_cursor = cursor, ua_duplicate = False\<rparr>)))))))"

definition sync_row :: "event_row \<Rightarrow> (ApiError, SyncEvent) result" where
  "sync_row e = and_then (fixed_bytes 16 Database (ev_id e)) (\<lambda>i.
     Inr \<lparr>se_cursor = ev_cursor e, se_event_id = i, se_event_kind = ev_kind e, se_ciphertext = ev_ciphertext e\<rparr>)"

text \<open>\<open>.. WHERE p AND event_cursor > after AND expires_at > now() ORDER BY event_cursor LIMIT n\<close>\<close>

definition event_page :: "int \<Rightarrow> int \<Rightarrow> int \<Rightarrow> (event_row \<Rightarrow> bool) \<Rightarrow> event_row list \<Rightarrow> event_row list" where
  "event_page now after limit p rows =
     take (nat (clamp 1 MAX_SYNC_BATCH limit))
       (sort_key ev_cursor (filter (\<lambda>e. p e \<and> ev_cursor e > max after 0 \<and> ev_expires e > now) rows))"

definition sync_group :: "int \<Rightarrow> bytes \<Rightarrow> bytes \<Rightarrow> int \<Rightarrow> int \<Rightarrow> SyncEvent list api_db" where
  "sync_group now device_id group_id after limit =
     db_bind (db_transaction Database
       (db_then (assert_active_member group_id device_id)
       (pg_query (\<lambda>s. event_page now after limit (\<lambda>e. ev_group e = group_id) (group_events s))))) (\<lambda>rows.
     db_lift (collect_results sync_row rows))"

text \<open>The join with the active membership of the device in the group of the event.\<close>

definition sync_global :: "int \<Rightarrow> bytes \<Rightarrow> int \<Rightarrow> int \<Rightarrow> SyncEvent list api_db" where
  "sync_global now device_id after limit =
     db_bind (pg_query (\<lambda>s. event_page now after limit (\<lambda>e. active_member (ev_group e) device_id s) (group_events s))) (\<lambda>rows.
     db_lift (collect_results sync_row rows))"

definition insert_receipt :: "bytes \<Rightarrow> int \<Rightarrow> bytes \<Rightarrow> nat api_db" where
  "insert_receipt device_id receipt_type event_id = db_stmt Database (\<lambda>s.
     let r = \<lparr>rc_event = event_id, rc_device = device_id, rc_type = receipt_type\<rparr> in
     if \<not> list_ex (\<lambda>e. ev_id e = event_id \<and> active_member (ev_group e) device_id s) (group_events s) \<or>
        has_key receipt_key (receipt_key r) (message_receipts s) then Inr (0, s)
     else Inr (1, s\<lparr>message_receipts := message_receipts s @ [r]\<rparr>))"

definition record_receipts :: "bytes \<Rightarrow> bytes list \<Rightarrow> int \<Rightarrow> nat api_db" where
  "record_receipts device_id event_ids receipt_type =
     (if \<not> (receipt_type = 1 \<or> receipt_type = 2) \<or> length event_ids > nat MAX_SYNC_BATCH then db_fail InvalidInput
      else db_transaction Database
        (db_bind (db_for (insert_receipt device_id receipt_type) event_ids) (\<lambda>inserted.
         db_return (sum_list inserted))))"

text \<open>\<open>COALESCE(MAX(event_cursor), 0)\<close> of the events of a group.\<close>

definition available_cursor :: "bytes \<Rightarrow> backend \<Rightarrow> int" where
  "available_cursor group_id s =
     (case map ev_cursor (filter (\<lambda>e. ev_group e = group_id) (group_events s)) of
        [] \<Rightarrow> 0
      | c # cs \<Rightarrow> fold max cs c)"

definition advance_group_cursor :: "bytes \<Rightarrow> bytes \<Rightarrow> int \<Rightarrow> unit api_db" where
  "advance_group_cursor device_id group_id cursor = db_transaction Database
     (db_then (assert_active_member group_id device_id)
     (db_bind (pg_query (\<lambda>s. map_option gc_cursor (find_row cursor_key (device_id, group_id) (device_group_cursors s)))) (\<lambda>current.
      if (case current of None \<Rightarrow> False | Some v \<Rightarrow> cursor < v) then db_fail CursorRegression
      else
        db_bind (pg_query (available_cursor group_id)) (\<lambda>available.
        if cursor > available then db_fail InvalidInput
        else pg_upsert
          (\<lambda>s. has_key dv_id device_id (devices s) \<and> has_key gr_id group_id (groups s) \<and> 0 \<le> cursor)
          cursor_key \<lparr>gc_device = device_id, gc_group = group_id, gc_cursor = cursor\<rparr>
          (\<lambda>r. r\<lparr>gc_cursor := cursor\<rparr>) device_group_cursors_update))))"

text \<open>
  \<open>DELETE .. WHERE event_id IN (SELECT .. LIMIT n)\<close>, with the receipts of the events deleted
  (\<open>ON DELETE CASCADE\<close>). The rows chosen are the first ones; PostgreSQL may choose others.
\<close>

definition cleanup_expired_events :: "int \<Rightarrow> int \<Rightarrow> nat api_db" where
  "cleanup_expired_events now batch = db_stmt Database (\<lambda>s.
     let doomed = map ev_id (take (nat (clamp 1 10000 batch)) (filter (\<lambda>e. ev_expires e \<le> now) (group_events s)))
     in Inr (length (filter (\<lambda>e. ev_id e \<in> set doomed) (group_events s)),
          s\<lparr>group_events := delete_where (\<lambda>e. ev_id e \<in> set doomed) (group_events s),
            message_receipts := delete_where (\<lambda>r. rc_event r \<in> set doomed) (message_receipts s)\<rparr>))"

end
