(* ===== verification/Delivery_Invariant.thy ===== *)
theory Delivery_Invariant
  imports Delivery
begin

text \<open>
  What every statement of the backend keeps: the constraints of the schema (\<open>schema_ok\<close>) and the
  relation \<open>evolves\<close> (accounts, devices and groups stay, what is consumed, used or revoked stays
  so). Both are relations that each statement stays within, so that an operation stays within
  them whichever of its statements fail; and with the operations as a datatype, so does every
  sequence of requests.
\<close>

section \<open>The constraints of the schema\<close>

text \<open>One predicate per table; \<open>A\<close>, \<open>D\<close>, \<open>G\<close>, \<open>V\<close> are the keys of accounts, devices, groups, events.\<close>

definition accounts_table :: "account_row list \<Rightarrow> bool" where
  "accounts_table rows \<longleftrightarrow> keyed ac_id rows \<and> keyed ac_root_key rows \<and>
     keyed ac_recovery_id (filter (\<lambda>a. ac_recovery_id a \<noteq> None) rows)"

definition devices_table :: "bytes set \<Rightarrow> device_row list \<Rightarrow> bool" where
  "devices_table A rows \<longleftrightarrow> keyed dv_id rows \<and> keyed (\<lambda>d. (dv_account d, dv_key d)) rows \<and>
     (\<forall>d \<in> set rows. length (dv_id d) = 16 \<and> length (dv_key d) = 32 \<and> dv_account d \<in> A)"

definition certificates_table :: "bytes set \<Rightarrow> certificate_row list \<Rightarrow> bool" where
  "certificates_table D rows \<longleftrightarrow> keyed ct_device rows \<and>
     (\<forall>c \<in> set rows. length (ct_signature c) = 64 \<and> 0 \<le> ct_issued c \<and> ct_device c \<in> D)"

definition usernames_table :: "bytes set \<Rightarrow> username_row list \<Rightarrow> bool" where
  "usernames_table A rows \<longleftrightarrow> keyed un_name rows \<and> keyed un_account (filter (\<lambda>u. un_released u = None) rows) \<and>
     (\<forall>u \<in> set rows. 3 \<le> length (un_name u) \<and> length (un_name u) \<le> 32 \<and> un_account u \<in> A)"

definition challenges_table :: "bytes set \<Rightarrow> challenge_row list \<Rightarrow> bool" where
  "challenges_table D rows \<longleftrightarrow> keyed ch_id rows \<and> keyed ch_challenge rows \<and>
     (\<forall>c \<in> set rows. length (ch_id c) = 16 \<and> length (ch_challenge c) = 32 \<and> ch_device c \<in> D)"

definition access_table :: "bytes set \<Rightarrow> access_row list \<Rightarrow> bool" where
  "access_table D rows \<longleftrightarrow> keyed as_hash rows \<and> (\<forall>a \<in> set rows. length (as_hash a) = 32 \<and> as_device a \<in> D)"

definition refresh_table :: "bytes set \<Rightarrow> refresh_row list \<Rightarrow> bool" where
  "refresh_table D rows \<longleftrightarrow> keyed rs_hash rows \<and>
     (\<forall>r \<in> set rows. length (rs_hash r) = 32 \<and> length (rs_family r) = 16 \<and> rs_device r \<in> D) \<and>
     (\<forall>r \<in> set rows. \<forall>h. rs_replaced r = Some h \<longrightarrow> h \<in> rs_hash ` set rows)"

definition packages_table :: "bytes set \<Rightarrow> package_row list \<Rightarrow> bool" where
  "packages_table D rows \<longleftrightarrow> keyed kp_id rows \<and>
     (\<forall>k \<in> set rows. length (kp_id k) = 16 \<and> length (kp_package k) \<le> 65536 \<and> kp_device k \<in> D)"

definition groups_table :: "bytes set \<Rightarrow> group_row list \<Rightarrow> bool" where
  "groups_table D rows \<longleftrightarrow> keyed gr_id rows \<and> (\<forall>g \<in> set rows. length (gr_id g) = 16 \<and> gr_creator g \<in> D)"

definition members_table :: "bytes set \<Rightarrow> bytes set \<Rightarrow> bytes set \<Rightarrow> group_member_row list \<Rightarrow> bool" where
  "members_table A D G rows \<longleftrightarrow> keyed group_member_key rows \<and>
     (\<forall>m \<in> set rows. gm_group m \<in> G \<and> gm_device m \<in> D \<and> gm_account m \<in> A \<and> 0 \<le> gm_role m \<and> gm_role m \<le> 2)"

definition operations_table :: "bytes set \<Rightarrow> bytes set \<Rightarrow> operation_row list \<Rightarrow> bool" where
  "operations_table D G rows \<longleftrightarrow> keyed mo_correlation rows \<and>
     (\<forall>o' \<in> set rows. length (mo_correlation o') = 16 \<and> mo_group o' \<in> G \<and> mo_author o' \<in> D)"

definition events_table :: "bytes set \<Rightarrow> bytes set \<Rightarrow> event_row list \<Rightarrow> bool" where
  "events_table D G rows \<longleftrightarrow> keyed ev_id rows \<and> keyed ev_cursor rows \<and> keyed event_key rows \<and>
     (\<forall>e \<in> set rows. length (ev_id e) = 16 \<and> length (ev_client_id e) = 16 \<and> length (ev_ciphertext e) \<le> 65536 \<and>
        ev_group e \<in> G \<and> ev_author e \<in> D)"

definition welcomes_table :: "bytes set \<Rightarrow> bytes set \<Rightarrow> welcome_row list \<Rightarrow> bool" where
  "welcomes_table D G rows \<longleftrightarrow> keyed we_id rows \<and>
     (\<forall>w \<in> set rows. length (we_id w) = 16 \<and> length (we_welcome w) \<le> 65536 \<and> we_group w \<in> G \<and> we_target w \<in> D)"

definition group_cursors_table :: "bytes set \<Rightarrow> bytes set \<Rightarrow> group_cursor_row list \<Rightarrow> bool" where
  "group_cursors_table D G rows \<longleftrightarrow> keyed cursor_key rows \<and>
     (\<forall>c \<in> set rows. 0 \<le> gc_cursor c \<and> gc_device c \<in> D \<and> gc_group c \<in> G)"

definition receipts_table :: "bytes set \<Rightarrow> receipt_row list \<Rightarrow> bool" where
  "receipts_table V rows \<longleftrightarrow> keyed receipt_key rows \<and> (\<forall>r \<in> set rows. rc_event r \<in> V \<and> rc_type r \<in> {1, 2})"

definition schema_ok :: "backend \<Rightarrow> bool" where
  "schema_ok s \<longleftrightarrow>
     accounts_table (accounts s) \<and>
     devices_table (ac_id ` set (accounts s)) (devices s) \<and>
     certificates_table (dv_id ` set (devices s)) (device_certificates s) \<and>
     usernames_table (ac_id ` set (accounts s)) (usernames s) \<and> keyed cd_name (username_cooldowns s) \<and>
     challenges_table (dv_id ` set (devices s)) (auth_challenges s) \<and>
     access_table (dv_id ` set (devices s)) (access_sessions s) \<and>
     refresh_table (dv_id ` set (devices s)) (refresh_sessions s) \<and>
     packages_table (dv_id ` set (devices s)) (key_packages s) \<and>
     groups_table (dv_id ` set (devices s)) (groups s) \<and>
     members_table (ac_id ` set (accounts s)) (dv_id ` set (devices s)) (gr_id ` set (groups s)) (group_members s) \<and>
     operations_table (dv_id ` set (devices s)) (gr_id ` set (groups s)) (membership_operations s) \<and>
     events_table (dv_id ` set (devices s)) (gr_id ` set (groups s)) (group_events s) \<and>
     welcomes_table (dv_id ` set (devices s)) (gr_id ` set (groups s)) (welcome_mailbox s) \<and>
     group_cursors_table (dv_id ` set (devices s)) (gr_id ` set (groups s)) (device_group_cursors s) \<and>
     receipts_table (ev_id ` set (group_events s)) (message_receipts s) \<and>
     keyed ab_scope (abuse_counters s)"

text \<open>A new account, device or group leaves the references to the others in place.\<close>

lemma tables_mono:
  "devices_table A rows1 \<Longrightarrow> devices_table (insert a A) rows1"
  "usernames_table A rows2 \<Longrightarrow> usernames_table (insert a A) rows2"
  "members_table A D G rows3 \<Longrightarrow> members_table (insert a A) D G rows3"
  "certificates_table D rows4 \<Longrightarrow> certificates_table (insert d D) rows4"
  "challenges_table D rows5 \<Longrightarrow> challenges_table (insert d D) rows5"
  "access_table D rows6 \<Longrightarrow> access_table (insert d D) rows6"
  "refresh_table D rows7 \<Longrightarrow> refresh_table (insert d D) rows7"
  "packages_table D rows8 \<Longrightarrow> packages_table (insert d D) rows8"
  "groups_table D rows9 \<Longrightarrow> groups_table (insert d D) rows9"
  "members_table A D G rows3 \<Longrightarrow> members_table A (insert d D) G rows3"
  "operations_table D G rows10 \<Longrightarrow> operations_table (insert d D) G rows10"
  "events_table D G rows11 \<Longrightarrow> events_table (insert d D) G rows11"
  "welcomes_table D G rows12 \<Longrightarrow> welcomes_table (insert d D) G rows12"
  "group_cursors_table D G rows13 \<Longrightarrow> group_cursors_table (insert d D) G rows13"
  "members_table A D G rows3 \<Longrightarrow> members_table A D (insert g G) rows3"
  "operations_table D G rows10 \<Longrightarrow> operations_table D (insert g G) rows10"
  "events_table D G rows11 \<Longrightarrow> events_table D (insert g G) rows11"
  "welcomes_table D G rows12 \<Longrightarrow> welcomes_table D (insert g G) rows12"
  "group_cursors_table D G rows13 \<Longrightarrow> group_cursors_table D (insert g G) rows13"
  "receipts_table V rows14 \<Longrightarrow> receipts_table (insert v V) rows14"
  unfolding devices_table_def usernames_table_def members_table_def certificates_table_def
    challenges_table_def access_table_def refresh_table_def packages_table_def groups_table_def
    operations_table_def events_table_def welcomes_table_def group_cursors_table_def receipts_table_def
  by blast+

definition keeps_schema :: "backend \<Rightarrow> backend \<Rightarrow> bool" where
  "keeps_schema s s' \<longleftrightarrow> (schema_ok s \<longrightarrow> schema_ok s')"

interpretation schema: state_preorder keeps_schema
  by unfold_locales (auto simp: keeps_schema_def)

subsection \<open>Each statement\<close>

lemma schema_query [simp]: "within keeps_schema (pg_query f)"
  by (simp add: pg_query_def)

lemma schema_insert:
  assumes "\<And>s. schema_ok s \<Longrightarrow> checks s \<Longrightarrow> \<not> has_key key (key r) (get s) \<Longrightarrow> schema_ok (upd (\<lambda>rows. rows @ [r]) s)"
  shows "within keeps_schema (pg_insert checks key r get upd)" "within keeps_schema (pg_insert_ignore checks key r get upd)"
  using assms unfolding pg_insert_def pg_insert_ignore_def
  by (auto simp: keeps_schema_def intro!: schema.within_stmt split: if_splits)

lemma schema_upsert:
  assumes "\<And>s. schema_ok s \<Longrightarrow> checks s \<Longrightarrow> schema_ok (upd (upsert key r f) s)"
  shows "within keeps_schema (pg_upsert checks key r f upd)"
  using assms unfolding pg_upsert_def
  by (auto simp: keeps_schema_def intro!: schema.within_stmt split: if_splits)

lemma schema_update:
  assumes "\<And>s. schema_ok s \<Longrightarrow> schema_ok (upd (\<lambda>rows. snd (update_where p f rows)) s)"
  shows "within keeps_schema (pg_update p f get upd)"
  using assms unfolding pg_update_def by (auto simp: keeps_schema_def intro!: schema.within_stmt)

lemma schema_delete:
  assumes "\<And>s. schema_ok s \<Longrightarrow> schema_ok (upd (delete_where p) s)"
  shows "within keeps_schema (pg_delete p get upd)"
  using assms unfolding pg_delete_def by (auto simp: keeps_schema_def intro!: schema.within_stmt)

lemma schema_stmt:
  assumes "\<And>s x s'. schema_ok s \<Longrightarrow> f s = Inr (x, s') \<Longrightarrow> schema_ok s'"
  shows "within keeps_schema (db_stmt e f)"
  using assms by (auto simp: keeps_schema_def intro!: schema.within_stmt)

lemmas schema_intros = schema.within_intros schema_insert schema_upsert schema_update schema_delete schema_stmt

subsection \<open>Each operation\<close>

lemma pg_migrate_schema: "within keeps_schema (pg_migrate checksum)"
  unfolding pg_migrate_def
  by (intro schema_intros) (auto simp: schema_ok_def split: if_splits)

lemma check_rate_limit_schema: "within keeps_schema (check_rate_limit now scope maximum window)"
  unfolding check_rate_limit_def
  by (intro schema_intros) (auto simp: schema_ok_def table_simps Let_def split: if_splits)

lemma begin_challenge_schema: "within keeps_schema (begin_challenge now i c d)"
  unfolding begin_challenge_def
  by (intro schema_intros) (auto simp: schema_ok_def challenges_table_def table_simps)

lemma register_schema: "within keeps_schema (register_account_device sha256 E a k cert)"
  unfolding register_account_device_def
  by (intro schema_intros)
    (auto simp: schema_ok_def accounts_table_def devices_table_def certificates_table_def table_simps tables_mono
      list_ex_iff)

lemma issue_tokens_schema: "within keeps_schema (issue_tokens sha256 now seed d f)"
  unfolding issue_tokens_def Let_def
  by (intro schema_intros) (auto simp: schema_ok_def access_table_def refresh_table_def table_simps)

lemma complete_challenge_schema: "within keeps_schema (complete_challenge sha256 E now seed i sig)"
  unfolding complete_challenge_def
  by (intro schema_intros issue_tokens_schema) (auto simp: schema_ok_def challenges_table_def table_simps)

lemma refresh_table_replace:
  "refresh_table D rows \<Longrightarrow> h \<in> rs_hash ` set rows \<Longrightarrow>
   refresh_table D (snd (update_where p (\<lambda>x. x\<lparr>rs_used := u, rs_replaced := Some h\<rparr>) rows))"
  by (auto simp: refresh_table_def table_simps)

lemma refresh_table_revoke:
  "refresh_table D rows \<Longrightarrow> refresh_table D (snd (update_where p (\<lambda>x. x\<lparr>rs_revoked := f x\<rparr>) rows))"
  by (auto simp: refresh_table_def table_simps)

lemma rotate_refresh_schema: "within keeps_schema (rotate_refresh sha256 E now seed d t sig)"
  unfolding rotate_refresh_def Let_def
  by (intro schema_intros issue_tokens_schema)
    (auto simp: schema_ok_def has_key_iff refresh_table_replace refresh_table_revoke split: if_splits)

lemma usernames_table_release:
  assumes "usernames_table A rows"
  shows "usernames_table A (snd (update_where p (\<lambda>u. u\<lparr>un_released := Some t\<rparr>) rows))"
proof -
  have "filter (\<lambda>u. un_released u = None) (map (\<lambda>u. if p u then u\<lparr>un_released := Some t\<rparr> else u) rows) =
      filter (\<lambda>u. \<not> p u) (filter (\<lambda>u. un_released u = None) rows)"
    by (induction rows) auto
  moreover have "keyed un_account (filter (\<lambda>u. \<not> p u) (filter (\<lambda>u. un_released u = None) rows))"
    using assms by (simp add: usernames_table_def table_simps del: filter_filter)
  ultimately have "keyed un_account (filter (\<lambda>u. un_released u = None)
      (snd (update_where p (\<lambda>u. u\<lparr>un_released := Some t\<rparr>) rows)))"
    by (simp add: update_where_def del: filter_filter)
  with assms show ?thesis
    by (auto simp: usernames_table_def table_simps)
qed

lemma usernames_table_delete: "usernames_table A rows \<Longrightarrow> usernames_table A (delete_where p rows)"
  by (auto simp: usernames_table_def table_simps delete_where_def keyed_def distinct_map_filter
      inj_on_def distinct_map)

lemma usernames_table_insert:
  "usernames_table A rows \<Longrightarrow> \<not> has_key un_name n rows \<Longrightarrow>
   \<not> list_ex (\<lambda>u. un_account u = a \<and> un_released u = None) rows \<Longrightarrow> 3 \<le> length n \<Longrightarrow> length n \<le> 32 \<Longrightarrow> a \<in> A \<Longrightarrow>
   usernames_table A (rows @ [\<lparr>un_name = n, un_account = a, un_released = None\<rparr>])"
  by (auto simp: usernames_table_def table_simps list_ex_iff)

lemma free_username_schema: "within keeps_schema (free_username now a old)"
  unfolding free_username_def
  by (intro schema_intros) (auto simp: schema_ok_def usernames_table_release table_simps)

lemma select_username_schema [simp]: "within keeps_schema (select_username a)"
  by (simp add: select_username_def)

lemma claim_username_schema: "within keeps_schema (claim_username U now a n)"
  unfolding claim_username_def active_username_def
  by (intro schema_intros)
    (auto simp: schema_ok_def usernames_table_delete usernames_table_insert has_key_iff split: if_splits)

lemma change_username_schema: "within keeps_schema (change_username U now a n)"
  unfolding change_username_def active_username_def
  by (intro schema_intros free_username_schema)
    (auto simp: schema_ok_def usernames_table_delete usernames_table_insert has_key_iff)

lemma release_username_schema: "within keeps_schema (release_username now a)"
  unfolding release_username_def by (intro schema_intros free_username_schema) auto

lemma accounts_table_recovery:
  assumes acc: "accounts_table rows" and other: "\<forall>a \<in> set rows. ac_recovery_id a = Some k \<longrightarrow> ac_id a = i"
  shows "accounts_table (snd (update_where (\<lambda>a. ac_id a = i \<and> (ac_recovery_id a = None \<or> ac_recovery_id a = Some k))
       (\<lambda>a. a\<lparr>ac_recovery_id := Some k, ac_recovery_blob := b\<rparr>) rows))" (is "accounts_table (snd (update_where ?p ?f rows))")
proof -
  let ?some = "\<lambda>a. ac_recovery_id a \<noteq> None"
  define g where "g = (\<lambda>a. if ?p a then ?f a else a)"
  have "distinct (map ac_id rows) \<Longrightarrow> distinct (map ac_recovery_id (filter ?some rows)) \<Longrightarrow>
      \<forall>a \<in> set rows. ac_recovery_id a = Some k \<longrightarrow> ac_id a = i \<Longrightarrow>
      distinct (map ac_recovery_id (filter ?some (map g rows)))" for rows
  proof (induction rows)
    case (Cons a rows)
    have IH: "distinct (map ac_recovery_id (filter ?some (map g rows)))"
      using Cons by (simp split: if_splits)
    have "ac_recovery_id (g a) \<noteq> ac_recovery_id (g x)" if x: "x \<in> set rows" "?some (g a)" for x
    proof (cases "ac_id x = i")
      case True
      then have a: "ac_id a \<noteq> i"
        using Cons.prems(1) x by auto
      then have "ac_recovery_id a \<noteq> Some k"
        using Cons.prems(3) by auto
      moreover have "ac_recovery_id a \<noteq> ac_recovery_id x"
        using Cons.prems(2) x a by (auto simp: g_def image_iff split: if_splits)
      ultimately show ?thesis
        using a by (simp add: g_def)
    next
      case False
      then have "ac_recovery_id x \<noteq> Some k"
        using Cons.prems(3) x by auto
      moreover have "ac_recovery_id a \<noteq> ac_recovery_id x" if "?some a"
        using Cons.prems(2) x that by (auto simp: image_iff)
      ultimately show ?thesis
        using x False by (auto simp: g_def split: if_splits)
    qed
    with IH show ?case by auto
  qed simp
  then have "keyed ac_recovery_id (filter ?some (snd (update_where ?p ?f rows)))"
    using acc other by (simp add: accounts_table_def keyed_def update_where_def flip: g_def)
  with acc show ?thesis
    by (simp add: accounts_table_def keyed_update_where)
qed

lemma store_recovery_schema: "within keeps_schema (store_recovery_package a i b)"
  unfolding store_recovery_package_def Let_def
proof (intro schema_intros)
  fix s s' :: backend and n :: nat
  let ?p = "\<lambda>x. ac_id x = a \<and> (ac_recovery_id x = None \<or> ac_recovery_id x = Some i)"
  let ?u = "update_where ?p (\<lambda>a. a\<lparr>ac_recovery_id := Some i, ac_recovery_blob := Some b\<rparr>) (accounts s)"
  assume ok: "schema_ok s" and "(case ?u of (m, rows) \<Rightarrow>
      if 0 < m \<and> (length i \<noteq> 32 \<or> list_ex (\<lambda>x. ac_id x \<noteq> a \<and> ac_recovery_id x = Some i) (accounts s)) then Inl Database
      else Inr (m, s\<lparr>accounts := rows\<rparr>)) = Inr (n, s')"
  then have s': "s' = s\<lparr>accounts := snd ?u\<rparr>" and "fst ?u = 0 \<or> (\<forall>x \<in> set (accounts s). ac_recovery_id x = Some i \<longrightarrow> ac_id x = a)"
    by (auto simp: case_prod_beta list_ex_iff split: if_splits)
  moreover have "?u = (0, accounts s)" if "fst ?u = 0"
    using that unfolding update_where_iff(1) by (rule update_where_noop)
  ultimately consider "?u = (0, accounts s)" | "\<forall>x \<in> set (accounts s). ac_recovery_id x = Some i \<longrightarrow> ac_id x = a"
    by blast
  then show "schema_ok s'"
  proof cases
    case 1
    with ok s' show ?thesis by simp
  next
    case 2
    from accounts_table_recovery [OF _ this] ok show ?thesis
      by (simp add: schema_ok_def s' keys_update_where)
  qed
qed auto

lemma publish_key_package_schema: "within keeps_schema (publish_key_package now d i p)"
  unfolding publish_key_package_def
  by (intro schema_intros)
    (auto simp: schema_ok_def packages_table_def table_simps active_device_def list_ex_iff split: if_splits)

lemma fetch_key_package_schema: "within keeps_schema (fetch_key_package now t)"
  unfolding fetch_key_package_def
  by (intro schema_intros) (auto simp: schema_ok_def packages_table_def table_simps)

lemma members_table_insert:
  "members_table (ac_id ` set (accounts s)) (dv_id ` set (devices s)) (gr_id ` set (groups s)) rows \<Longrightarrow> member_checks m s \<Longrightarrow>
   \<not> has_key group_member_key (group_member_key m) rows \<Longrightarrow>
   members_table (ac_id ` set (accounts s)) (dv_id ` set (devices s)) (gr_id ` set (groups s)) (rows @ [m])"
  by (auto simp: members_table_def member_checks_def table_simps)

lemma insert_member_schema: "within keeps_schema (insert_member m)"
  unfolding insert_member_def
  by (intro schema_intros) (auto simp: schema_ok_def members_table_insert)

lemma create_group_schema: "within keeps_schema (pg_create_group g d a)"
  unfolding pg_create_group_def
  by (intro schema_intros insert_member_schema)
    (auto simp: schema_ok_def groups_table_def table_simps tables_mono)

lemma add_group_member_schema: "within keeps_schema (add_group_member g d a r)"
  unfolding add_group_member_def by (rule insert_member_schema)

lemma remove_member_schema: "within keeps_schema (remove_group_member now g t)"
  unfolding remove_group_member_def
  by (intro schema_intros) (auto simp: schema_ok_def members_table_def group_member_key_def table_simps)

lemma members_table_upsert:
  "members_table A D G rows \<Longrightarrow> g \<in> G \<Longrightarrow> t \<in> D \<Longrightarrow> a \<in> A \<Longrightarrow> 0 \<le> r \<Longrightarrow> r \<le> 2 \<Longrightarrow>
   members_table A D G (upsert group_member_key
     \<lparr>gm_group = g, gm_device = t, gm_account = a, gm_role = r, gm_removed = None\<rparr>
     (\<lambda>x. x\<lparr>gm_account := a, gm_role := r, gm_removed := None\<rparr>) rows)"
  unfolding members_table_def by (intro conjI ball_upsert keyed_upsert) (auto simp: group_member_key_def)

lemma upsert_member_schema: "within keeps_schema (upsert_group_member g t r)"
  unfolding upsert_group_member_def Let_def
  by (intro schema_intros) (auto simp: schema_ok_def member_checks_def has_key_iff intro!: members_table_upsert)

lemma membership_schema: "within keeps_schema (apply_membership_operation E now req)"
  unfolding apply_membership_operation_def Let_def
  by (intro schema_intros remove_member_schema upsert_member_schema)
    (auto simp: schema_ok_def operations_table_def table_simps)

lemma assert_member_schema [simp]: "within keeps_schema (assert_active_member g d)"
  unfolding assert_active_member_def by (intro schema_intros) auto

lemma upload_welcome_schema: "within keeps_schema (upload_welcome now a t g i w)"
  unfolding upload_welcome_def
  by (intro schema_intros) (auto simp: schema_ok_def welcomes_table_def table_simps)

lemma fetch_welcomes_schema: "within keeps_schema (fetch_welcomes now t l)"
  unfolding fetch_welcomes_def
  by (intro schema_intros) (auto simp: schema_ok_def welcomes_table_def table_simps)

lemma upload_event_schema: "within keeps_schema (upload_event now n e)"
  unfolding upload_event_def insert_event_def Let_def
  by (intro schema_intros)
    (auto simp: schema_ok_def events_table_def event_key_def table_simps tables_mono)

lemma insert_receipt_schema:
  "ty = 1 \<or> ty = 2 \<Longrightarrow> within keeps_schema (insert_receipt d ty e)"
  unfolding insert_receipt_def Let_def
  by (intro schema_intros)
    (auto simp: schema_ok_def receipts_table_def table_simps list_ex_iff split: if_splits)

lemma record_receipts_schema: "within keeps_schema (record_receipts d es ty)"
  unfolding record_receipts_def
  by (intro schema_intros insert_receipt_schema) auto

lemma group_cursors_table_upsert:
  "group_cursors_table D G rows \<Longrightarrow> d \<in> D \<Longrightarrow> g \<in> G \<Longrightarrow> 0 \<le> c \<Longrightarrow>
   group_cursors_table D G (upsert cursor_key \<lparr>gc_device = d, gc_group = g, gc_cursor = c\<rparr>
     (\<lambda>r. r\<lparr>gc_cursor := c\<rparr>) rows)"
  unfolding group_cursors_table_def by (intro conjI ball_upsert keyed_upsert) (auto simp: cursor_key_def)

lemma advance_cursor_schema: "within keeps_schema (advance_group_cursor d g c)"
  unfolding advance_group_cursor_def
  by (intro schema_intros) (auto simp: schema_ok_def has_key_iff intro!: group_cursors_table_upsert)

lemma cascade_tables:
  "events_table D G es \<Longrightarrow> events_table D G (delete_where (\<lambda>e. ev_id e \<in> X) es)"
  "receipts_table (ev_id ` set es) rs \<Longrightarrow>
   receipts_table (ev_id ` set (delete_where (\<lambda>e. ev_id e \<in> X) es)) (delete_where (\<lambda>r. rc_event r \<in> X) rs)"
  by (auto simp: events_table_def receipts_table_def table_simps delete_where_def)

lemma cleanup_schema: "within keeps_schema (cleanup_expired_events now b)"
  unfolding cleanup_expired_events_def Let_def
proof (intro schema_stmt)
  fix s s' :: backend and n :: nat
  define X where "X = set (map ev_id (take (nat (clamp 1 10000 b)) (filter (\<lambda>e. ev_expires e \<le> now) (group_events s))))"
  assume ok: "schema_ok s" and "Inr (length (filter (\<lambda>e. ev_id e \<in>
      set (map ev_id (take (nat (clamp 1 10000 b)) (filter (\<lambda>e. ev_expires e \<le> now) (group_events s))))) (group_events s)),
      s\<lparr>group_events := delete_where (\<lambda>e. ev_id e \<in>
          set (map ev_id (take (nat (clamp 1 10000 b)) (filter (\<lambda>e. ev_expires e \<le> now) (group_events s))))) (group_events s),
        message_receipts := delete_where (\<lambda>r. rc_event r \<in>
          set (map ev_id (take (nat (clamp 1 10000 b)) (filter (\<lambda>e. ev_expires e \<le> now) (group_events s))))) (message_receipts s)\<rparr>) =
      (Inr (n, s') :: (ApiError, nat \<times> backend) result)"
  then have "s' = s\<lparr>group_events := delete_where (\<lambda>e. ev_id e \<in> X) (group_events s),
      message_receipts := delete_where (\<lambda>r. rc_event r \<in> X) (message_receipts s)\<rparr>"
    unfolding X_def [symmetric] by simp
  with ok show "schema_ok s'"
    by (simp add: schema_ok_def cascade_tables)
qed

section \<open>What no operation takes back\<close>

text \<open>
  Challenges that were completed, refresh tokens that were used or revoked, key packages that
  were handed out and welcomes that were delivered, as sets that only grow; the cursor of a
  device in a group; the devices and groups themselves.
\<close>

definition marked :: "('r \<Rightarrow> 'k) \<Rightarrow> ('r \<Rightarrow> bool) \<Rightarrow> 'r list \<Rightarrow> 'k set" where
  "marked key p rows = key ` {r \<in> set rows. p r}"

lemma marked_append [simp]: "marked key p (rows @ [r]) = marked key p rows \<union> (if p r then {key r} else {})"
  by (auto simp: marked_def)

lemma marked_update:
  assumes "\<And>r. key (f r) = key r" "\<And>r. p r \<Longrightarrow> p (f r)"
  shows "marked key p rows \<subseteq> marked key p (snd (update_where q f rows))"
proof
  fix k assume "k \<in> marked key p rows"
  then obtain r where "r \<in> set rows" "p r" "k = key r"
    by (auto simp: marked_def)
  with assms have "(if q r then f r else r) \<in> set (snd (update_where q f rows))" "p (if q r then f r else r)"
    "k = key (if q r then f r else r)"
    by auto
  then show "k \<in> marked key p (snd (update_where q f rows))"
    unfolding marked_def by blast
qed

definition spent_challenges :: "backend \<Rightarrow> bytes set" where
  "spent_challenges s = marked ch_id (\<lambda>c. ch_consumed c \<noteq> None) (auth_challenges s)"

definition dead_tokens :: "backend \<Rightarrow> bytes set" where
  "dead_tokens s = marked rs_hash (\<lambda>r. rs_used r \<noteq> None \<or> rs_revoked r \<noteq> None) (refresh_sessions s)"

definition spent_packages :: "backend \<Rightarrow> bytes set" where
  "spent_packages s = marked kp_id (\<lambda>k. kp_consumed k \<noteq> None) (key_packages s)"

definition spent_welcomes :: "backend \<Rightarrow> bytes set" where
  "spent_welcomes s = marked we_id (\<lambda>w. we_consumed w \<noteq> None) (welcome_mailbox s)"

definition cursor_at :: "bytes \<Rightarrow> bytes \<Rightarrow> backend \<Rightarrow> int" where
  "cursor_at d g s = (case find_row cursor_key (d, g) (device_group_cursors s) of None \<Rightarrow> 0 | Some r \<Rightarrow> gc_cursor r)"

definition evolves :: "backend \<Rightarrow> backend \<Rightarrow> bool" where
  "evolves s s' \<longleftrightarrow> spent_challenges s \<subseteq> spent_challenges s' \<and> dead_tokens s \<subseteq> dead_tokens s' \<and>
     spent_packages s \<subseteq> spent_packages s' \<and> spent_welcomes s \<subseteq> spent_welcomes s' \<and>
     set (devices s) \<subseteq> set (devices s') \<and> set (groups s) \<subseteq> set (groups s') \<and>
     ((\<forall>c \<in> set (device_group_cursors s). 0 \<le> gc_cursor c) \<longrightarrow>
      (\<forall>c \<in> set (device_group_cursors s'). 0 \<le> gc_cursor c) \<and> (\<forall>d g. cursor_at d g s \<le> cursor_at d g s'))"

interpretation progress: state_preorder evolves
proof unfold_locales
  fix s t u
  show "evolves s s"
    by (simp add: evolves_def)
  assume "evolves s t" "evolves t u"
  then show "evolves s u"
    unfolding evolves_def by (intro conjI impI allI; meson order_trans)
qed

lemmas progress_defs = evolves_def spent_challenges_def dead_tokens_def spent_packages_def spent_welcomes_def cursor_at_def

lemma progress_query [simp]: "within evolves (pg_query f)"
  by (simp add: pg_query_def)

lemma progress_insert:
  assumes "\<And>s. evolves s (upd (\<lambda>rows. rows @ [r]) s)"
  shows "within evolves (pg_insert checks key r get upd)" "within evolves (pg_insert_ignore checks key r get upd)"
  using assms unfolding pg_insert_def pg_insert_ignore_def
  by (auto simp: progress.refl intro!: progress.within_stmt split: if_splits)

lemma progress_upsert:
  assumes "\<And>s. evolves s (upd (upsert key r f) s)"
  shows "within evolves (pg_upsert checks key r f upd)"
  using assms unfolding pg_upsert_def by (auto intro!: progress.within_stmt split: if_splits)

lemma progress_update:
  assumes "\<And>s. evolves s (upd (\<lambda>rows. snd (update_where p f rows)) s)"
  shows "within evolves (pg_update p f get upd)"
  using assms unfolding pg_update_def by (auto intro!: progress.within_stmt)

lemma progress_delete:
  assumes "\<And>s. evolves s (upd (delete_where p) s)"
  shows "within evolves (pg_delete p get upd)"
  using assms unfolding pg_delete_def by (auto intro!: progress.within_stmt)

lemmas progress_intros = progress.within_intros progress_insert progress_upsert progress_update progress_delete
  progress.within_stmt

lemma other_tables_progress:
  "within evolves (pg_migrate checksum)"
  "within evolves (check_rate_limit now scope maximum window)"
  "within evolves (register_account_device sha256 E a k cert)"
  "within evolves (claim_username U now a n)"
  "within evolves (change_username U now a n)"
  "within evolves (release_username now a)"
  "within evolves (store_recovery_package a i b)"
  "within evolves (insert_member m)"
  "within evolves (pg_create_group g d a)"
  "within evolves (apply_membership_operation E now req)"
  "within evolves (upload_event now v e)"
  "within evolves (record_receipts d ids ty)"
  "within evolves (cleanup_expired_events now l)"
  unfolding pg_migrate_def check_rate_limit_def register_account_device_def claim_username_def change_username_def
    release_username_def store_recovery_package_def pg_create_group_def insert_member_def apply_membership_operation_def
    upload_event_def record_receipts_def cleanup_expired_events_def free_username_def select_username_def
    remove_group_member_def upsert_group_member_def insert_event_def insert_receipt_def assert_active_member_def Let_def
  by (intro progress_intros; auto simp: progress_defs split: if_splits prod.splits)+

lemma begin_challenge_progress: "within evolves (begin_challenge now i c d)"
  unfolding begin_challenge_def by (intro progress_intros) (auto simp: progress_defs)

lemma issue_tokens_progress: "within evolves (issue_tokens sha256 now seed d f)"
  unfolding issue_tokens_def Let_def by (intro progress_intros) (auto simp: progress_defs)

lemma complete_challenge_progress: "within evolves (complete_challenge sha256 E now seed i sig)"
  unfolding complete_challenge_def
  by (intro progress_intros issue_tokens_progress) (auto simp: progress_defs marked_update)

lemma rotate_refresh_progress: "within evolves (rotate_refresh sha256 E now seed d t sig)"
  unfolding rotate_refresh_def Let_def
  by (intro progress_intros issue_tokens_progress)
    (auto simp: progress_defs marked_update elim!: subsetD [OF marked_update, rotated 2] split: if_splits)

lemma packages_progress:
  "within evolves (publish_key_package now d i p)" "within evolves (fetch_key_package now t)"
  unfolding publish_key_package_def fetch_key_package_def
  by (intro progress_intros; auto simp: progress_defs marked_update split: if_splits)+

lemma welcomes_progress:
  "within evolves (upload_welcome now a t g i w)" "within evolves (fetch_welcomes now t l)"
  unfolding upload_welcome_def fetch_welcomes_def assert_active_member_def
  by (intro progress_intros; auto simp: progress_defs marked_update split: if_splits)+

lemma cursor_upsert_progress:
  assumes "0 \<le> c" "case find_row cursor_key (d, g) (device_group_cursors s) of None \<Rightarrow> True | Some r \<Rightarrow> gc_cursor r \<le> c"
  shows "evolves s (device_group_cursors_update (upsert cursor_key \<lparr>gc_device = d, gc_group = g, gc_cursor = c\<rparr>
    (\<lambda>r. r\<lparr>gc_cursor := c\<rparr>)) s)"
proof -
  let ?r = "\<lparr>gc_device = d, gc_group = g, gc_cursor = c\<rparr>" and ?f = "\<lambda>r. r\<lparr>gc_cursor := c\<rparr>"
  let ?rows = "upsert cursor_key ?r ?f (device_group_cursors s)"
  have find: "find_row cursor_key (d', g') ?rows = (if (d', g') = (d, g) then
      Some (case find_row cursor_key (d, g) (device_group_cursors s) of None \<Rightarrow> ?r | Some x \<Rightarrow> ?f x)
      else find_row cursor_key (d', g') (device_group_cursors s))" for d' g'
    by (subst find_row_upsert) (auto simp: cursor_key_def)
  have "\<forall>x \<in> set ?rows. 0 \<le> gc_cursor x" if "\<forall>x \<in> set (device_group_cursors s). 0 \<le> gc_cursor x"
    using that by (rule ball_upsert) (simp_all add: assms(1))
  then show ?thesis
    using assms(2) by (auto simp: progress_defs find assms(1) split: option.splits)
qed

lemma advance_cursor_progress: "within evolves (advance_group_cursor d g c)"
  unfolding within_def advance_group_cursor_def assert_active_member_def pg_query_def pg_upsert_def
  by (intro allI ensures_transactionI ensures_thenI ensures_bindI)
    (auto simp: progress.refl intro!: ensures_bindI cursor_upsert_progress split: option.splits)

section \<open>Sequences of requests\<close>

text \<open>
  The operations that change rows, with the values the server draws. A request is served at a
  time on a connection of the pool, which may fail at any of its statements.
\<close>

record crypto =
  cr_sha256 :: hash
  cr_ed25519 :: ed25519
  cr_unicode :: unicode

datatype api_op =
    Migrate bytes
  | CheckRateLimit bytes int int
  | RegisterAccountDevice bytes bytes DeviceCertificate
  | BeginChallenge bytes bytes bytes
  | CompleteChallenge token_seed bytes bytes
  | RotateRefresh token_seed bytes bytes bytes
  | ClaimUsername bytes chars
  | ChangeUsername bytes chars
  | ReleaseUsername bytes
  | StoreRecoveryPackage bytes bytes bytes
  | PublishKeyPackage bytes bytes bytes
  | FetchKeyPackage bytes
  | CreateGroup bytes bytes bytes
  | AddGroupMember bytes bytes bytes int
  | ApplyMembershipOperation MembershipOperation
  | UploadWelcome bytes bytes bytes bytes bytes
  | FetchWelcomes bytes int
  | UploadEvent int UploadedEvent
  | RecordReceipts bytes "bytes list" int
  | AdvanceGroupCursor bytes bytes int
  | CleanupExpiredEvents int

definition void :: "('e, 's, 'a) db \<Rightarrow> ('e, 's, unit) db" where
  "void m = db_bind m (\<lambda>_. db_return ())"

fun api_run :: "crypto \<Rightarrow> int \<Rightarrow> api_op \<Rightarrow> unit api_db" where
  "api_run K now (Migrate c) = pg_migrate c"
| "api_run K now (CheckRateLimit scope m w) = check_rate_limit now scope m w"
| "api_run K now (RegisterAccountDevice a k cert) = register_account_device (cr_sha256 K) (cr_ed25519 K) a k cert"
| "api_run K now (BeginChallenge i c d) = void (begin_challenge now i c d)"
| "api_run K now (CompleteChallenge seed i sig) = void (complete_challenge (cr_sha256 K) (cr_ed25519 K) now seed i sig)"
| "api_run K now (RotateRefresh seed d t sig) = void (rotate_refresh (cr_sha256 K) (cr_ed25519 K) now seed d t sig)"
| "api_run K now (ClaimUsername a n) = void (claim_username (cr_unicode K) now a n)"
| "api_run K now (ChangeUsername a n) = void (change_username (cr_unicode K) now a n)"
| "api_run K now (ReleaseUsername a) = release_username now a"
| "api_run K now (StoreRecoveryPackage a i b) = store_recovery_package a i b"
| "api_run K now (PublishKeyPackage d i p) = publish_key_package now d i p"
| "api_run K now (FetchKeyPackage t) = void (fetch_key_package now t)"
| "api_run K now (CreateGroup g d a) = pg_create_group g d a"
| "api_run K now (AddGroupMember g d a r) = add_group_member g d a r"
| "api_run K now (ApplyMembershipOperation req) = void (apply_membership_operation (cr_ed25519 K) now req)"
| "api_run K now (UploadWelcome a t g i w) = upload_welcome now a t g i w"
| "api_run K now (FetchWelcomes t l) = void (fetch_welcomes now t l)"
| "api_run K now (UploadEvent v e) = void (upload_event now v e)"
| "api_run K now (RecordReceipts d es ty) = void (record_receipts d es ty)"
| "api_run K now (AdvanceGroupCursor d g c) = advance_group_cursor d g c"
| "api_run K now (CleanupExpiredEvents b) = void (cleanup_expired_events now b)"

definition on_pool :: "backend \<Rightarrow> bool list \<Rightarrow> backend conn" where
  "on_pool s fs = \<lparr>live = s, saved = None, faults = fs\<rparr>"

definition api_step :: "crypto \<Rightarrow> backend \<Rightarrow> int \<times> bool list \<times> api_op \<Rightarrow> backend" where
  "api_step K s = (\<lambda>(now, fs, op). live (snd (api_run K now op (on_pool s fs))))"

lemma schema_void: "within keeps_schema m \<Longrightarrow> within keeps_schema (void m)"
  and progress_void: "within evolves m \<Longrightarrow> within evolves (void m)"
  unfolding void_def by (auto intro: schema.within_bind progress.within_bind)

lemma api_run_schema: "within keeps_schema (api_run K now op)"
  by (cases op) (auto intro: schema_void pg_migrate_schema check_rate_limit_schema register_schema
      begin_challenge_schema complete_challenge_schema rotate_refresh_schema claim_username_schema change_username_schema
      release_username_schema store_recovery_schema publish_key_package_schema fetch_key_package_schema
      create_group_schema add_group_member_schema membership_schema upload_welcome_schema fetch_welcomes_schema
      upload_event_schema record_receipts_schema advance_cursor_schema cleanup_schema)

lemma api_run_progress: "within evolves (api_run K now op)"
  by (cases op) (auto simp: add_group_member_def intro: progress_void other_tables_progress begin_challenge_progress
      complete_challenge_progress rotate_refresh_progress packages_progress welcomes_progress advance_cursor_progress)

lemma api_step_within:
  assumes "within R (api_run K now op)"
  shows "R s (api_step K s (now, fs, op))"
  using within_run [OF assms, of "on_pool s fs"] by (simp add: api_step_def on_pool_def)

lemma api_step_schema: "schema_ok s \<Longrightarrow> schema_ok (api_step K s req)"
  using api_step_within [OF api_run_schema, of s K "fst req" "fst (snd req)" "snd (snd req)"]
  by (simp add: keeps_schema_def)

lemma api_step_progress: "evolves s (api_step K s req)"
  using api_step_within [OF api_run_progress, of s K "fst req" "fst (snd req)" "snd (snd req)"] by simp

interpretation api_runs: transition_system "api_step K" "\<lambda>_. True" schema_ok
  by unfold_locales (rule api_step_schema)

lemma api_run_evolves: "evolves s (foldl (api_step K) s reqs)"
proof (induction reqs rule: rev_induct)
  case Nil
  then show ?case by (simp add: progress.refl)
next
  case (snoc req reqs)
  then show ?case
    using progress.trans [OF snoc api_step_progress] by simp
qed

end
