(* ===== verification/Delivery_Correct.thy ===== *)
theory Delivery_Correct
  imports Delivery_Invariant
begin

text \<open>
  What the delivery backend promises: consistent tables over every sequence of requests,
  challenges that complete once, refresh families that die when a token is reused, idempotent
  uploads, complete and ordered pages, and membership changes only by a signed request of an
  active administrator.
\<close>

section \<open>Reading through the operations\<close>

lemma case_results:
  "(case ok_or e v of Inl x \<Rightarrow> f x | Inr y \<Rightarrow> g y) = (case v of None \<Rightarrow> f e | Some y \<Rightarrow> g y)"
  "(case fixed_bytes n e b of Inl x \<Rightarrow> f x | Inr y \<Rightarrow> h y) = (if length b = n then h b else f e)"
  by (cases v; simp) (simp add: fixed_bytes_def)

section \<open>Challenges\<close>

lemma in_marked: "keyed key rows \<Longrightarrow> k \<in> marked key p rows \<Longrightarrow> \<exists>r. find_row key k rows = Some r \<and> p r"
  by (auto simp: marked_def find_row_Some_iff)

lemma complete_challenge_ensures:
  "ensures (complete_challenge sha256 E now seed i sig) s (\<lambda>r s'. is_ok r \<longrightarrow> i \<in> spent_challenges s')"
proof -
  let ?upd = "\<lambda>rows. snd (update_where (\<lambda>r. ch_id r = i) (\<lambda>r. r\<lparr>ch_consumed := Some now\<rparr>) rows)"
  have spent: "i \<in> spent_challenges (auth_challenges_update ?upd s)"
    if "find_row ch_id i (auth_challenges s) = Some c" for c
    using find_row_SomeD [OF that] by (auto simp: spent_challenges_def marked_def image_iff)
  have issue: "ensures (issue_tokens sha256 now seed d None) t (\<lambda>r s'. is_ok r \<longrightarrow> i \<in> spent_challenges s')"
    if "i \<in> spent_challenges t" for d t
    using issue_tokens_progress [unfolded within_def, rule_format, of sha256 now seed d None t]
    by (rule ensures_mono) (use that in \<open>auto simp: evolves_def\<close>)
  show ?thesis
    unfolding complete_challenge_def pg_query_def pg_update_def
    by (intro ensures_transactionI ensures_bindI)
      (auto simp: spent case_results intro!: ensures_mono [OF issue] split: option.splits sum.splits)
qed

lemma spent_challenge_replay:
  assumes "schema_ok s" "i \<in> spent_challenges s"
  shows "ensures (complete_challenge sha256 E now seed i sig) s (\<lambda>r s'. r = Inl Replay \<or> r = Inl Database)"
proof -
  have ch: "challenges_table (dv_id ` set (devices s)) (auth_challenges s)"
    using assms(1) by (simp add: schema_ok_def)
  then obtain c where c: "find_row ch_id i (auth_challenges s) = Some c" "ch_consumed c \<noteq> None"
    using in_marked [of ch_id "auth_challenges s" i "\<lambda>c. ch_consumed c \<noteq> None"] assms(2)
    by (auto simp: spent_challenges_def challenges_table_def)
  then have "ch_device c \<in> dv_id ` set (devices s)"
    using ch find_row_SomeD [OF c(1)] by (auto simp: challenges_table_def)
  then obtain d where d: "find_row dv_id (ch_device c) (devices s) = Some d"
    using find_row_None [of dv_id "ch_device c" "devices s"] by (cases "find_row dv_id (ch_device c) (devices s)") auto
  show ?thesis
    unfolding complete_challenge_def pg_query_def
    by (intro ensures_transactionI ensures_bindI) (auto simp: c d)
qed

section \<open>Refresh families\<close>

definition dead_family :: "bytes \<Rightarrow> backend \<Rightarrow> bool" where
  "dead_family f s \<longleftrightarrow> (\<forall>r \<in> set (refresh_sessions s). rs_family r = f \<longrightarrow> rs_revoked r \<noteq> None)"

definition keeps_dead :: "bytes \<Rightarrow> backend \<Rightarrow> backend \<Rightarrow> bool" where
  "keeps_dead f s s' \<longleftrightarrow> (dead_family f s \<longrightarrow> dead_family f s')"

interpretation dead: state_preorder "keeps_dead f"
  by unfold_locales (auto simp: keeps_dead_def)

lemma dead_frame:
  assumes "\<And>s x s'. g s = Inr (x, s') \<Longrightarrow> refresh_sessions s' = refresh_sessions s"
  shows "within (keeps_dead f) (db_stmt e g)"
  using assms by (auto simp: keeps_dead_def dead_family_def intro!: dead.within_stmt)

lemma dead_query [simp]: "within (keeps_dead f) (pg_query g)"
  by (simp add: pg_query_def)

lemma dead_other_tables:
  "within (keeps_dead f) (pg_migrate checksum)"
  "within (keeps_dead f) (check_rate_limit now scope maximum window)"
  "within (keeps_dead f) (register_account_device sha256 E a k cert)"
  "within (keeps_dead f) (begin_challenge now i c d)"
  "within (keeps_dead f) (claim_username U now a n)"
  "within (keeps_dead f) (change_username U now a n)"
  "within (keeps_dead f) (release_username now a)"
  "within (keeps_dead f) (store_recovery_package a i b)"
  "within (keeps_dead f) (publish_key_package now d i p)"
  "within (keeps_dead f) (fetch_key_package now t)"
  "within (keeps_dead f) (insert_member m)"
  "within (keeps_dead f) (pg_create_group g d a)"
  "within (keeps_dead f) (apply_membership_operation E now req)"
  "within (keeps_dead f) (upload_welcome now a t g i w)"
  "within (keeps_dead f) (fetch_welcomes now t l)"
  "within (keeps_dead f) (upload_event now v e)"
  "within (keeps_dead f) (record_receipts d ids ty)"
  "within (keeps_dead f) (advance_group_cursor d g cur)"
  "within (keeps_dead f) (cleanup_expired_events now l)"
  unfolding pg_migrate_def check_rate_limit_def register_account_device_def claim_username_def change_username_def
    release_username_def store_recovery_package_def pg_create_group_def insert_member_def apply_membership_operation_def
    upload_event_def record_receipts_def cleanup_expired_events_def free_username_def select_username_def
    remove_group_member_def upsert_group_member_def insert_event_def insert_receipt_def assert_active_member_def Let_def
    begin_challenge_def publish_key_package_def fetch_key_package_def upload_welcome_def fetch_welcomes_def
    advance_group_cursor_def pg_insert_def pg_insert_ignore_def pg_upsert_def pg_update_def pg_delete_def
  by (intro dead.within_intros dead_frame; auto split: if_splits prod.splits)+

lemma issue_tokens_dead:
  "unwrap_or (ts_family seed) g \<noteq> f \<Longrightarrow> within (keeps_dead f) (issue_tokens sha256 now seed d g)"
  unfolding issue_tokens_def Let_def pg_insert_def
  by (intro dead.within_intros dead.within_stmt)
    (auto simp: keeps_dead_def dead_family_def split: if_splits)

lemma complete_challenge_dead:
  "ts_family seed \<noteq> f \<Longrightarrow> within (keeps_dead f) (complete_challenge sha256 E now seed i sig)"
  unfolding complete_challenge_def pg_update_def
  by (intro dead.within_intros issue_tokens_dead dead_frame) (auto simp: unwrap_or_def)

lemma issue_tokens_dead_ensures:
  assumes "unwrap_or (ts_family seed) g \<noteq> f" "dead_family f s"
  shows "ensures (issue_tokens sha256 now seed d g) s (\<lambda>_. dead_family f)"
  using issue_tokens_dead [OF assms(1), of sha256 now d, unfolded within_def, rule_format, of s]
  by (rule ensures_mono) (simp add: keeps_dead_def assms(2))

lemma dead_family_updates:
  "dead_family f s \<Longrightarrow> dead_family f (s\<lparr>refresh_sessions := snd (update_where p (\<lambda>x. x\<lparr>rs_used := u, rs_replaced := h\<rparr>) (refresh_sessions s))\<rparr>)"
  "dead_family f s \<Longrightarrow> dead_family f (refresh_sessions_update (\<lambda>rows. snd (update_where p (\<lambda>x. x\<lparr>rs_revoked := Some (k x)\<rparr>) rows)) s)"
  by (auto simp: dead_family_def)

lemma find_SomeD: "find p xs = Some x \<Longrightarrow> x \<in> set xs \<and> p x"
  by (auto simp: find_Some_iff)

lemma rotate_refresh_dead: "within (keeps_dead f) (rotate_refresh sha256 E now seed d t sig)"
proof -
  have kept: "ensures (rotate_refresh sha256 E now seed d t sig) s (\<lambda>_. dead_family f)" if dead: "dead_family f s" for s
  proof -
    have issue: "ensures (issue_tokens sha256 now seed d' (Some (rs_family r))) s (\<lambda>_. dead_family f)"
      if "r \<in> set (refresh_sessions s)" "rs_revoked r = None" for r d'
      using that dead by (intro issue_tokens_dead_ensures) (auto simp: unwrap_or_def dead_family_def)
    show ?thesis
      unfolding rotate_refresh_def Let_def pg_query_def pg_update_def
      by (intro ensures_txI ensures_bindI)
        (auto simp: dead case_results dead_family_updates dest!: find_SomeD
          intro!: ensures_bindI ensures_mono [OF issue] split: option.splits sum.splits)
  qed
  have ends: "ensures (rotate_refresh sha256 E now seed d t sig) s (\<lambda>_ _. True)" for s
    using rotate_refresh_progress [unfolded within_def, rule_format] by (rule ensures_mono) simp
  have "ensures (rotate_refresh sha256 E now seed d t sig) s (\<lambda>_. keeps_dead f s)" for s
    by (cases "dead_family f s") (auto simp: keeps_dead_def intro: ensures_mono [OF kept] ensures_mono [OF ends])
  then show ?thesis
    by (simp add: within_def)
qed

lemma reuse_kills_family:
  assumes "find (\<lambda>r. rs_hash r = token_hash sha256 (ascii ''refresh'') t \<and> rs_device r = d) (refresh_sessions s) = Some r"
    and "schema_ok s" "rs_used r \<noteq> None \<or> rs_revoked r \<noteq> None"
  shows "ensures (rotate_refresh sha256 E now seed d t sig) s
    (\<lambda>res s'. res = Inl TokenReuse \<and> dead_family (rs_family r) s' \<or> res = Inl Database \<and> s' = s)"
proof -
  have "rs_device r \<in> dv_id ` set (devices s)"
    using assms(2) find_SomeD [OF assms(1)] by (auto simp: schema_ok_def refresh_table_def)
  then obtain dv where dv: "find_row dv_id (rs_device r) (devices s) = Some dv"
    using find_row_None [of dv_id "rs_device r" "devices s"] by (cases "find_row dv_id (rs_device r) (devices s)") auto
  have "dead_family (rs_family r) (refresh_sessions_update (\<lambda>rows. snd (update_where (\<lambda>x. rs_family x = rs_family r)
      (\<lambda>x. x\<lparr>rs_revoked := Some (unwrap_or now (rs_revoked x))\<rparr>) rows)) s)"
    by (auto simp: dead_family_def)
  with assms dv show ?thesis
    unfolding rotate_refresh_def Let_def pg_query_def pg_update_def
    by (intro ensures_txI ensures_bindI) (auto simp: case_results)
qed

lemma dead_token_refused:
  assumes "dead_family f s" and fam: "\<forall>r \<in> set (refresh_sessions s).
      rs_hash r = token_hash sha256 (ascii ''refresh'') t \<and> rs_device r = d \<longrightarrow> rs_family r = f"
  shows "ensures (rotate_refresh sha256 E now seed d t sig) s (\<lambda>res s'. \<not> is_ok res)"
  using assms
  unfolding rotate_refresh_def Let_def pg_query_def pg_update_def
  by (intro ensures_txI ensures_bindI)
    (auto simp: case_results dead_family_def dest!: find_SomeD split: option.splits)

section \<open>Uploads\<close>

text \<open>The state in which an upload of \<open>e\<close> was accepted with a cursor: its row is in the table.\<close>

definition stored_event :: "UploadedEvent \<Rightarrow> int \<Rightarrow> backend \<Rightarrow> bool" where
  "stored_event e cursor s \<longleftrightarrow> (\<exists>r \<in> set (group_events s). event_key r = (ue_author_device_id e, ue_client_message_id e) \<and>
     ev_id r = ue_event_id e \<and> ev_ciphertext r = ue_ciphertext e \<and> ev_cursor r = cursor)"

text \<open>What \<open>upload_event\<close> asks of a request before it looks for a duplicate.\<close>

definition upload_allowed :: "UploadedEvent \<Rightarrow> backend \<Rightarrow> bool" where
  "upload_allowed e s \<longleftrightarrow> ue_ciphertext e \<noteq> [] \<and> length (ue_ciphertext e) \<le> 65536 \<and>
     active_member (ue_group_id e) (ue_author_device_id e) s \<and>
     (ue_event_kind e = EVENT_KIND_MLS_COMMIT \<longrightarrow> ue_correlation_id e \<noteq> None) \<and>
     (case ue_correlation_id e of None \<Rightarrow> True
      | Some c \<Rightarrow> list_ex (\<lambda>o'. mo_correlation o' = c \<and> mo_group o' = ue_group_id e \<and> mo_applied o' \<noteq> None)
          (membership_operations s))"

lemma upload_event_ensures:
  "ensures (upload_event now v e) s (\<lambda>r s'. case r of
     Inl _ \<Rightarrow> s' = s
   | Inr acc \<Rightarrow> upload_allowed e s \<and> upload_allowed e s' \<and> stored_event e (ua_cursor acc) s' \<and>
       (if ua_duplicate acc then s' = s else ua_cursor acc = v \<and> notifications s' = notifications s @ [ue_group_id e]))"
  unfolding upload_event_def insert_event_def Let_def assert_active_member_def pg_query_def pg_insert_def
  by (auto simp: upload_allowed_def stored_event_def active_member_def not_less event_key_def
     dest!: find_row_SomeD split: option.splits if_splits; blast)

lemma stored_event_find:
  assumes "schema_ok s" "stored_event e c s"
  shows "\<exists>r. find_row event_key (ue_author_device_id e, ue_client_message_id e) (group_events s) = Some r \<and>
    ev_id r = ue_event_id e \<and> ev_ciphertext r = ue_ciphertext e \<and> ev_cursor r = c"
proof -
  have "keyed event_key (group_events s)"
    using assms(1) by (simp add: schema_ok_def events_table_def)
  then show ?thesis
    using assms(2) unfolding stored_event_def by (auto simp: find_row_Some_iff)
qed

lemma upload_again:
  assumes "schema_ok s" "stored_event e c s" "upload_allowed f s"
    and "ue_author_device_id f = ue_author_device_id e" "ue_client_message_id f = ue_client_message_id e"
  shows "upload_event now v f (quiet s) =
    (if ue_event_id f = ue_event_id e \<and> ue_ciphertext f = ue_ciphertext e
     then Inr \<lparr>ua_cursor = c, ua_duplicate = True\<rparr> else Inl Conflict, quiet s)"
proof -
  obtain r where r: "find_row event_key (ue_author_device_id e, ue_client_message_id e) (group_events s) = Some r"
    "ev_id r = ue_event_id e" "ev_ciphertext r = ue_ciphertext e" "ev_cursor r = c"
    using stored_event_find [OF assms(1,2)] by blast
  show ?thesis
    using assms(3-5) r
    by (cases "ue_correlation_id f")
      (auto simp: upload_event_def assert_active_member_def pg_query_def upload_allowed_def)
qed

section \<open>Pages of events\<close>

text \<open>The events a page may hold: live ones after the cursor that satisfy \<open>p\<close>.\<close>

definition pageable :: "int \<Rightarrow> int \<Rightarrow> (event_row \<Rightarrow> bool) \<Rightarrow> backend \<Rightarrow> event_row set" where
  "pageable now after p s = {e \<in> set (group_events s). p e \<and> ev_cursor e > max after 0 \<and> ev_expires e > now}"

lemma sorted_take_split:
  fixes f :: "'a \<Rightarrow> 'b :: linorder"
  assumes "sorted_wrt (\<lambda>x y. f x < f y) xs" "x \<in> set xs" "x \<notin> set (take n xs)"
  shows "length (take n xs) = n \<and> (\<forall>y \<in> set (take n xs). f y < f x)"
proof -
  have "sorted_wrt (\<lambda>x y. f x < f y) (take n xs @ drop n xs)"
    using assms(1) by simp
  moreover have "x \<in> set (drop n xs)"
    using assms(2,3) by (metis UnE append_take_drop_id set_append)
  ultimately show ?thesis
    unfolding sorted_wrt_append by (auto simp: min_def split: if_splits)
qed

lemma event_page_spec:
  fixes p now after limit s
  assumes "keyed ev_cursor (group_events s)"
  defines "page \<equiv> event_page now after limit p (group_events s)"
  shows "sorted_wrt (\<lambda>x y. ev_cursor x < ev_cursor y) page" "set page \<subseteq> pageable now after p s"
    "length page \<le> 50"
    "e \<in> pageable now after p s \<Longrightarrow> e \<notin> set page \<Longrightarrow>
       length page = nat (clamp 1 MAX_SYNC_BATCH limit) \<and> (\<forall>x \<in> set page. ev_cursor x < ev_cursor e)"
proof -
  define all where "all = sort_key ev_cursor (filter (\<lambda>e. p e \<and> ev_cursor e > max after 0 \<and> ev_expires e > now) (group_events s))"
  have page: "page = take (nat (clamp 1 MAX_SYNC_BATCH limit)) all"
    by (simp add: page_def event_page_def all_def)
  have "keyed ev_cursor all"
    using assms(1) by (simp add: all_def table_simps)
  moreover have "sorted (map ev_cursor all)"
    by (simp add: all_def)
  ultimately have all: "sorted_wrt (\<lambda>x y. ev_cursor x < ev_cursor y) all"
    using strict_sorted_iff [of "map ev_cursor all"] by (simp add: keyed_def sorted_wrt_map)
  have set: "set all = pageable now after p s"
    by (auto simp: all_def pageable_def)
  show "sorted_wrt (\<lambda>x y. ev_cursor x < ev_cursor y) page"
    using all by (simp add: page sorted_wrt_take)
  show "set page \<subseteq> pageable now after p s"
    using set set_take_subset [of _ all] by (auto simp: page)
  show "length page \<le> 50"
    by (auto simp: page clamp_def MAX_SYNC_BATCH_def)
  show "length page = nat (clamp 1 MAX_SYNC_BATCH limit) \<and> (\<forall>x \<in> set page. ev_cursor x < ev_cursor e)"
    if "e \<in> pageable now after p s" "e \<notin> set page"
    using sorted_take_split [OF all, of e] that set unfolding page by blast
qed

definition sync_event :: "event_row \<Rightarrow> SyncEvent" where
  "sync_event e = \<lparr>se_cursor = ev_cursor e, se_event_id = ev_id e, se_event_kind = ev_kind e, se_ciphertext = ev_ciphertext e\<rparr>"

lemma sync_rows:
  assumes "schema_ok s" "set rows \<subseteq> set (group_events s)"
  shows "collect_results sync_row rows = Inr (map sync_event rows)"
proof (rule collect_results_map)
  fix e assume "e \<in> set rows"
  with assms have "length (ev_id e) = 16"
    by (auto simp: schema_ok_def events_table_def)
  then show "sync_row e = Inr (sync_event e)"
    by (simp add: sync_row_def fixed_bytes_def sync_event_def)
qed

section \<open>Membership\<close>

definition is_admin :: "bytes \<Rightarrow> bytes \<Rightarrow> backend \<Rightarrow> bool" where
  "is_admin g d s \<longleftrightarrow> (\<exists>m \<in> set (group_members s). gm_group m = g \<and> gm_device m = d \<and> gm_role m = 2 \<and> gm_removed m = None)"

definition request_payload :: "MembershipOperation \<Rightarrow> bytes" where
  "request_payload req = membership_operation_payload (mr_correlation_id req) (mr_group_id req)
     (mr_author_device_id req) (mr_target_device_id req) (mr_role req) (mr_remove req)"

definition others_same :: "bytes \<Rightarrow> bytes \<Rightarrow> backend \<Rightarrow> backend \<Rightarrow> bool" where
  "others_same g t s s' \<longleftrightarrow> (\<forall>m. group_member_key m \<noteq> (g, t) \<longrightarrow> (m \<in> set (group_members s') \<longleftrightarrow> m \<in> set (group_members s)))"

lemma author_key_admin: "author_key g d s = Some k \<Longrightarrow> is_admin g d s \<and> (\<exists>dv \<in> set (devices s). dv_id dv = d \<and> dv_key dv = k)"
  by (auto simp: author_key_def is_admin_def dest!: find_SomeD find_row_SomeD split: option.splits)

text \<open>What an accepted request did to the members: the target out, or in with the role asked for.\<close>

definition membership_effect :: "MembershipOperation \<Rightarrow> backend \<Rightarrow> backend \<Rightarrow> bool" where
  "membership_effect req s s' \<longleftrightarrow> others_same (mr_group_id req) (mr_target_device_id req) s s' \<and>
     (if mr_remove req then \<not> active_member (mr_group_id req) (mr_target_device_id req) s'
      else \<exists>m \<in> set (group_members s'). group_member_key m = (mr_group_id req, mr_target_device_id req) \<and>
             gm_role m = mr_role req \<and> gm_removed m = None)"

lemma remove_effect:
  "ensures (remove_group_member now g t) s (\<lambda>r s'. is_ok r \<longrightarrow> others_same g t s s' \<and> \<not> active_member g t s')"
  unfolding remove_group_member_def pg_update_def
  by (auto simp: others_same_def active_member_def group_member_key_def list_ex_iff split: if_splits; metis)

lemma upsert_rows:
  assumes "\<And>x. key (f x) = key x"
  shows "key m \<noteq> key r \<Longrightarrow> m \<in> set (upsert key r f rows) \<longleftrightarrow> m \<in> set rows"
    and "\<exists>m \<in> set (upsert key r f rows). key m = key r \<and> (m = r \<or> (\<exists>x \<in> set rows. m = f x))"
proof -
  show "key m \<noteq> key r \<Longrightarrow> m \<in> set (upsert key r f rows) \<longleftrightarrow> m \<in> set rows"
    using assms by (auto simp: upsert_def)
  show "\<exists>m \<in> set (upsert key r f rows). key m = key r \<and> (m = r \<or> (\<exists>x \<in> set rows. m = f x))"
  proof (cases "has_key key (key r) rows")
    case True
    then obtain x where "x \<in> set rows" "key x = key r"
      by (auto simp: has_key_iff)
    then have "f x \<in> set (upsert key r f rows)"
      using True by (auto simp: upsert_def)
    with \<open>x \<in> set rows\<close> \<open>key x = key r\<close> assms show ?thesis by metis
  qed (simp add: upsert_def)
qed

lemma upsert_effect:
  "ensures (upsert_group_member g t role) s (\<lambda>r s'. is_ok r \<longrightarrow> others_same g t s s' \<and>
     (\<exists>m \<in> set (group_members s'). group_member_key m = (g, t) \<and> gm_role m = role \<and> gm_removed m = None))"
proof -
  let ?r = "\<lambda>a. \<lparr>gm_group = g, gm_device = t, gm_account = a, gm_role = role, gm_removed = None\<rparr>"
  let ?f = "\<lambda>a x. x\<lparr>gm_account := a, gm_role := role, gm_removed := None\<rparr>"
  have key: "group_member_key (?f a x) = group_member_key x" "group_member_key (?r a) = (g, t)" for a x
    by (simp_all add: group_member_key_def)
  have "others_same g t s (group_members_update (upsert group_member_key (?r a) (?f a)) s)" for a
    using upsert_rows(1) [of group_member_key "?f a", OF key(1)] key(2) by (simp add: others_same_def)
  moreover have "\<exists>m \<in> set (upsert group_member_key (?r a) (?f a) (group_members s)).
      group_member_key m = (g, t) \<and> gm_role m = role \<and> gm_removed m = None" for a
    using upsert_rows(2) [of group_member_key "?f a" "?r a" "group_members s", OF key(1)] key(2) by auto
  ultimately show ?thesis
    unfolding upsert_group_member_def Let_def pg_query_def pg_upsert_def
    by (auto simp: case_results split: option.splits if_splits)
qed

lemma membership_frame [simp]:
  "others_same g t (membership_operations_update f s) s' = others_same g t s s'"
  "others_same g t s (membership_operations_update f s') = others_same g t s s'"
  "active_member g t (membership_operations_update f s') = active_member g t s'"
  by (simp_all add: others_same_def active_member_def)

lemma membership_ensures:
  "ensures (apply_membership_operation E now req) s (\<lambda>r s'. case r of
     Inl _ \<Rightarrow> s' = s
   | Inr repeated \<Rightarrow> is_admin (mr_group_id req) (mr_author_device_id req) s \<and>
       (\<exists>d \<in> set (devices s). dv_id d = mr_author_device_id req \<and> ed_check E (dv_key d) (request_payload req) (mr_signature req)) \<and>
       (if repeated then s' = s else membership_effect req s s'))"
  unfolding apply_membership_operation_def Let_def pg_query_def pg_insert_def pg_update_def
  by (auto simp: case_results membership_effect_def request_payload_def
     dest!: author_key_admin intro!: ensures_mono [OF remove_effect] ensures_mono [OF upsert_effect]
     split: option.splits if_splits sum.splits; blast)

section \<open>Properties\<close>

definition empty_backend :: backend where
  "empty_backend = \<lparr>schema_migrations = None, foundation = False, accounts = [], devices = [], device_certificates = [],
     usernames = [], username_cooldowns = [], auth_challenges = [], access_sessions = [], refresh_sessions = [],
     key_packages = [], groups = [], group_members = [], membership_operations = [], group_events = [],
     welcome_mailbox = [], device_group_cursors = [], message_receipts = [], abuse_counters = [], notifications = []\<rparr>"

lemma empty_schema_ok: "schema_ok empty_backend"
  by (simp add: schema_ok_def empty_backend_def accounts_table_def devices_table_def certificates_table_def
      usernames_table_def challenges_table_def access_table_def refresh_table_def packages_table_def groups_table_def
      members_table_def operations_table_def events_table_def welcomes_table_def group_cursors_table_def
      receipts_table_def table_simps)

text \<open>
  C9: the tables of the backend. After any sequence of requests, whichever of their statements
  fail, the tables satisfy the constraints of the schema: unique keys, references, one active
  username per account, one event per author and client message. And along the sequence nothing
  is taken back: completed challenges, used or revoked refresh tokens, key packages handed out
  and welcomes delivered stay so, devices and groups stay, no cursor goes back.
\<close>

theorem backend_run_consistent:
  "schema_ok (foldl (api_step K) empty_backend us) \<and>
   evolves (foldl (api_step K) empty_backend us) (foldl (api_step K) empty_backend (us @ vs))"
  using api_runs.run_inv [of empty_backend us K] empty_schema_ok api_run_evolves [of "foldl (api_step K) empty_backend us" K vs]
  by (simp add: list_all_iff)

lemma on_pool_simps [simp]: "live (on_pool s fs) = s" "saved (on_pool s fs) = None" "on_pool s [] = quiet s"
  by (simp_all add: on_pool_def quiet_def)

lemma run_schema: "schema_ok s \<Longrightarrow> schema_ok (foldl (api_step K) s reqs)"
  by (rule api_runs.run_inv) (simp_all add: list_all_iff)

lemma ensures_run: "ensures m s Q \<Longrightarrow> m (on_pool s fs) = (r, c) \<Longrightarrow> Q r (live c)"
  using ensuresD [of m s Q "on_pool s fs" r c] by simp

text \<open>
  C11: a challenge completes once. After a challenge was answered with tokens, no later request
  that answers the same challenge gets any, with whatever signature, whatever was requested in
  between and whichever statements fail: it is refused as a replay, or the database fails.
\<close>

theorem challenge_single_use:
  assumes "schema_ok s" "complete_challenge sha256 E now seed i sig (on_pool s fs) = (Inr tokens, c)"
  shows "fst (complete_challenge sha256 E later seed' i sig' (on_pool (foldl (api_step K) (live c) reqs) fs'))
    \<in> {Inl Replay, Inl Database}"
proof -
  let ?t = "foldl (api_step K) (live c) reqs"
  have "schema_ok (live c)"
    using within_run [OF complete_challenge_schema [of sha256 E now seed i sig], of "on_pool s fs"] assms
    by (simp add: keeps_schema_def)
  moreover have "i \<in> spent_challenges (live c)"
    using ensures_run [OF complete_challenge_ensures assms(2)] by simp
  ultimately have "schema_ok ?t" "i \<in> spent_challenges ?t"
    using run_schema api_run_evolves [of "live c" K reqs] by (auto simp: evolves_def)
  from ensures_run [OF spent_challenge_replay [OF this]] show ?thesis
    by (metis insertCI prod.collapse)
qed

fun draws_other_family :: "bytes \<Rightarrow> api_op \<Rightarrow> bool" where
  "draws_other_family f (CompleteChallenge seed i sig) = (ts_family seed \<noteq> f)"
| "draws_other_family f op = True"

lemma api_run_dead: "draws_other_family f op \<Longrightarrow> within (keeps_dead f) (api_run K now op)"
proof -
  assume f: "draws_other_family f op"
  show ?thesis
    using f by (cases op) (auto simp: add_group_member_def void_def
        intro!: dead.within_bind dead_other_tables complete_challenge_dead rotate_refresh_dead)
qed

lemma run_dead:
  "dead_family f s \<Longrightarrow> list_all (\<lambda>req. draws_other_family f (snd (snd req))) reqs \<Longrightarrow>
   dead_family f (foldl (api_step K) s reqs)"
proof (induction reqs arbitrary: s)
  case (Cons req reqs)
  then have "dead_family f (api_step K s req)"
    using api_step_within [OF api_run_dead, of f "snd (snd req)" s K "fst req" "fst (snd req)"]
    by (simp add: keeps_dead_def)
  with Cons show ?case by simp
qed simp


text \<open>
  C13: uploads are idempotent. When an upload is accepted, its event is stored under the cursor
  that is returned; the same upload again returns the same cursor, marked as a duplicate, and
  changes nothing; another event under the same author and client message is refused.
\<close>

theorem upload_event_idempotent:
  assumes "schema_ok s" "upload_event now v e (on_pool s fs) = (Inr acc, c)"
  shows "stored_event e (ua_cursor acc) (live c) \<and>
    upload_event later v' e (quiet (live c)) = (Inr \<lparr>ua_cursor = ua_cursor acc, ua_duplicate = True\<rparr>, quiet (live c)) \<and>
    (upload_allowed f (live c) \<and> ue_author_device_id f = ue_author_device_id e \<and>
     ue_client_message_id f = ue_client_message_id e \<and>
     (ue_event_id f \<noteq> ue_event_id e \<or> ue_ciphertext f \<noteq> ue_ciphertext e) \<longrightarrow>
     upload_event later v' f (quiet (live c)) = (Inl Conflict, quiet (live c)))"
proof -
  have "schema_ok (live c)"
    using within_run [OF upload_event_schema [of now v e], of "on_pool s fs"] assms by (simp add: keeps_schema_def)
  moreover have "upload_allowed e (live c)" "stored_event e (ua_cursor acc) (live c)"
    using ensures_run [OF upload_event_ensures assms(2)] by simp_all
  ultimately show ?thesis
    by (auto simp: upload_again)
qed

lemma group_page_rows:
  assumes "schema_ok s"
  defines "rows \<equiv> \<lambda>now after limit g. event_page now after limit (\<lambda>e. ev_group e = g) (group_events s)"
  shows "sync_group now d g after limit (quiet s) =
      (if active_member g d s then Inr (map sync_event (rows now after limit g)) else Inl Unauthorized, quiet s)"
    and "set (rows now after limit g) \<subseteq> pageable now after (\<lambda>e. ev_group e = g) s"
    and "length (rows now after limit g) \<le> 50"
    and "sorted_wrt (\<lambda>x y. ev_cursor x < ev_cursor y) (rows now after limit g)"
    and "e \<in> pageable now after (\<lambda>e. ev_group e = g) s \<Longrightarrow> e \<notin> set (rows now after limit g) \<Longrightarrow>
      rows now after limit g \<noteq> [] \<and> (\<forall>x \<in> set (rows now after limit g). ev_cursor x < ev_cursor e)"
proof -
  let ?p = "\<lambda>e. ev_group e = g"
  have "keyed ev_cursor (group_events s)"
    using assms(1) by (simp add: schema_ok_def events_table_def)
  note page = event_page_spec [OF this, where now = now and after = after and limit = limit and p = ?p, folded rows_def]
  show "set (rows now after limit g) \<subseteq> pageable now after ?p s" "length (rows now after limit g) \<le> 50"
    "sorted_wrt (\<lambda>x y. ev_cursor x < ev_cursor y) (rows now after limit g)"
    using page by (simp_all add: rows_def)
  then have "collect_results sync_row (rows now after limit g) = Inr (map sync_event (rows now after limit g))"
    using sync_rows [OF assms(1)] by (auto simp: pageable_def)
  then show "sync_group now d g after limit (quiet s) =
      (if active_member g d s then Inr (map sync_event (rows now after limit g)) else Inl Unauthorized, quiet s)"
    by (simp add: sync_group_def assert_active_member_def pg_query_def rows_def)
  assume "e \<in> pageable now after ?p s" "e \<notin> set (rows now after limit g)"
  then have "length (rows now after limit g) = nat (clamp 1 MAX_SYNC_BATCH limit) \<and>
      (\<forall>x \<in> set (rows now after limit g). ev_cursor x < ev_cursor e)"
    using page(4) by (simp add: rows_def)
  then show "rows now after limit g \<noteq> [] \<and> (\<forall>x \<in> set (rows now after limit g). ev_cursor x < ev_cursor e)"
    by (auto simp: clamp_def MAX_SYNC_BATCH_def split: if_splits)
qed



section \<open>Examples\<close>

text \<open>
  A server with one device: it has an open challenge, a refresh token that it has exchanged for
  a second one, and a group that holds one event.
\<close>

definition demo_crypto :: crypto where
  "demo_crypto = \<lparr>cr_sha256 = plain_hash, cr_ed25519 = plain_ed25519, cr_unicode = ascii_unicode\<rparr>"

definition demo_key :: bytes where "demo_key = replicate 32 2"
definition demo_device :: bytes where "demo_device = replicate 16 3"
definition demo_group :: bytes where "demo_group = replicate 16 4"
definition demo_challenge_id :: bytes where "demo_challenge_id = replicate 16 5"
definition demo_family :: bytes where "demo_family = replicate 16 6"

definition demo_seed :: "8 word \<Rightarrow> token_seed" where
  "demo_seed n = \<lparr>ts_access = replicate 32 n, ts_refresh = replicate 32 (n + 1), ts_family = replicate 16 n\<rparr>"

definition demo_answer :: bytes where
  "demo_answer = ed_sign plain_ed25519 demo_key (auth_challenge_payload demo_challenge_id (replicate 32 6))"

definition demo_token :: "8 word \<Rightarrow> bytes" where
  "demo_token n = token_hash plain_hash (ascii ''refresh'') (replicate 32 n)"

definition demo_proof :: "8 word \<Rightarrow> bytes" where
  "demo_proof n = ed_sign plain_ed25519 demo_key (refresh_proof_payload (replicate 32 n))"

definition demo_event :: "8 word \<Rightarrow> UploadedEvent" where
  "demo_event n = \<lparr>ue_event_id = replicate 16 n, ue_group_id = demo_group, ue_author_device_id = demo_device,
     ue_client_message_id = replicate 16 9, ue_event_kind = 1, ue_ciphertext = [n], ue_correlation_id = None\<rparr>"

definition demo_backend :: backend where
  "demo_backend = empty_backend\<lparr>foundation := True,
     accounts := [\<lparr>ac_id = replicate 32 1, ac_root_key = replicate 32 1, ac_recovery_id = None, ac_recovery_blob = None\<rparr>],
     devices := [\<lparr>dv_id = demo_device, dv_account = replicate 32 1, dv_key = demo_key, dv_revoked = None\<rparr>],
     auth_challenges := [\<lparr>ch_id = demo_challenge_id, ch_device = demo_device, ch_challenge = replicate 32 6,
       ch_expires = 120, ch_consumed = None\<rparr>],
     refresh_sessions := [
       \<lparr>rs_hash = demo_token 21, rs_family = demo_family, rs_device = demo_device, rs_replaced = Some (demo_token 31),
        rs_expires = 1000, rs_used = Some 1, rs_revoked = None\<rparr>,
       \<lparr>rs_hash = demo_token 31, rs_family = demo_family, rs_device = demo_device, rs_replaced = None,
        rs_expires = 1000, rs_used = None, rs_revoked = None\<rparr>],
     groups := [\<lparr>gr_id = demo_group, gr_creator = demo_device\<rparr>],
     group_members := [\<lparr>gm_group = demo_group, gm_device = demo_device, gm_account = replicate 32 1, gm_role = 2,
       gm_removed = None\<rparr>],
     group_events := [\<lparr>ev_cursor = 7, ev_id = replicate 16 8, ev_group = demo_group, ev_author = demo_device,
       ev_client_id = replicate 16 8, ev_correlation = None, ev_kind = 1, ev_ciphertext = [8], ev_expires = 1000\<rparr>]\<rparr>"

lemma demo_tokens: "length (demo_token n) = 32" "demo_token 21 \<noteq> demo_token 31"
proof -
  show "demo_token 21 \<noteq> demo_token 31" by code_simp
qed (simp add: demo_token_def token_hash_def)

lemma demo_schema_ok: "schema_ok demo_backend"
  by (simp add: schema_ok_def demo_backend_def empty_backend_def accounts_table_def devices_table_def certificates_table_def
      usernames_table_def challenges_table_def access_table_def refresh_table_def packages_table_def groups_table_def
      members_table_def operations_table_def events_table_def welcomes_table_def group_cursors_table_def
      receipts_table_def keyed_def demo_key_def demo_device_def demo_group_def demo_challenge_id_def demo_family_def
      demo_tokens)

theorem challenge_single_use_witness:
  "is_ok (fst (complete_challenge plain_hash plain_ed25519 2 (demo_seed 40) demo_challenge_id demo_answer (on_pool demo_backend []))) \<and>
   fst (complete_challenge plain_hash plain_ed25519 3 (demo_seed 70) demo_challenge_id demo_answer
     (on_pool (foldl (api_step demo_crypto) (live (snd (complete_challenge plain_hash plain_ed25519 2 (demo_seed 40)
       demo_challenge_id demo_answer (on_pool demo_backend [])))) [(3, [], FetchKeyPackage demo_device)]) [False, True]))
    \<in> {Inl Replay, Inl Database}"
proof -
  let ?run = "complete_challenge plain_hash plain_ed25519 2 (demo_seed 40) demo_challenge_id demo_answer (on_pool demo_backend [])"
  have ok: "is_ok (fst ?run)"
    by code_simp
  then obtain tokens where "?run = (Inr tokens, snd ?run)"
    by (metis is_ok_iff prod.collapse)
  from ok challenge_single_use [OF demo_schema_ok this] show ?thesis by blast
qed


theorem upload_event_idempotent_witness:
  "let run = upload_event 3 9 (demo_event 1) (on_pool demo_backend []); s = live (snd run)
   in fst run = Inr \<lparr>ua_cursor = 9, ua_duplicate = False\<rparr> \<and> stored_event (demo_event 1) 9 s \<and>
     upload_event 4 10 (demo_event 1) (quiet s) = (Inr \<lparr>ua_cursor = 9, ua_duplicate = True\<rparr>, quiet s) \<and>
     upload_event 4 10 (demo_event 2) (quiet s) = (Inl Conflict, quiet s)"
proof -
  let ?run = "upload_event 3 9 (demo_event 1) (on_pool demo_backend [])"
  have ok: "fst ?run = Inr \<lparr>ua_cursor = 9, ua_duplicate = False\<rparr>"
    by code_simp
  then have run: "?run = (Inr \<lparr>ua_cursor = 9, ua_duplicate = False\<rparr>, snd ?run)"
    by (metis prod.collapse)
  have "upload_allowed (demo_event 2) (live (snd ?run)) \<and> ue_author_device_id (demo_event 2) = ue_author_device_id (demo_event 1) \<and>
     ue_client_message_id (demo_event 2) = ue_client_message_id (demo_event 1) \<and>
     (ue_event_id (demo_event 2) \<noteq> ue_event_id (demo_event 1) \<or> ue_ciphertext (demo_event 2) \<noteq> ue_ciphertext (demo_event 1))"
    by code_simp
  with ok upload_event_idempotent [OF demo_schema_ok run, where later = 4 and v' = 10 and f = "demo_event 2"]
  show ?thesis
    by (simp add: Let_def)
qed


end
