(* ===== verification/Core_Api.thy ===== *)
theory Core_Api
  imports Delivery_Correct Protocol
begin

text \<open>
  The delivery service, \<open>services/core-api/src/main.rs\<close>: the reader of request bodies, the
  dispatch of a frame to the backend, the HTTP answers and the handler that puts them together.
  What a request meets is its argument: the time at each of its database calls, the random
  values drawn, the statements that fail, whether \<open>LISTEN\<close> works and what other requests do
  while a long poll waits.
\<close>

section \<open>Reading a request body\<close>

definition rd_new :: "bytes \<Rightarrow> slice_reader" where
  "rd_new b = \<lparr>buf = b, pos = 0\<rparr>"

definition rd_take :: "nat \<Rightarrow> slice_reader \<Rightarrow> (ApiError, bytes \<times> slice_reader) result" where
  "rd_take n r =
     and_then (ok_or InvalidInput (checked_add (pos r) n)) (\<lambda>stop.
     and_then (ok_or InvalidInput (slice_get (buf r) (pos r) stop)) (\<lambda>v.
     Inr (v, r\<lparr>pos := stop\<rparr>)))"

definition rd_array :: "nat \<Rightarrow> slice_reader \<Rightarrow> (ApiError, bytes \<times> slice_reader) result" where
  "rd_array n r = and_then (rd_take n r) (\<lambda>(b, r). if length b = n then Inr (b, r) else Inl InvalidInput)"

definition rd_u8 :: "slice_reader \<Rightarrow> (ApiError, byte \<times> slice_reader) result" where
  "rd_u8 r = and_then (rd_take 1 r) (\<lambda>(b, r). Inr (hd b, r))"

definition rd_i16 :: "slice_reader \<Rightarrow> (ApiError, int \<times> slice_reader) result" where
  "rd_i16 r = and_then (rd_array 2 r) (\<lambda>(b, r). Inr (sint (from_be16 b), r))"

definition rd_u64 :: "slice_reader \<Rightarrow> (ApiError, u64 \<times> slice_reader) result" where
  "rd_u64 r = and_then (rd_array 8 r) (\<lambda>(b, r). Inr (from_be64 b, r))"

definition rd_rest :: "slice_reader \<Rightarrow> bytes \<times> slice_reader" where
  "rd_rest r = (drop (pos r) (buf r), r\<lparr>pos := length (buf r)\<rparr>)"

definition rd_remaining_len :: "slice_reader \<Rightarrow> nat" where
  "rd_remaining_len r = length (buf r) - pos r"

definition rd_finish :: "slice_reader \<Rightarrow> (ApiError, unit) result" where
  "rd_finish r = (if pos r = length (buf r) then Inr () else Inl InvalidInput)"

section \<open>Dispatch\<close>

text \<open>
  What one dispatch draws: the time at the check of the access token and at the operation, the
  random values and the value of the identity sequence.
\<close>

record draws =
  dr_auth_now :: int
  dr_now :: int
  dr_challenge_id :: bytes
  dr_challenge :: bytes
  dr_tokens :: token_seed
  dr_nextval :: int

type_synonym reply = "FrameType \<times> bytes"

subsection \<open>Registration and sign-in\<close>

definition read_hello :: "bytes \<Rightarrow> (ApiError, bytes \<times> bytes \<times> DeviceCertificate) result" where
  "read_hello v =
     (let body = rd_new v in
      and_then (rd_array 32 body) (\<lambda>(account_id, body).
      and_then (rd_array 32 body) (\<lambda>(root_public_key, body).
      and_then (rd_array 16 body) (\<lambda>(device_id, body).
      and_then (rd_array 32 body) (\<lambda>(device_public_key, body).
      and_then (rd_u64 body) (\<lambda>(issued_at, body).
      and_then (rd_array 64 body) (\<lambda>(signature, body).
      and_then (rd_finish body) (\<lambda>_.
      Inr (account_id, root_public_key, \<lparr>dc_device_id = device_id, dc_device_public_key = device_public_key,
        dc_issued_at = issued_at, dc_signature = signature\<rparr>)))))))))"

definition dispatch_client_hello :: "crypto \<Rightarrow> TransportFrame \<Rightarrow> reply api_db" where
  "dispatch_client_hello K frame =
     db_bind (db_lift (read_hello (tf_body frame))) (\<lambda>(account_id, root_public_key, cert).
     db_then (register_account_device (cr_sha256 K) (cr_ed25519 K) account_id root_public_key cert)
     (db_return (ServerHello, [])))"

definition dispatch_auth_challenge :: "draws \<Rightarrow> TransportFrame \<Rightarrow> reply api_db" where
  "dispatch_auth_challenge w frame =
     db_bind (db_lift (rd_array 16 (rd_new (tf_body frame)))) (\<lambda>(device_id, body).
     db_bind (begin_challenge (dr_now w) (dr_challenge_id w) (dr_challenge w) device_id) (\<lambda>challenge.
     db_then (db_lift (rd_finish body))
     (db_return (AuthChallenge, cl_challenge_id challenge @ cl_challenge challenge))))"

definition dispatch_auth_response :: "crypto \<Rightarrow> draws \<Rightarrow> TransportFrame \<Rightarrow> reply api_db" where
  "dispatch_auth_response K w frame =
     (let body = rd_new (tf_body frame) in
      db_bind
        (if rd_remaining_len body = 80 then
           db_bind (db_lift (rd_array 16 body)) (\<lambda>(challenge_id, body).
           db_bind (db_lift (rd_array 64 body)) (\<lambda>(signature, body).
           db_bind (complete_challenge (cr_sha256 K) (cr_ed25519 K) (dr_now w) (dr_tokens w) challenge_id signature) (\<lambda>tokens.
           db_return (tokens, body))))
         else if rd_remaining_len body = 112 then
           db_bind (db_lift (rd_array 16 body)) (\<lambda>(device_id, body).
           db_bind (db_lift (rd_array 32 body)) (\<lambda>(refresh_token, body).
           db_bind (db_lift (rd_array 64 body)) (\<lambda>(signature, body).
           db_bind (rotate_refresh (cr_sha256 K) (cr_ed25519 K) (dr_now w) (dr_tokens w) device_id refresh_token signature) (\<lambda>tokens.
           db_return (tokens, body)))))
         else db_fail InvalidInput) (\<lambda>(tokens, body).
      db_then (db_lift (rd_finish body))
      (db_return (AuthAccepted, st_access_token tokens @ st_refresh_token tokens))))"

subsection \<open>Uploads\<close>

definition read_correlation :: "slice_reader \<Rightarrow> (ApiError, bytes option \<times> slice_reader) result" where
  "read_correlation body =
     and_then (rd_u8 body) (\<lambda>(tag, body).
     if tag = 0 then Inr (None, body)
     else if tag = 1 then and_then (rd_array 16 body) (\<lambda>(c, body). Inr (Some c, body))
     else Inl InvalidInput)"

definition read_event :: "bytes \<Rightarrow> bytes \<Rightarrow> slice_reader \<Rightarrow> (ApiError, UploadedEvent) result" where
  "read_event author_device_id client_message_id body =
     and_then (rd_array 16 body) (\<lambda>(group_id, body).
     and_then (rd_array 16 body) (\<lambda>(event_id, body).
     and_then (rd_i16 body) (\<lambda>(event_kind, body).
     and_then (read_correlation body) (\<lambda>(correlation_id, body).
     Inr \<lparr>ue_event_id = event_id, ue_group_id = group_id, ue_author_device_id = author_device_id,
          ue_client_message_id = client_message_id, ue_event_kind = event_kind,
          ue_ciphertext = fst (rd_rest body), ue_correlation_id = correlation_id\<rparr>))))"

definition read_membership :: "bytes \<Rightarrow> slice_reader \<Rightarrow> (ApiError, MembershipOperation) result" where
  "read_membership author_device_id body =
     and_then (rd_array 16 body) (\<lambda>(correlation_id, body).
     and_then (rd_array 16 body) (\<lambda>(group_id, body).
     and_then (rd_array 16 body) (\<lambda>(target_device_id, body).
     and_then (rd_u8 body) (\<lambda>(role, body).
     and_then (rd_u8 body) (\<lambda>(remove, body).
     and_then (if remove = 0 then Inr False else if remove = 1 then Inr True else Inl InvalidInput) (\<lambda>remove.
     and_then (rd_array 64 body) (\<lambda>(signature, body).
     and_then (rd_finish body) (\<lambda>_.
     Inr \<lparr>mr_correlation_id = correlation_id, mr_group_id = group_id, mr_author_device_id = author_device_id,
          mr_target_device_id = target_device_id, mr_role = uint role, mr_remove = remove,
          mr_signature = signature\<rparr>))))))))"

definition upload_operation ::
    "crypto \<Rightarrow> draws \<Rightarrow> bytes \<Rightarrow> bytes \<Rightarrow> byte \<Rightarrow> slice_reader \<Rightarrow> bytes api_db" where
  "upload_operation K w client_message_id author operation body =
     (if operation = 1 then
        db_bind (db_lift (read_event author client_message_id body)) (\<lambda>event.
        db_bind (upload_event (dr_now w) (dr_nextval w) event) (\<lambda>accepted.
        db_return ([operation] @ be64 (word_of_int (ua_cursor accepted)) @ [if ua_duplicate accepted then 1 else 0])))
      else if operation = 2 then
        db_bind (db_lift (rd_array 16 body)) (\<lambda>(package_id, body).
        db_then (publish_key_package (dr_now w) author package_id (fst (rd_rest body)))
        (db_return [operation]))
      else if operation = 3 then
        db_bind (db_lift (rd_array 16 body)) (\<lambda>(group_id, body).
        db_then (db_lift (rd_finish body))
        (db_bind (device_account_id author) (\<lambda>account_id.
         db_then (pg_create_group group_id author account_id) (db_return [operation]))))
      else if operation = 4 then
        db_bind (db_lift (read_membership author body)) (\<lambda>request.
        db_bind (apply_membership_operation (cr_ed25519 K) (dr_now w) request) (\<lambda>repeated.
        db_return ([operation] @ [if repeated then 1 else 0])))
      else if operation = 5 then
        db_bind (db_lift (rd_array 16 body)) (\<lambda>(target, body).
        db_bind (db_lift (rd_array 16 body)) (\<lambda>(group_id, body).
        db_bind (db_lift (rd_array 16 body)) (\<lambda>(welcome_id, body).
        db_then (upload_welcome (dr_now w) author target group_id welcome_id (fst (rd_rest body)))
        (db_return [operation]))))
      else if operation = 6 then
        db_bind (db_lift (rd_array 32 body)) (\<lambda>(recovery_identifier, body).
        db_bind (device_account_id author) (\<lambda>account_id.
        db_then (store_recovery_package account_id recovery_identifier (fst (rd_rest body)))
        (db_return [operation])))
      else db_fail InvalidInput)"

definition dispatch_upload :: "crypto \<Rightarrow> draws \<Rightarrow> TransportFrame \<Rightarrow> reply api_db" where
  "dispatch_upload K w frame =
     db_bind (db_lift (rd_array 32 (rd_new (tf_body frame)))) (\<lambda>(token, body).
     db_bind (authenticate_access (cr_sha256 K) (dr_auth_now w) token) (\<lambda>author_device_id.
     db_bind (db_lift (rd_u8 body)) (\<lambda>(operation, body).
     db_bind (upload_operation K w (tf_client_message_id frame) author_device_id operation body) (\<lambda>encoded.
     db_return (UploadAccepted, encoded)))))"

subsection \<open>Synchronisation\<close>

definition sync_event_bytes :: "SyncEvent \<Rightarrow> bytes" where
  "sync_event_bytes e = be64 (word_of_int (se_cursor e)) @ se_event_id e @ be_i16 (se_event_kind e) @
     be32 (word_of_nat (length (se_ciphertext e))) @ se_ciphertext e"

definition welcome_bytes :: "bytes \<times> bytes \<times> bytes \<Rightarrow> bytes" where
  "welcome_bytes = (\<lambda>(welcome_id, group_id, welcome).
     welcome_id @ group_id @ be32 (word_of_nat (length welcome)) @ welcome)"

definition read_page :: "byte \<Rightarrow> slice_reader \<Rightarrow> (ApiError, bytes option \<times> int \<times> int) result" where
  "read_page operation body =
     and_then (if operation = 0 then and_then (rd_array 16 body) (\<lambda>(g, body). Inr (Some g, body))
               else Inr (None, body)) (\<lambda>(group_id, body).
     and_then (rd_u64 body) (\<lambda>(after, body).
     and_then (rd_u8 body) (\<lambda>(limit, body).
     and_then (rd_finish body) (\<lambda>_.
     Inr (group_id, as_i64 after, uint limit)))))"

definition sync_operation :: "draws \<Rightarrow> bytes \<Rightarrow> byte \<Rightarrow> slice_reader \<Rightarrow> bytes api_db" where
  "sync_operation w device_id operation body =
     (if operation = 0 \<or> operation = 1 then
        db_bind (db_lift (read_page operation body)) (\<lambda>(group_id, after, limit).
        db_bind (case group_id of
            Some g \<Rightarrow> sync_group (dr_now w) device_id g after limit
          | None \<Rightarrow> sync_global (dr_now w) device_id after limit) (\<lambda>events.
        db_return ([operation, word_of_nat (length events)] @ concat (map sync_event_bytes events))))
      else if operation = 2 then
        db_bind (db_lift (rd_array 16 body)) (\<lambda>(target, body).
        db_then (db_lift (rd_finish body))
        (db_bind (fetch_key_package (dr_now w) target) (\<lambda>found.
         case found of
           Some (i, pkg) \<Rightarrow> db_return ([operation, 1] @ i @ pkg)
         | None \<Rightarrow> db_return [operation, 0])))
      else if operation = 3 then
        db_bind (db_lift (rd_u8 body)) (\<lambda>(limit, body).
        db_then (db_lift (rd_finish body))
        (db_bind (fetch_welcomes (dr_now w) device_id (uint limit)) (\<lambda>welcomes.
         db_return ([operation, word_of_nat (length welcomes)] @ concat (map welcome_bytes welcomes)))))
      else db_fail InvalidInput)"

definition dispatch_sync :: "crypto \<Rightarrow> draws \<Rightarrow> TransportFrame \<Rightarrow> reply api_db" where
  "dispatch_sync K w frame =
     db_bind (db_lift (rd_array 32 (rd_new (tf_body frame)))) (\<lambda>(token, body).
     db_bind (authenticate_access (cr_sha256 K) (dr_auth_now w) token) (\<lambda>device_id.
     db_bind (db_lift (rd_u8 body)) (\<lambda>(operation, body).
     db_bind (sync_operation w device_id operation body) (\<lambda>encoded.
     db_return (SyncBatch, encoded)))))"

subsection \<open>Recovery packages and receipts\<close>

definition read_recovery_request :: "bytes \<Rightarrow> (ApiError, bytes) result" where
  "read_recovery_request v =
     and_then (rd_u8 (rd_new v)) (\<lambda>(operation, body).
     if operation \<noteq> 1 then Inl InvalidInput
     else and_then (rd_array 32 body) (\<lambda>(recovery_identifier, body).
       and_then (rd_finish body) (\<lambda>_. Inr recovery_identifier)))"

definition dispatch_directory :: "TransportFrame \<Rightarrow> reply api_db" where
  "dispatch_directory frame =
     db_bind (db_lift (read_recovery_request (tf_body frame))) (\<lambda>recovery_identifier.
     db_bind (fetch_recovery_package recovery_identifier) (\<lambda>found.
     db_return (RelayDirectoryResponse, [1] @ (case found of Some blob \<Rightarrow> [1] @ blob | None \<Rightarrow> [0]))))"

fun rd_arrays :: "nat \<Rightarrow> nat \<Rightarrow> slice_reader \<Rightarrow> (ApiError, bytes list \<times> slice_reader) result" where
  "rd_arrays n 0 r = Inr ([], r)"
| "rd_arrays n (Suc k) r =
     and_then (rd_array n r) (\<lambda>(x, r).
     and_then (rd_arrays n k r) (\<lambda>(xs, r). Inr (x # xs, r)))"

definition read_receipts :: "slice_reader \<Rightarrow> (ApiError, bytes list) result" where
  "read_receipts body =
     and_then (rd_u8 body) (\<lambda>(count, body).
     if unat count > 50 then Inl InvalidInput
     else and_then (rd_arrays 16 (unat count) body) (\<lambda>(event_ids, body).
       and_then (rd_finish body) (\<lambda>_. Inr event_ids)))"

definition dispatch_receipts :: "crypto \<Rightarrow> draws \<Rightarrow> TransportFrame \<Rightarrow> reply api_db" where
  "dispatch_receipts K w frame =
     db_bind (db_lift (rd_array 32 (rd_new (tf_body frame)))) (\<lambda>(token, body).
     db_bind (authenticate_access (cr_sha256 K) (dr_auth_now w) token) (\<lambda>device_id.
     db_bind (db_lift (read_receipts body)) (\<lambda>event_ids.
     db_then (record_receipts device_id event_ids (if tf_kind frame = DeliveryReceiptBatch then 1 else 2))
     (db_return (tf_kind frame, [])))))"

definition dispatch :: "crypto \<Rightarrow> draws \<Rightarrow> TransportFrame \<Rightarrow> TransportFrame api_db" where
  "dispatch K w frame =
     db_bind (case tf_kind frame of
         ClientHello \<Rightarrow> dispatch_client_hello K frame
       | AuthChallenge \<Rightarrow> dispatch_auth_challenge w frame
       | AuthResponse \<Rightarrow> dispatch_auth_response K w frame
       | UploadEnvelope \<Rightarrow> dispatch_upload K w frame
       | SyncRequest \<Rightarrow> dispatch_sync K w frame
       | RelayDirectoryRequest \<Rightarrow> dispatch_directory frame
       | DeliveryReceiptBatch \<Rightarrow> dispatch_receipts K w frame
       | ReadReceiptBatch \<Rightarrow> dispatch_receipts K w frame
       | Ping \<Rightarrow> db_return (Pong, tf_body frame)
       | _ \<Rightarrow> db_fail InvalidInput) (\<lambda>(kind, body).
     db_return \<lparr>tf_version = PROTOCOL_VERSION, tf_kind = kind,
       tf_client_message_id = tf_client_message_id frame, tf_ttl_seconds = 0, tf_body = body\<rparr>)"

section \<open>Answers\<close>

datatype StatusCode =
    OK | BAD_REQUEST | UNAUTHORIZED | CONFLICT | TOO_MANY_REQUESTS | INTERNAL_SERVER_ERROR | SERVICE_UNAVAILABLE

record http_response =
  hr_status :: StatusCode
  hr_content_type :: string
  hr_body :: bytes

fun map_error :: "ApiError \<Rightarrow> StatusCode \<times> ErrorCode" where
  "map_error Expired = (UNAUTHORIZED, CodeReplay)"
| "map_error Replay = (CONFLICT, CodeReplay)"
| "map_error TokenReuse = (CONFLICT, CodeReplay)"
| "map_error Conflict = (CONFLICT, CodeDuplicate)"
| "map_error Unauthorized = (UNAUTHORIZED, CodeMalformed)"
| "map_error InvalidCredentials = (UNAUTHORIZED, CodeMalformed)"
| "map_error CursorRegression = (CONFLICT, CodeCursorRegression)"
| "map_error InvalidInput = (BAD_REQUEST, CodeMalformed)"
| "map_error Database = (INTERNAL_SERVER_ERROR, CodeMalformed)"

text \<open>\<open>frame.encode().unwrap_or_default()\<close>: no bytes when the frame does not encode.\<close>

definition cbor_response :: "StatusCode \<Rightarrow> TransportFrame \<Rightarrow> http_response" where
  "cbor_response status frame =
     \<lparr>hr_status = status, hr_content_type = ''application/cbor'',
      hr_body = (case transport_encode frame of Inr v \<Rightarrow> v | Inl _ \<Rightarrow> [])\<rparr>"

definition error_frame :: "Id \<Rightarrow> ErrorCode \<Rightarrow> TransportFrame" where
  "error_frame i code = \<lparr>tf_version = PROTOCOL_VERSION, tf_kind = ErrorFrame, tf_client_message_id = i,
     tf_ttl_seconds = 0, tf_body = [error_code code]\<rparr>"

definition error_response :: "StatusCode \<Rightarrow> Id \<Rightarrow> ErrorCode \<Rightarrow> http_response" where
  "error_response status i code = cbor_response status (error_frame i code)"

section \<open>The handlers\<close>

text \<open>The pool is the rows of the database; the counters are \<open>AtomicU64\<close>, which wrap.\<close>

record App =
  app_db :: backend
  app_requests :: u64
  app_errors :: u64

text \<open>
  What one HTTP request meets: the clock and the failing statements of the rate limit and of the
  first dispatch; for a long poll, whether the listener subscribes, what the other connections
  do until it wakes up or 20 seconds pass, and the second dispatch.
\<close>

record exchange =
  ex_limit_now :: int
  ex_limit_faults :: "bool list"
  ex_listening :: bool
  ex_first :: draws
  ex_first_faults :: "bool list"
  ex_meanwhile :: "(int \<times> bool list \<times> api_op) list"
  ex_second :: draws
  ex_second_faults :: "bool list"

definition count_error :: "App \<Rightarrow> App" where
  "count_error app = app\<lparr>app_errors := app_errors app + 1\<rparr>"

text \<open>The error arm of both dispatches.\<close>

definition failed :: "Id \<Rightarrow> ApiError \<Rightarrow> App \<Rightarrow> http_response \<times> App" where
  "failed i e app = (let (status, code) = map_error e in (error_response status i code, count_error app))"

text \<open>An empty page of events, which a long poll waits on.\<close>

definition empty_page :: "TransportFrame \<Rightarrow> bool" where
  "empty_page response \<longleftrightarrow> tf_kind response = SyncBatch \<and>
     (case tf_body response of operation # n # _ \<Rightarrow> (operation = 0 \<or> operation = 1) \<and> n = 0 | _ \<Rightarrow> False)"

definition handle_binary :: "crypto \<Rightarrow> exchange \<Rightarrow> App \<Rightarrow> bytes \<Rightarrow> bool \<Rightarrow> http_response \<times> App" where
  "handle_binary K x app body long_poll =
     (let app = app\<lparr>app_requests := app_requests app + 1\<rparr> in
      case transport_decode body of
        Inl _ \<Rightarrow> (error_response BAD_REQUEST (replicate 16 0) CodeMalformed, count_error app)
      | Inr frame \<Rightarrow>
          let i = tf_client_message_id frame;
              (limit, c) = check_rate_limit (ex_limit_now x) (ascii ''frame/v1/'' @ i) 120 60
                (on_pool (app_db app) (ex_limit_faults x));
              app = app\<lparr>app_db := live c\<rparr>
          in if \<not> is_ok limit then (error_response TOO_MANY_REQUESTS i CodeRateLimited, count_error app)
             else if long_poll \<and> tf_kind frame \<noteq> SyncRequest
             then (error_response BAD_REQUEST i CodeMalformed, count_error app)
             else
               let (r, c) = dispatch K (ex_first x) frame (on_pool (app_db app) (ex_first_faults x));
                   app = app\<lparr>app_db := live c\<rparr>
               in (case r of
                     Inl e \<Rightarrow> failed i e app
                   | Inr response \<Rightarrow>
                       if empty_page response \<and> long_poll \<and> ex_listening x then
                         let s = foldl (api_step K) (app_db app) (ex_meanwhile x);
                             (r, c) = dispatch K (ex_second x) frame (on_pool s (ex_second_faults x));
                             app = app\<lparr>app_db := live c\<rparr>
                         in (case r of
                               Inl e \<Rightarrow> failed i e app
                             | Inr retried \<Rightarrow> (cbor_response OK retried, app))
                       else (cbor_response OK response, app)))"

definition binary_api :: "crypto \<Rightarrow> exchange \<Rightarrow> App \<Rightarrow> bytes \<Rightarrow> http_response \<times> App" where
  "binary_api K x app body = handle_binary K x app body False"

definition binary_long_poll :: "crypto \<Rightarrow> exchange \<Rightarrow> App \<Rightarrow> bytes \<Rightarrow> http_response \<times> App" where
  "binary_long_poll K x app body = handle_binary K x app body True"

text \<open>\<open>StatusCode::OK.into_response()\<close> has no body and no content type.\<close>

definition readyz :: "bool list \<Rightarrow> App \<Rightarrow> http_response" where
  "readyz fs app =
     (case fst (pg_query (\<lambda>_. ()) (on_pool (app_db app) fs)) of
        Inr _ \<Rightarrow> \<lparr>hr_status = OK, hr_content_type = '''', hr_body = []\<rparr>
      | Inl _ \<Rightarrow> error_response SERVICE_UNAVAILABLE (replicate 16 0) CodeMalformed)"

text \<open>\<open>format!("{}", n)\<close> of an unsigned integer.\<close>

fun decimal :: "nat \<Rightarrow> string" where
  "decimal n = (if n < 10 then [char_of (48 + n)] else decimal (n div 10) @ [char_of (48 + n mod 10)])"

declare decimal.simps [simp del]

definition api_metrics :: "App \<Rightarrow> string" where
  "api_metrics app = ''resilient_api_up 1'' @ [CHR 0x0A] @
     ''resilient_api_requests_total '' @ decimal (unat (app_requests app)) @ [CHR 0x0A] @
     ''resilient_api_errors_total '' @ decimal (unat (app_errors app)) @ [CHR 0x0A]"

end
