(* ===== verification/Core_Api_Correct.thy ===== *)
theory Core_Api_Correct
  imports Core_Api
begin

text \<open>
  What the delivery service promises: the relations that the operations of the backend stay
  within hold over every sequence of HTTP requests; every request is answered; a request that
  needs an access token does nothing without one and acts for its device with one.
\<close>

section \<open>The reader\<close>

interpretation rd: byte_reader rd_take InvalidInput
  by unfold_locales (auto simp: rd_take_def checked_add_def slice_get_def advance_def remaining_def)

section \<open>What every request stays within\<close>

lemma within_void: "within R (void m) \<Longrightarrow> within R m"
  unfolding within_def ensures_def void_def
proof (intro allI impI)
  fix s c r c'
  assume hyp: "\<forall>s c r c'. live c = s \<longrightarrow> saved c = None \<longrightarrow> db_bind m (\<lambda>_. db_return ()) c = (r, c') \<longrightarrow>
      saved c' = None \<and> R s (live c')"
    and c: "live c = s" "saved c = None" "m c = (r, c')"
  have "\<exists>r'. db_bind m (\<lambda>_. db_return ()) c = (r', c')"
    using c(3) by (cases r) (auto simp: db_bind_def db_return_def)
  then show "saved c' = None \<and> R s (live c')"
    using hyp c(1,2) by blast
qed

text \<open>
  A reflexive and transitive relation that every operation of the backend stays within; then
  every dispatch does, and every HTTP request.
\<close>

locale api_relation = state_preorder R for R :: "backend \<Rightarrow> backend \<Rightarrow> bool" +
  fixes K :: crypto
  assumes run: "within R (api_run K now op)"
begin

lemma query [simp]: "within R (pg_query f)"
  by (simp add: pg_query_def)

lemma step: "R s (api_step K s req)"
  using api_step_within [OF run, of s "fst req" "fst (snd req)" "snd (snd req)"] by simp

lemma steps: "R s (foldl (api_step K) s reqs)"
  by (induction reqs rule: rev_induct) (auto intro: refl trans step)

lemma voided:
  "within R (begin_challenge now i c d)"
  "within R (complete_challenge (cr_sha256 K) (cr_ed25519 K) now seed i sig)"
  "within R (rotate_refresh (cr_sha256 K) (cr_ed25519 K) now seed d t sig)"
  "within R (fetch_key_package now t)"
  "within R (apply_membership_operation (cr_ed25519 K) now req)"
  "within R (fetch_welcomes now t l)"
  "within R (upload_event now v e)"
  "within R (record_receipts d es ty)"
  using run [of now "BeginChallenge i c d"] run [of now "CompleteChallenge seed i sig"]
    run [of now "RotateRefresh seed d t sig"] run [of now "FetchKeyPackage t"]
    run [of now "ApplyMembershipOperation req"] run [of now "FetchWelcomes t l"] run [of now "UploadEvent v e"]
    run [of now "RecordReceipts d es ty"]
  by (auto intro: within_void)

lemma direct:
  "within R (check_rate_limit now scope m w)"
  "within R (register_account_device (cr_sha256 K) (cr_ed25519 K) a k cert)"
  "within R (publish_key_package now d i p)"
  "within R (pg_create_group g d a)"
  "within R (upload_welcome now a t g i w')"
  "within R (store_recovery_package a i p)"
  using run [of now "CheckRateLimit scope m w"] run [of now "RegisterAccountDevice a k cert"]
    run [of now "PublishKeyPackage d i p"] run [of now "CreateGroup g d a"] run [of now "UploadWelcome a t g i w'"]
    run [of now "StoreRecoveryPackage a i p"]
  by auto

lemma reads:
  "within R (authenticate_access sha256 now t)" "within R (device_account_id d)"
  "within R (sync_group now d g a l)" "within R (sync_global now d a l)" "within R (fetch_recovery_package i)"
  unfolding authenticate_access_def device_account_id_def sync_group_def sync_global_def fetch_recovery_package_def
    assert_active_member_def
  by (auto intro!: within_intros)

lemma arms:
  "within R (dispatch_client_hello K frame)" "within R (dispatch_auth_challenge w frame)"
  "within R (dispatch_auth_response K w frame)" "within R (dispatch_upload K w frame)"
  "within R (dispatch_sync K w frame)" "within R (dispatch_directory frame)" "within R (dispatch_receipts K w frame)"
  unfolding dispatch_client_hello_def dispatch_auth_challenge_def dispatch_auth_response_def dispatch_upload_def
    dispatch_sync_def dispatch_directory_def dispatch_receipts_def upload_operation_def sync_operation_def Let_def
  by (auto intro!: within_intros voided direct reads)

lemma dispatch_within: "within R (dispatch K w frame)"
  unfolding dispatch_def by (auto intro!: within_intros arms split: FrameType.split)

lemma pool: "within R m \<Longrightarrow> m (on_pool s fs) = (r, c) \<Longrightarrow> R s (live c)"
  using within_run [of R m "on_pool s fs"] by simp

lemma handle_binary_within: "R (app_db app) (app_db (snd (handle_binary K x app body long_poll)))"
proof (cases "transport_decode body")
  case (Inl e)
  then show ?thesis
    by (simp add: handle_binary_def Let_def count_error_def refl)
next
  case (Inr frame)
  obtain r1 c1 where limit: "check_rate_limit (ex_limit_now x) (ascii ''frame/v1/'' @ tf_client_message_id frame) 120 60
      (on_pool (app_db app) (ex_limit_faults x)) = (r1, c1)"
    by fastforce
  obtain r2 c2 where first: "dispatch K (ex_first x) frame (on_pool (live c1) (ex_first_faults x)) = (r2, c2)"
    by fastforce
  obtain r3 c3 where second: "dispatch K (ex_second x) frame
      (on_pool (foldl (api_step K) (live c2) (ex_meanwhile x)) (ex_second_faults x)) = (r3, c3)"
    by fastforce
  have "R (app_db app) (live c1)" "R (live c1) (live c2)" "R (live c2) (live c3)"
    using pool [OF direct(1) limit] pool [OF dispatch_within first] trans [OF steps pool [OF dispatch_within second]]
    by simp_all
  then have "R (app_db app) (live c1)" "R (app_db app) (live c2)" "R (app_db app) (live c3)"
    using trans by blast+
  then show ?thesis
    by (auto simp: handle_binary_def Let_def Inr limit first second count_error_def failed_def split: sum.splits prod.splits)
qed

end

interpretation schema_api: api_relation keeps_schema K for K
  by unfold_locales (rule api_run_schema)

interpretation progress_api: api_relation evolves K for K
  by unfold_locales (rule api_run_progress)

section \<open>Whom a request acts for\<close>

text \<open>\<open>adds_only f P old new\<close>: what \<open>f\<close> shows of the new rows is that of the old ones, or in \<open>P\<close>.\<close>

definition adds_only :: "('r \<Rightarrow> 'k) \<Rightarrow> 'k set \<Rightarrow> 'r list \<Rightarrow> 'r list \<Rightarrow> bool" where
  "adds_only f P old new \<longleftrightarrow> f ` set new \<subseteq> f ` set old \<union> P"

lemma adds_only_refl [simp]: "adds_only f P rows rows"
  by (auto simp: adds_only_def)

lemma adds_only_trans: "adds_only f P a b \<Longrightarrow> adds_only f P b c \<Longrightarrow> adds_only f P a c"
  unfolding adds_only_def by blast

lemma adds_only_append [simp]: "f r \<in> P \<Longrightarrow> adds_only f P rows (rows @ [r])"
  by (auto simp: adds_only_def)

lemma adds_only_update: "(\<And>r. f (g r) = f r) \<Longrightarrow> adds_only f P rows (snd (update_where p g rows))"
  by (auto simp: adds_only_def)

text \<open>
  \<open>acts_for d\<close>: devices and sessions are as before, and every new event, key package, group,
  membership operation and receipt is in the name of the device \<open>d\<close>.
\<close>

definition acts_for :: "bytes \<Rightarrow> backend \<Rightarrow> backend \<Rightarrow> bool" where
  "acts_for d s s' \<longleftrightarrow>
     devices s' = devices s \<and> auth_challenges s' = auth_challenges s \<and> access_sessions s' = access_sessions s \<and>
     refresh_sessions s' = refresh_sessions s \<and>
     adds_only id {e. ev_author e = d} (group_events s) (group_events s') \<and>
     adds_only (\<lambda>k. (kp_id k, kp_device k)) (UNIV \<times> {d}) (key_packages s) (key_packages s') \<and>
     adds_only id {g. gr_creator g = d} (groups s) (groups s') \<and>
     adds_only (\<lambda>m. (mo_correlation m, mo_author m)) (UNIV \<times> {d}) (membership_operations s) (membership_operations s') \<and>
     adds_only id {r. rc_device r = d} (message_receipts s) (message_receipts s')"

interpretation acts: state_preorder "acts_for d"
  by unfold_locales (auto simp: acts_for_def intro: adds_only_trans)

lemma bind_lift [simp]: "db_bind (db_lift (Inl e)) f = db_fail e" "db_bind (db_lift (Inr x)) f = f x"
  by (auto simp: db_bind_def db_lift_def db_fail_def)

context state_preorder
begin

lemma within_read: "(\<And>x. r = Inr x \<Longrightarrow> within R (f x)) \<Longrightarrow> within R (db_bind (db_lift r) f)"
  by (cases r) auto

end

lemma acts_query [simp]: "within (acts_for d) (pg_query f)"
  by (simp add: pg_query_def)

lemma uploads_act:
  "ue_author_device_id e = d \<Longrightarrow> within (acts_for d) (upload_event now v e)"
  "within (acts_for d) (publish_key_package now d i p)"
  "within (acts_for d) (pg_create_group g d a)"
  "mr_author_device_id req = d \<Longrightarrow> within (acts_for d) (apply_membership_operation E now req)"
  "within (acts_for d) (upload_welcome now d t g i w)"
  "within (acts_for d) (store_recovery_package a i b)"
  "within (acts_for d) (record_receipts d ids ty)"
  unfolding upload_event_def publish_key_package_def pg_create_group_def apply_membership_operation_def
    upload_welcome_def store_recovery_package_def record_receipts_def insert_member_def insert_event_def
    insert_receipt_def remove_group_member_def upsert_group_member_def assert_active_member_def Let_def
    pg_insert_def pg_insert_ignore_def pg_upsert_def pg_update_def
  by (intro acts.within_intros acts.within_stmt;
      auto simp: acts_for_def intro: adds_only_update split: if_splits prod.splits)+

lemma reads_act:
  "within (acts_for d) (fetch_key_package now t)" "within (acts_for d) (fetch_welcomes now d' l)"
  "within (acts_for d) (device_account_id d')" "within (acts_for d) (sync_group now d' g a l)"
  "within (acts_for d) (sync_global now d' a l)"
  unfolding fetch_key_package_def fetch_welcomes_def device_account_id_def sync_group_def sync_global_def
    assert_active_member_def pg_update_def
  by (intro acts.within_intros acts.within_stmt;
      auto simp: acts_for_def intro: adds_only_update split: if_splits prod.splits)+

lemma read_author:
  "read_event d i body = Inr e \<Longrightarrow> ue_author_device_id e = d"
  "read_membership d body = Inr req \<Longrightarrow> mr_author_device_id req = d"
  by (auto simp: read_event_def read_membership_def result_simps)

lemma operations_act:
  "within (acts_for d) (upload_operation K w i d operation body)"
  "within (acts_for d) (sync_operation w d operation body)"
  unfolding upload_operation_def sync_operation_def
  by (intro acts.within_read acts.within_intros uploads_act reads_act; simp add: read_author)+

text \<open>The frames that carry an access token in front of the request.\<close>

fun needs_token :: "FrameType \<Rightarrow> bool" where
  "needs_token UploadEnvelope = True"
| "needs_token SyncRequest = True"
| "needs_token DeliveryReceiptBatch = True"
| "needs_token ReadReceiptBatch = True"
| "needs_token _ = False"

text \<open>A row of \<open>access_sessions\<close> that lets \<open>token\<close> in at time \<open>now\<close>.\<close>

definition admits :: "hash \<Rightarrow> int \<Rightarrow> bytes \<Rightarrow> backend \<Rightarrow> access_row \<Rightarrow> bool" where
  "admits sha256 now token s a \<longleftrightarrow> a \<in> set (access_sessions s) \<and>
     as_hash a = token_hash sha256 (ascii ''access'') token \<and> as_expires a > now \<and> active_device (as_device a) s"

lemma authenticate_ensures:
  "ensures (authenticate_access sha256 now token) s (\<lambda>r s'. s' = s \<and>
     (case r of Inl e \<Rightarrow> e = InvalidCredentials \<or> e = Database | Inr d \<Rightarrow> \<exists>a. admits sha256 now token s a \<and> as_device a = d))"
  unfolding authenticate_access_def pg_query_def fixed_bytes_def
  by (intro ensures_bindI) (auto simp: case_results admits_def dest!: find_SomeD intro!: ensures_bindI split: option.splits)

lemma rd_array_prefix: "rd_array n (rd_new v) = Inr (x, body) \<Longrightarrow> x = take n v"
  by (auto simp: rd_array_def rd_new_def rd_take_def checked_add_def slice_get_def result_simps split: if_splits)

lemma rd_errors:
  "rd_array n r = Inl e \<Longrightarrow> e = InvalidInput" "rd_u8 r = Inl e \<Longrightarrow> e = InvalidInput"
  by (auto simp: rd_array_def rd_u8_def result_simps dest: rd.take_n_error split: if_splits)

definition token_guarded :: "crypto \<Rightarrow> draws \<Rightarrow> TransportFrame \<Rightarrow> backend \<Rightarrow> (ApiError, 'a) result \<Rightarrow> backend \<Rightarrow> bool" where
  "token_guarded K w frame s r s' \<longleftrightarrow>
     (\<exists>a. admits (cr_sha256 K) (dr_auth_now w) (take 32 (tf_body frame)) s a \<and> acts_for (as_device a) s s') \<or>
     s' = s \<and> r \<in> {Inl InvalidInput, Inl InvalidCredentials, Inl Database}"

lemma behind_token:
  assumes "\<And>d body. within (acts_for d) (rest d body)"
  shows "ensures (db_bind (db_lift (rd_array 32 (rd_new (tf_body frame)))) (\<lambda>(token, body).
      db_bind (authenticate_access (cr_sha256 K) (dr_auth_now w) token) (\<lambda>d. rest d body))) s
    (token_guarded K w frame s)"
proof (cases "rd_array 32 (rd_new (tf_body frame))")
  case (Inl e)
  then show ?thesis
    by (auto simp: token_guarded_def dest: rd_errors)
next
  case (Inr p)
  then obtain body where p: "p = (take 32 (tf_body frame), body)"
    by (metis prod.collapse rd_array_prefix)
  have "ensures (rest d body) s (token_guarded K w frame s)"
    if "admits (cr_sha256 K) (dr_auth_now w) (take 32 (tf_body frame)) s a" "as_device a = d" for a d
    using assms [unfolded within_def, rule_format, of d body s] that
    by (auto simp: token_guarded_def elim!: ensures_mono)
  then show ?thesis
    unfolding Inr p by (auto intro!: ensures_bindI ensures_mono [OF authenticate_ensures] simp: token_guarded_def split: sum.splits)
qed

lemma dispatch_guarded:
  assumes "needs_token (tf_kind frame)"
  shows "ensures (dispatch K w frame) s (token_guarded K w frame s)"
proof -
  have arms: "ensures (dispatch_upload K w frame) s (token_guarded K w frame s)"
    "ensures (dispatch_sync K w frame) s (token_guarded K w frame s)"
    "ensures (dispatch_receipts K w frame) s (token_guarded K w frame s)"
    unfolding dispatch_upload_def dispatch_sync_def dispatch_receipts_def
    by (intro behind_token acts.within_read acts.within_intros operations_act uploads_act acts.within_basic)+
  have reply: "token_guarded K w frame s r s' \<Longrightarrow> (case r of Inl e \<Rightarrow> token_guarded K w frame s (Inl e) s'
      | Inr x \<Rightarrow> ensures (case x of (kind, body) \<Rightarrow> db_return (g kind body)) s' (token_guarded K w frame s))"
    for r s' and g :: "FrameType \<Rightarrow> bytes \<Rightarrow> TransportFrame"
    by (auto simp: token_guarded_def split: sum.splits)
  show ?thesis
    unfolding dispatch_def
    using assms by (intro ensures_bindI)
      (cases "tf_kind frame"; simp; intro ensures_mono [OF arms(1)] ensures_mono [OF arms(2)] ensures_mono [OF arms(3)] reply)
qed

section \<open>What a request is answered with\<close>

text \<open>\<open>yields P m\<close>: the value \<open>m\<close> returns, if it returns one, satisfies \<open>P\<close>.\<close>

definition yields :: "('a \<Rightarrow> bool) \<Rightarrow> ('e, 's, 'a) db \<Rightarrow> bool" where
  "yields P m \<longleftrightarrow> (\<forall>c x c'. m c = (Inr x, c') \<longrightarrow> P x)"

lemma yields_map: "yields P m \<Longrightarrow> (\<And>x. P x \<Longrightarrow> yields Q (f x)) \<Longrightarrow> yields Q (db_bind m f)"
  unfolding yields_def db_bind_run by blast

lemma yields_bind: "(\<And>x. yields P (f x)) \<Longrightarrow> yields P (db_bind m f)"
  by (rule yields_map [where P = "\<lambda>_. True"]) (auto simp: yields_def)

lemma yields_then: "yields P n \<Longrightarrow> yields P (db_then m n)"
  unfolding db_then_def by (rule yields_bind)

lemma yields_basic [simp]: "yields P (db_return x) \<longleftrightarrow> P x" "yields P (db_fail e)"
  by (auto simp: yields_def db_return_def db_fail_def)

lemma yields_prod: "(\<And>x y. yields P (f x y)) \<Longrightarrow> yields P (case p of (x, y) \<Rightarrow> f x y)"
  by (cases p) simp

lemmas yields_intros = yields_bind yields_then yields_prod

fun answer_kind :: "FrameType \<Rightarrow> FrameType" where
  "answer_kind ClientHello = ServerHello"
| "answer_kind AuthResponse = AuthAccepted"
| "answer_kind UploadEnvelope = UploadAccepted"
| "answer_kind SyncRequest = SyncBatch"
| "answer_kind RelayDirectoryRequest = RelayDirectoryResponse"
| "answer_kind Ping = Pong"
| "answer_kind k = k"

text \<open>The frame \<open>g\<close> has the form of an answer to the frame \<open>f\<close>.\<close>

definition answers :: "TransportFrame \<Rightarrow> TransportFrame \<Rightarrow> bool" where
  "answers f g \<longleftrightarrow> tf_version g = PROTOCOL_VERSION \<and> tf_client_message_id g = tf_client_message_id f \<and>
     tf_ttl_seconds g = 0 \<and> tf_kind g = answer_kind (tf_kind f) \<and> tf_kind g \<noteq> ErrorFrame"

lemma arms_yield:
  "yields (\<lambda>p. fst p = ServerHello) (dispatch_client_hello K frame)"
  "yields (\<lambda>p. fst p = AuthChallenge) (dispatch_auth_challenge w frame)"
  "yields (\<lambda>p. fst p = AuthAccepted) (dispatch_auth_response K w frame)"
  "yields (\<lambda>p. fst p = UploadAccepted) (dispatch_upload K w frame)"
  "yields (\<lambda>p. fst p = SyncBatch) (dispatch_sync K w frame)"
  "yields (\<lambda>p. fst p = RelayDirectoryResponse) (dispatch_directory frame)"
  "yields (\<lambda>p. fst p = tf_kind frame) (dispatch_receipts K w frame)"
  unfolding dispatch_client_hello_def dispatch_auth_challenge_def dispatch_auth_response_def dispatch_upload_def
    dispatch_sync_def dispatch_directory_def dispatch_receipts_def Let_def
  by (intro yields_intros; simp)+

lemma dispatch_answers: "yields (answers frame) (dispatch K w frame)"
proof -
  have reply: "yields (answers frame) (db_bind m (\<lambda>(kind, body). db_return \<lparr>tf_version = PROTOCOL_VERSION, tf_kind = kind,
      tf_client_message_id = tf_client_message_id frame, tf_ttl_seconds = 0, tf_body = body\<rparr>))"
    if "yields (\<lambda>p. fst p = answer_kind (tf_kind frame) \<and> fst p \<noteq> ErrorFrame) m" for m :: "reply api_db"
    using that by (rule yields_map) (auto simp: answers_def)
  have weaken: "yields (\<lambda>p. fst p = k) m \<Longrightarrow> k = k' \<Longrightarrow> k' \<noteq> ErrorFrame \<Longrightarrow> yields (\<lambda>p. fst p = k' \<and> fst p \<noteq> ErrorFrame) m"
    for m :: "reply api_db" and k k'
    by (auto simp: yields_def)
  show ?thesis
    unfolding dispatch_def
    by (rule reply, cases "tf_kind frame"; simp; (rule weaken, rule arms_yield, simp, simp)?)
qed

text \<open>
  \<open>answer_body g\<close>: the bytes sent for the frame \<open>g\<close>; none when \<open>g\<close> does not fit a frame.
\<close>

definition answer_body :: "TransportFrame \<Rightarrow> bytes" where
  "answer_body g = (case transport_encode g of Inr v \<Rightarrow> v | Inl _ \<Rightarrow> [])"

lemma response_simps [simp]:
  "hr_status (cbor_response status g) = status" "hr_body (cbor_response status g) = answer_body g"
  "hr_status (error_response status i code) = status"
  "hr_body (error_response status i code) = answer_body (error_frame i code)"
  by (simp_all add: cbor_response_def error_response_def answer_body_def)

lemma answer_body_decodes:
  assumes "frame_wf g" "tf_ttl_seconds g = 0"
  shows "if length (frame_bytes g) \<le> MAX_FRAME_SIZE then transport_decode (answer_body g) = Inr g else answer_body g = []"
  using assms frame_body_in_bytes [of g]
  by (auto simp: answer_body_def transport_encode_eq transport_decode_iff)

lemma error_frame_decodes:
  assumes "is_id i"
  shows "transport_decode (answer_body (error_frame i code)) = Inr (error_frame i code)"
proof -
  have wf: "frame_wf (error_frame i code)" "tf_ttl_seconds (error_frame i code) = 0"
    using assms by (simp_all add: error_frame_def frame_wf_def)
  moreover have "length (frame_bytes (error_frame i code)) \<le> MAX_FRAME_SIZE"
    using length_frame_bytes [OF wf(1)] by (simp add: MAX_FRAME_SIZE_def error_frame_def)
  ultimately show ?thesis
    using answer_body_decodes by simp
qed

lemma map_error_status: "fst (map_error e) \<noteq> OK"
  by (cases e) auto

definition answered_well :: "bytes \<Rightarrow> http_response \<Rightarrow> bool" where
  "answered_well body p \<longleftrightarrow>
     (if hr_status p = OK then
        \<exists>f g. transport_decode body = Inr f \<and> answers f g \<and>
          (if length (frame_bytes g) \<le> MAX_FRAME_SIZE then transport_decode (hr_body p) = Inr g else hr_body p = [])
      else
        \<exists>code. transport_decode (hr_body p) =
          Inr (error_frame (case transport_decode body of Inl _ \<Rightarrow> replicate 16 0 | Inr f \<Rightarrow> tf_client_message_id f) code))"

lemma answered_error:
  assumes "status \<noteq> OK" "i = (case transport_decode body of Inl _ \<Rightarrow> replicate 16 0 | Inr f \<Rightarrow> tf_client_message_id f)"
  shows "answered_well body (error_response status i code)"
proof -
  have "is_id i"
    using assms(2) by (auto simp: is_id_def transport_decode_iff frame_wf_def split: sum.splits)
  then show ?thesis
    using assms by (auto simp: answered_well_def error_frame_decodes)
qed

lemma answered_ok:
  assumes "transport_decode body = Inr f" "dispatch K w f c = (Inr g, c')"
  shows "answered_well body (cbor_response OK g)"
proof -
  have "answers f g"
    using dispatch_answers assms(2) unfolding yields_def by blast
  moreover from this have "frame_wf g" "tf_ttl_seconds g = 0"
    using assms(1) by (auto simp: answers_def frame_wf_def transport_decode_iff)
  ultimately show ?thesis
    using assms(1) answer_body_decodes [of g] by (auto simp: answered_well_def intro!: exI [of _ g])
qed

lemma handle_binary_outcome:
  "case handle_binary K x app body long_poll of (p, app') \<Rightarrow> answered_well body p \<and>
     app_requests app' = app_requests app + 1 \<and>
     app_errors app' = app_errors app + (if hr_status p = OK then 0 else 1)"
proof -
  have "map_error e = (OK, code) \<Longrightarrow> False" for e code
    using map_error_status [of e] by simp
  then show ?thesis
    by (auto simp: handle_binary_def Let_def count_error_def failed_def
        intro!: answered_error split: sum.splits prod.splits intro: answered_ok)
qed

section \<open>Properties\<close>

definition service_step :: "crypto \<Rightarrow> App \<Rightarrow> exchange \<times> bytes \<times> bool \<Rightarrow> App" where
  "service_step K app = (\<lambda>(x, body, long_poll). snd (handle_binary K x app body long_poll))"

definition fresh_app :: App where
  "fresh_app = \<lparr>app_db = empty_backend, app_requests = 0, app_errors = 0\<rparr>"

lemma service_step_keeps:
  "keeps_schema (app_db app) (app_db (service_step K app req))" "evolves (app_db app) (app_db (service_step K app req))"
  "app_requests (service_step K app req) = app_requests app + 1"
proof -
  obtain x body long_poll where req: "req = (x, body, long_poll)"
    by (metis prod_cases3)
  then have step: "service_step K app req = snd (handle_binary K x app body long_poll)"
    by (simp add: service_step_def)
  show "keeps_schema (app_db app) (app_db (service_step K app req))" "evolves (app_db app) (app_db (service_step K app req))"
    unfolding step by (rule schema_api.handle_binary_within progress_api.handle_binary_within)+
  show "app_requests (service_step K app req) = app_requests app + 1"
    unfolding step using handle_binary_outcome [where K = K and x = x and app = app and body = body and long_poll = long_poll] by (simp add: case_prod_unfold)
qed

interpretation service: transition_system "service_step K" "\<lambda>_. True" "\<lambda>app. schema_ok (app_db app)"
  by unfold_locales (use service_step_keeps(1) in \<open>simp add: keeps_schema_def\<close>)

lemma service_run:
  "evolves (app_db app) (app_db (foldl (service_step K) app reqs))"
  "app_requests (foldl (service_step K) app reqs) = app_requests app + word_of_nat (length reqs)"
  by (induction reqs rule: rev_induct)
    (auto simp: progress.refl service_step_keeps(3) ac_simps intro: progress.trans service_step_keeps(2))

text \<open>
  The service stays consistent. Whatever byte strings are posted to it in whatever order,
  on either route, whichever statements fail and whatever other connections do during a long
  poll, the tables satisfy the constraints of the schema and nothing spent is given back; and
  the request counter counts the requests.
\<close>

theorem service_run_consistent:
  "let run = foldl (service_step K) fresh_app
   in schema_ok (app_db (run us)) \<and> evolves (app_db (run us)) (app_db (run (us @ vs))) \<and>
      app_requests (run us) = word_of_nat (length us)"
  using service.run_inv [of fresh_app us K] service_run
  by (simp add: Let_def fresh_app_def empty_schema_ok list_all_iff)



section \<open>Examples\<close>

text \<open>A signed-in device creates a group.\<close>

definition demo_online :: backend where
  "demo_online = demo_backend\<lparr>access_sessions := [\<lparr>as_hash = token_hash plain_hash (ascii ''access'') (replicate 32 7),
     as_device = demo_device, as_expires = 1000\<rparr>]\<rparr>"

definition demo_draws :: draws where
  "demo_draws = \<lparr>dr_auth_now = 5, dr_now = 6, dr_challenge_id = replicate 16 8, dr_challenge = replicate 32 8,
     dr_tokens = demo_seed 80, dr_nextval = 9\<rparr>"

definition demo_frame :: "FrameType \<Rightarrow> bytes \<Rightarrow> TransportFrame" where
  "demo_frame kind body = \<lparr>tf_version = PROTOCOL_VERSION, tf_kind = kind, tf_client_message_id = replicate 16 9,
     tf_ttl_seconds = 0, tf_body = body\<rparr>"


end
