(* ===== verification/Upload_Path.thy ===== *)
theory Upload_Path
  imports Core_Api_Correct
begin

text \<open>
  From the upload of an event to its delivery, across the request bodies of the service, its
  dispatch and the tables of the backend: the row an accepted upload leaves, that it stays until
  it expires, and the page on which it comes first.
\<close>

section \<open>The row of an event\<close>

definition uploaded_row :: "int \<Rightarrow> int \<Rightarrow> UploadedEvent \<Rightarrow> event_row" where
  "uploaded_row now v e = \<lparr>ev_cursor = v, ev_id = ue_event_id e, ev_group = ue_group_id e,
     ev_author = ue_author_device_id e, ev_client_id = ue_client_message_id e,
     ev_correlation = ue_correlation_id e, ev_kind = ue_event_kind e,
     ev_ciphertext = ue_ciphertext e, ev_expires = now + secs EVENT_TTL_SECONDS\<rparr>"

lemma upload_event_row:
  "ensures (upload_event now v e) s (\<lambda>r s'. case r of Inl _ \<Rightarrow> True
     | Inr acc \<Rightarrow> ua_duplicate acc \<or> ua_cursor acc = v \<and> uploaded_row now v e \<in> set (group_events s'))"
  unfolding upload_event_def insert_event_def Let_def assert_active_member_def pg_query_def pg_insert_def
  by (auto simp: uploaded_row_def split: option.splits if_splits)

text \<open>Events stay in their table until a cleanup after their expiry.\<close>

definition keeps_event :: "event_row \<Rightarrow> backend \<Rightarrow> backend \<Rightarrow> bool" where
  "keeps_event e s s' \<longleftrightarrow> (e \<in> set (group_events s) \<longrightarrow> e \<in> set (group_events s'))"

interpretation event: state_preorder "keeps_event e"
  by unfold_locales (auto simp: keeps_event_def)

lemma event_query [simp]: "within (keeps_event e) (pg_query f)"
  by (simp add: pg_query_def)

lemma event_frame:
  "(\<And>s x s'. g s = Inr (x, s') \<Longrightarrow> group_events s' = group_events s) \<Longrightarrow> within (keeps_event e) (db_stmt err g)"
  by (rule event.within_stmt) (simp add: keeps_event_def)

lemma other_tables_event:
  "within (keeps_event e) (pg_migrate checksum)"
  "within (keeps_event e) (check_rate_limit now scope maximum window)"
  "within (keeps_event e) (register_account_device sha256 E a k cert)"
  "within (keeps_event e) (begin_challenge now i c d)"
  "within (keeps_event e) (claim_username U now a n)"
  "within (keeps_event e) (change_username U now a n)"
  "within (keeps_event e) (release_username now a)"
  "within (keeps_event e) (store_recovery_package a i b)"
  "within (keeps_event e) (publish_key_package now d i p)"
  "within (keeps_event e) (fetch_key_package now t)"
  "within (keeps_event e) (insert_member m)"
  "within (keeps_event e) (pg_create_group g d a)"
  "within (keeps_event e) (apply_membership_operation E now req)"
  "within (keeps_event e) (upload_welcome now a t g i w)"
  "within (keeps_event e) (fetch_welcomes now t l)"
  "within (keeps_event e) (record_receipts d ids ty)"
  "within (keeps_event e) (advance_group_cursor d g cur)"
  unfolding pg_migrate_def check_rate_limit_def register_account_device_def claim_username_def change_username_def
    release_username_def store_recovery_package_def pg_create_group_def insert_member_def apply_membership_operation_def
    record_receipts_def free_username_def select_username_def
    remove_group_member_def upsert_group_member_def insert_receipt_def
    assert_active_member_def begin_challenge_def publish_key_package_def fetch_key_package_def upload_welcome_def
    fetch_welcomes_def advance_group_cursor_def pg_insert_def pg_insert_ignore_def pg_upsert_def pg_update_def
    pg_delete_def Let_def
  by (intro event.within_intros event_frame; auto split: if_splits prod.splits)+

lemma sessions_event:
  "within (keeps_event e) (complete_challenge sha256 E now seed i sig)"
  "within (keeps_event e) (rotate_refresh sha256 E now seed d t sig)"
proof -
  have issue: "within (keeps_event e) (issue_tokens sha256 now seed d' fam)" for d' fam
    unfolding issue_tokens_def Let_def pg_insert_def
    by (intro event.within_intros event_frame) (auto split: if_splits)
  show "within (keeps_event e) (complete_challenge sha256 E now seed i sig)"
    unfolding complete_challenge_def pg_update_def
    by (intro event.within_intros event_frame issue) auto
  show "within (keeps_event e) (rotate_refresh sha256 E now seed d t sig)"
    unfolding rotate_refresh_def Let_def pg_update_def
    by (intro event.within_intros event_frame issue) (auto split: if_splits)
qed

lemma upload_event_keeps: "within (keeps_event e) (upload_event now v u)"
  unfolding upload_event_def insert_event_def assert_active_member_def pg_insert_def Let_def
  by (intro event.within_intros event.within_stmt) (auto simp: keeps_event_def split: if_splits)

lemma cleanup_keeps:
  assumes "now < ev_expires e"
  shows "ensures (cleanup_expired_events now b) s (\<lambda>_ s'. schema_ok s \<longrightarrow> keeps_event e s s')"
proof -
  have "ev_id e \<notin> ev_id ` set (take n (filter (\<lambda>x. ev_expires x \<le> now) (group_events s)))"
    if "schema_ok s" "e \<in> set (group_events s)" for n
  proof
    assume "ev_id e \<in> ev_id ` set (take n (filter (\<lambda>x. ev_expires x \<le> now) (group_events s)))"
    then obtain x where "x \<in> set (group_events s)" "ev_expires x \<le> now" "ev_id x = ev_id e"
      using set_take_subset by fastforce
    with that show False
      using assms by (auto simp: schema_ok_def events_table_def keyed_def distinct_map inj_on_def)
  qed
  then show ?thesis
    unfolding cleanup_expired_events_def Let_def by (auto simp: keeps_event_def delete_where_def)
qed

text \<open>A sequence of requests that are served before the event expires.\<close>

lemma api_step_keeps:
  assumes "schema_ok s" "fst req < ev_expires e"
  shows "keeps_event e s (api_step K s req)"
proof -
  obtain now fs op where req: "req = (now, fs, op)"
    by (metis prod_cases3)
  show ?thesis
  proof (cases "\<exists>b. op = CleanupExpiredEvents b")
    case True
    then obtain b where op: "op = CleanupExpiredEvents b" ..
    have "ensures (void (cleanup_expired_events now b)) s (\<lambda>_ s'. schema_ok s \<longrightarrow> keeps_event e s s')"
      unfolding void_def using assms(2)
      by (intro ensures_bindI ensures_mono [OF cleanup_keeps]) (auto simp: req split: sum.splits)
    then show ?thesis
      using ensures_run [of "void (cleanup_expired_events now b)" s _ fs] assms(1)
      by (simp add: api_step_def req op) (metis prod.collapse)
  next
    case False
    then have "within (keeps_event e) (api_run K now op)"
      by (cases op) (auto simp: add_group_member_def void_def
          intro!: event.within_bind other_tables_event sessions_event upload_event_keeps)
    then show ?thesis
      using api_step_within by (simp add: req)
  qed
qed

lemma api_steps_keep:
  assumes "schema_ok s" "list_all (\<lambda>req. fst req < ev_expires e) reqs" "e \<in> set (group_events s)"
  shows "e \<in> set (group_events (foldl (api_step K) s reqs))"
  using assms
proof (induction reqs arbitrary: s)
  case (Cons req reqs)
  then have "e \<in> set (group_events (api_step K s req))"
    using api_step_keeps [of s req e K] by (simp add: keeps_event_def)
  with Cons show ?case
    using api_step_schema by simp
qed simp

subsection \<open>The request bodies\<close>

lemma rd_array_starts: "addressable r \<Longrightarrow> starts r x \<Longrightarrow> length x = n \<Longrightarrow> rd_array n r = Inr (x, advance n r)"
  using rd.take_n_starts [of r n x "advance n r"] by (simp add: rd_array_def)

lemma rd_u8_starts: "addressable r \<Longrightarrow> starts r [b] \<Longrightarrow> rd_u8 r = Inr (b, advance 1 r)"
  using rd.take_n_starts [of r 1 "[b]" "advance 1 r"] by (simp add: rd_u8_def)

lemma starts_whole: "starts (rd_new v) v" "addressable (rd_new v) \<longleftrightarrow> length v < usize_bound"
  "buf (rd_new v) = v" "pos (rd_new v) = 0"
  by (simp_all add: rd_new_def starts_def remaining_def addressable_def)

lemma sint_i16: "- 32768 \<le> k \<Longrightarrow> k < 32768 \<Longrightarrow> sint (from_be16 (be_i16 k)) = k"
  by (simp add: be_i16_def sint_word_ariths signed_take_bit_int_eq_self_iff signed_of_int)

lemma length_be_i16 [simp]: "length (be_i16 k) = 2"
  by (simp add: be_i16_def)

lemma read_event_upload:
  assumes r: "addressable r" "starts r (g @ i @ be_i16 k @ [0] @ ct)" "drop (pos r) (buf r) = g @ i @ be_i16 k @ [0] @ ct"
    and len: "length g = 16" "length i = 16" "- 32768 \<le> k" "k < 32768"
  shows "read_event d m r = Inr \<lparr>ue_event_id = i, ue_group_id = g, ue_author_device_id = d, ue_client_message_id = m,
    ue_event_kind = k, ue_ciphertext = ct, ue_correlation_id = None\<rparr>"
proof -
  have parts: "starts r g" "starts (advance 16 r) i" "starts (advance 32 r) (be_i16 k)" "starts (advance 34 r) [0]"
    using r(2) len by (simp_all add: starts_append del: append.simps)
  have "rd_array 16 r = Inr (g, advance 16 r)" "rd_array 16 (advance 16 r) = Inr (i, advance 32 r)"
    "rd_array 2 (advance 32 r) = Inr (be_i16 k, advance 34 r)" "rd_u8 (advance 34 r) = Inr (0, advance 35 r)"
    using parts r(1) len by (auto simp: rd_array_starts rd_u8_starts)
  moreover have "drop (pos r + 35) (buf r) = ct"
    using arg_cong [OF r(3), of "drop 35"] len by (simp add: add.commute)
  ultimately show ?thesis
    using len by (simp add: read_event_def rd_i16_def read_correlation_def sint_i16 rd_rest_def)
qed

text \<open>The body of an upload of an event, and of a request for the page of a group.\<close>

definition upload_body :: "bytes \<Rightarrow> bytes \<Rightarrow> bytes \<Rightarrow> int \<Rightarrow> bytes \<Rightarrow> bytes" where
  "upload_body token g i k ct = token @ [1] @ g @ i @ be_i16 k @ [0] @ ct"

definition page_body :: "bytes \<Rightarrow> bytes \<Rightarrow> int \<Rightarrow> byte \<Rightarrow> bytes" where
  "page_body token g after n = token @ [0] @ g @ be64 (word_of_int after) @ [n]"

lemma upload_ensures:
  assumes kind: "tf_kind f = UploadEnvelope" and body: "tf_body f = upload_body token g i k ct"
    and len: "length token = 32" "length g = 16" "length i = 16" "- 32768 \<le> k" "k < 32768"
      "length (tf_body f) < usize_bound"
  shows "ensures (dispatch K w f) s (\<lambda>r s'. case r of Inl _ \<Rightarrow> True
    | Inr ok \<Rightarrow> last (tf_body ok) = 0 \<longrightarrow>
        tf_body ok = [1] @ be64 (word_of_int (dr_nextval w)) @ [0] \<and>
        (\<exists>e. ue_event_id e = i \<and> ue_group_id e = g \<and> ue_event_kind e = k \<and> ue_ciphertext e = ct \<and>
          uploaded_row (dr_now w) (dr_nextval w) e \<in> set (group_events s')))" (is "ensures _ _ ?Q")
proof -
  let ?r = "rd_new (tf_body f)"
  have r: "addressable ?r"
    using len by (simp add: starts_whole)
  have parts: "starts ?r token" "starts (advance 32 ?r) [1]" "starts (advance 33 ?r) (g @ i @ be_i16 k @ [0] @ ct)"
    using starts_whole(1) [of "tf_body f"] body len
    by (simp_all add: upload_body_def starts_append del: append.simps)
  have reads: "rd_array 32 ?r = Inr (token, advance 32 ?r)" "rd_u8 (advance 32 ?r) = Inr (1, advance 33 ?r)"
    using parts r len by (auto simp: rd_array_starts rd_u8_starts)
  have rest: "drop (pos (advance 33 ?r)) (buf (advance 33 ?r)) = g @ i @ be_i16 k @ [0] @ ct"
    using body len by (simp add: upload_body_def starts_whole)
  have event: "read_event d m (advance 33 ?r) = Inr \<lparr>ue_event_id = i, ue_group_id = g, ue_author_device_id = d,
      ue_client_message_id = m, ue_event_kind = k, ue_ciphertext = ct, ue_correlation_id = None\<rparr>" for d m
    using parts(3) rest r len by (intro read_event_upload) auto
  have op: "ensures (upload_operation K w m d 1 (advance 33 ?r)) s' (\<lambda>r s''. case r of Inl _ \<Rightarrow> True
      | Inr v \<Rightarrow> last v = 0 \<longrightarrow> v = [1] @ be64 (word_of_int (dr_nextval w)) @ [0] \<and>
          (\<exists>e. ue_event_id e = i \<and> ue_group_id e = g \<and> ue_event_kind e = k \<and> ue_ciphertext e = ct \<and>
            uploaded_row (dr_now w) (dr_nextval w) e \<in> set (group_events s'')))" for d m s'
    unfolding upload_operation_def event
    by (auto intro!: ensures_bindI ensures_mono [OF upload_event_row] split: sum.splits if_splits; force)
  show ?thesis
    unfolding dispatch_def kind
    by (auto simp: dispatch_upload_def reads intro!: ensures_bindI ensures_mono [OF authenticate_ensures]
      ensures_mono [OF op] split: sum.splits)
qed

lemma authenticate_quiet:
  assumes "schema_ok t" "admits sha256 now token t a"
  shows "authenticate_access sha256 now token (quiet t) = (Inr (as_device a), quiet t)"
proof -
  let ?p = "\<lambda>a. as_hash a = token_hash sha256 (ascii ''access'') token \<and> as_expires a > now \<and> active_device (as_device a) t"
  obtain b where b: "find ?p (access_sessions t) = Some b"
    using assms(2) by (cases "find ?p (access_sessions t)") (auto simp: admits_def find_None_iff)
  have "b = a"
    using find_SomeD [OF b] assms by (auto simp: admits_def schema_ok_def access_table_def keyed_def distinct_map inj_on_def)
  moreover have "length (as_device a) = 16"
    using assms by (auto simp: admits_def schema_ok_def access_table_def devices_table_def)
  ultimately show ?thesis
    using b by (simp add: authenticate_access_def pg_query_def fixed_bytes_def)
qed

lemma page_request:
  assumes kind: "tf_kind f = SyncRequest" and body: "tf_body f = page_body token g after n"
    and len: "length token = 32" "length g = 16" "- (2 ^ 63) \<le> after" "after < 2 ^ 63"
    and t: "schema_ok t" "admits (cr_sha256 K) (dr_auth_now w) token t a" "active_member g (as_device a) t"
  defines "rows \<equiv> event_page (dr_now w) after (uint n) (\<lambda>e. ev_group e = g) (group_events t)"
  shows "\<exists>ans. dispatch K w f (quiet t) = (Inr ans, quiet t) \<and> tf_kind ans = SyncBatch \<and>
    tf_client_message_id ans = tf_client_message_id f \<and>
    tf_body ans = [0, word_of_nat (length rows)] @ concat (map sync_event_bytes (map sync_event rows))"
proof -
  let ?r = "rd_new (tf_body f)"
  have length: "length (tf_body f) = 58"
    using body len by (simp add: page_body_def)
  then have r: "addressable ?r"
    by (simp add: starts_whole usize_bound_def)
  have parts: "starts ?r token" "starts (advance 32 ?r) [0]" "starts (advance 33 ?r) g"
    "starts (advance 49 ?r) (be64 (word_of_int after))" "starts (advance 57 ?r) [n]"
    using starts_whole(1) [of "tf_body f"] body len
    by (simp_all add: page_body_def starts_append del: append.simps)
  have reads: "rd_array 32 ?r = Inr (token, advance 32 ?r)" "rd_u8 (advance 32 ?r) = Inr (0, advance 33 ?r)"
    "rd_array 16 (advance 33 ?r) = Inr (g, advance 49 ?r)"
    "rd_array 8 (advance 49 ?r) = Inr (be64 (word_of_int after), advance 57 ?r)" "rd_u8 (advance 57 ?r) = Inr (n, advance 58 ?r)"
    using parts r len by (auto simp: rd_array_starts rd_u8_starts)
  have "as_i64 (word_of_int after) = after"
    using len by (simp add: as_i64_def signed_of_int signed_take_bit_int_eq_self_iff)
  then have page: "read_page 0 (advance 33 ?r) = Inr (Some g, after, uint n)"
    using length by (simp add: read_page_def reads rd_u64_def rd_finish_def starts_whole)
  have "sync_group (dr_now w) (as_device a) g after (uint n) (quiet t) = (Inr (map sync_event rows), quiet t)"
    using group_page_rows(1) [OF t(1)] t(3) by (simp add: rows_def)
  then show ?thesis
    unfolding dispatch_def kind
    by (simp add: dispatch_sync_def reads authenticate_quiet [OF t(1,2)] sync_operation_def page)
qed

lemma fresh_page:
  assumes "schema_ok t" "e \<in> set (group_events t)" "ev_group e = g" "0 < ev_cursor e" "now < ev_expires e"
  shows "\<exists>rest. event_page now (ev_cursor e - 1) limit (\<lambda>e. ev_group e = g) (group_events t) = e # rest"
proof -
  let ?rows = "event_page now (ev_cursor e - 1) limit (\<lambda>e. ev_group e = g) (group_events t)"
  note page = group_page_rows [OF assms(1), where now = now and after = "ev_cursor e - 1" and limit = limit and g = g]
  have low: "ev_cursor e \<le> ev_cursor x" if "x \<in> set ?rows" for x
    using page(2) that assms(4) by (auto simp: pageable_def)
  have "e \<in> pageable now (ev_cursor e - 1) (\<lambda>e. ev_group e = g) t"
    using assms by (simp add: pageable_def)
  then have "e \<in> set ?rows"
    using page(5) [of e] low by (metis leD list.set_intros(1) neq_Nil_conv)
  then show ?thesis
    using page(4) low by (cases ?rows) fastforce+
qed

section \<open>Example\<close>

definition demo_upload :: TransportFrame where
  "demo_upload = demo_frame UploadEnvelope (upload_body (replicate 32 7) demo_group (replicate 16 1) 5 [42])"

definition demo_page :: TransportFrame where
  "demo_page = demo_frame SyncRequest (page_body (replicate 32 7) demo_group 8 10)"

definition demo_session :: access_row where
  "demo_session = \<lparr>as_hash = token_hash plain_hash (ascii ''access'') (replicate 32 7), as_device = demo_device,
     as_expires = 1000\<rparr>"

definition demo_later :: backend where
  "demo_later = foldl (api_step demo_crypto) (live (snd (dispatch demo_crypto demo_draws demo_upload (on_pool demo_online []))))
     [(7, [], FetchKeyPackage demo_device)]"

lemma demo_online_ok: "schema_ok demo_online"
proof -
  have "access_table (dv_id ` set (devices demo_backend)) [demo_session]"
    by (auto simp: access_table_def demo_session_def token_hash_def keyed_def demo_backend_def)
  then show ?thesis
    using demo_schema_ok by (simp add: schema_ok_def demo_online_def demo_session_def)
qed

end
