(* ===== verification/Local_Store.thy ===== *)
theory Local_Store
  imports Tables Primitives "HOL-Library.List_Lexorder" "HOL-Library.Product_Lexorder"
begin

text \<open>
  The client's local source of truth, \<open>MessengerCore\<close> of
  \<^verbatim>\<open>crates/messenger-core/src/lib.rs\<close>: an SQLite database with an outbox, an inbox and message
  rows encrypted under a master key. The tables are lists of rows in rowid order with their
  \<open>CHECK\<close>, \<open>PRIMARY KEY\<close> and \<open>REFERENCES\<close> constraints and the revision triggers; every
  operation is a computation on a connection whose statements may fail one by one
  (\<open>Tables.db_stmt\<close>), so that what an interrupted operation leaves behind is part of the model.
  The AEAD, \<open>str::to_lowercase\<close>, random ids and nonces and the clock are arguments.
\<close>

section \<open>Errors, statuses and values\<close>

datatype core_error = Database | Authentication | InvalidTransition | NotFound | InvalidMasterKey

datatype message_status = Draft | Queued | Encrypting | ReadyToUpload | Uploading | ServerAccepted
  | Delivered | Read | RetryScheduled | FailedPermanent | Cancelled

fun status_code :: "message_status \<Rightarrow> int" where
  "status_code Draft = 0"
| "status_code Queued = 1"
| "status_code Encrypting = 2"
| "status_code ReadyToUpload = 3"
| "status_code Uploading = 4"
| "status_code ServerAccepted = 5"
| "status_code Delivered = 6"
| "status_code Read = 7"
| "status_code RetryScheduled = 8"
| "status_code FailedPermanent = 9"
| "status_code Cancelled = 10"

definition status_try_from :: "int \<Rightarrow> (core_error, message_status) result" where
  "status_try_from value =
     (if value = 0 then Inr Draft
      else if value = 1 then Inr Queued
      else if value = 2 then Inr Encrypting
      else if value = 3 then Inr ReadyToUpload
      else if value = 4 then Inr Uploading
      else if value = 5 then Inr ServerAccepted
      else if value = 6 then Inr Delivered
      else if value = 7 then Inr Read
      else if value = 8 then Inr RetryScheduled
      else if value = 9 then Inr FailedPermanent
      else if value = 10 then Inr Cancelled
      else Inl InvalidTransition)"

record local_message =
  lm_client_message_id :: bytes
  lm_conversation_id :: bytes
  lm_plaintext :: bytes
  lm_status :: message_status
  lm_created_at_ms :: int

record pending_upload =
  pu_client_message_id :: bytes
  pu_conversation_id :: bytes
  pu_encrypted_payload :: bytes
  pu_attempts :: u32

record conversation_summary =
  cs_conversation_id :: bytes
  cs_updated_at_ms :: int

record incoming_event =
  in_event_id :: bytes
  in_conversation_id :: bytes
  in_encrypted_event :: bytes

record cached_relay_directory =
  crd_version :: u64
  crd_signed_directory :: bytes
  crd_expires_at_ms :: int

datatype network_mode = Normal | Limited | Survival

record network_diagnostics =
  nd_mode :: network_mode
  nd_pending_uploads :: u64
  nd_last_cursor :: u64

section \<open>Tables\<close>

record conversation_row =
  cv_id :: bytes
  cv_updated :: int

record message_row =
  ms_id :: bytes
  ms_conversation :: bytes
  ms_body :: bytes
  ms_status :: int
  ms_created :: int

record outbox_row =
  ob_id :: bytes
  ob_next :: int
  ob_attempts :: int

record inbox_row =
  ib_id :: bytes
  ib_conversation :: bytes
  ib_body :: bytes
  ib_received :: int

record member_row =
  mb_conversation :: bytes
  mb_device :: bytes
  mb_account :: bytes
  mb_removed :: "int option"

record relay_row =
  rd_version :: int
  rd_signed :: bytes
  rd_expires :: int

text \<open>
  The database file. The singleton tables hold at most the row with \<open>singleton = 1\<close>. Tables no
  operation of the crate fills (\<open>receipts\<close>, \<open>contact_requests\<close>, \<open>crypto_state\<close>, \<open>account_state\<close>,
  \<open>device_state\<close>, \<open>tombstones\<close>) are there because \<open>wipe_local_account\<close> empties some of them.
\<close>

record store =
  conversations :: "conversation_row list"
  messages :: "message_row list"
  outbox :: "outbox_row list"
  inbox :: "inbox_row list"
  sync_cursors :: "(bytes \<times> int) list"
  members :: "member_row list"
  blocked :: "(bytes \<times> int) list"
  relay_cache :: "relay_row list"
  receipts :: "(bytes \<times> int \<times> int) list"
  contact_requests :: "(bytes \<times> bytes \<times> int) list"
  crypto_state :: "(bytes \<times> bytes \<times> int) list"
  account_state :: "bytes option"
  device_state :: "(bytes \<times> bytes) list"
  tombstones :: "(bytes \<times> int \<times> int) list"
  network_state :: "int option"
  key_metadata :: "int option"
  change_counter :: "int option"
  user_version :: int

type_synonym 'a core_db = "(core_error, store, 'a) db"

definition empty_store :: store where
  "empty_store =
     \<lparr>conversations = [], messages = [], outbox = [], inbox = [], sync_cursors = [], members = [],
      blocked = [], relay_cache = [], receipts = [], contact_requests = [], crypto_state = [],
      account_state = None, device_state = [], tombstones = [], network_state = None,
      key_metadata = None, change_counter = None, user_version = 0\<rparr>"

text \<open>The triggers: one increment of the revision for every row a statement inserts or updates.\<close>

definition bump :: "nat \<Rightarrow> store \<Rightarrow> store" where
  "bump n s = s\<lparr>change_counter := map_option (\<lambda>r. r + int n) (change_counter s)\<rparr>"

section \<open>Statements\<close>

text \<open>
  A constraint that fails aborts a plain \<open>INSERT\<close> with a database error; \<open>INSERT OR IGNORE\<close>
  skips the row instead (except for \<open>REFERENCES\<close>). Each statement returns the rows it changed.
\<close>

definition insert_conversation_or_ignore :: "conversation_row \<Rightarrow> nat core_db" where
  "insert_conversation_or_ignore r = db_stmt Database (\<lambda>s.
     if length (cv_id r) = 16 then
       let (n, rows) = insert_ignore cv_id r (conversations s)
       in Inr (n, bump n (s\<lparr>conversations := rows\<rparr>))
     else Inr (0, s))"

text \<open>\<open>ON CONFLICT DO NOTHING\<close> covers the key only: a failed \<open>CHECK\<close> is still an error.\<close>

definition insert_conversation_do_nothing :: "conversation_row \<Rightarrow> nat core_db" where
  "insert_conversation_do_nothing r = db_stmt Database (\<lambda>s.
     if length (cv_id r) = 16 then
       let (n, rows) = insert_ignore cv_id r (conversations s)
       in Inr (n, bump n (s\<lparr>conversations := rows\<rparr>))
     else Inl Database)"

definition insert_message :: "message_row \<Rightarrow> unit core_db" where
  "insert_message r = db_stmt Database (\<lambda>s.
     if length (ms_id r) = 16 \<and> has_key cv_id (ms_conversation r) (conversations s) then
       case insert_new ms_id r (messages s) of
         None \<Rightarrow> Inl Database
       | Some rows \<Rightarrow> Inr ((), bump 1 (s\<lparr>messages := rows\<rparr>))
     else Inl Database)"

definition insert_outbox :: "outbox_row \<Rightarrow> unit core_db" where
  "insert_outbox r = db_stmt Database (\<lambda>s.
     if 0 \<le> ob_attempts r \<and> has_key ms_id (ob_id r) (messages s) then
       case insert_new ob_id r (outbox s) of
         None \<Rightarrow> Inl Database
       | Some rows \<Rightarrow> Inr ((), s\<lparr>outbox := rows\<rparr>)
     else Inl Database)"

definition update_messages :: "(message_row \<Rightarrow> bool) \<Rightarrow> (message_row \<Rightarrow> message_row) \<Rightarrow> nat core_db" where
  "update_messages p f = db_stmt Database (\<lambda>s.
     let (n, rows) = update_where p f (messages s) in Inr (n, bump n (s\<lparr>messages := rows\<rparr>)))"

definition delete_outbox :: "bytes \<Rightarrow> unit core_db" where
  "delete_outbox message_id = db_stmt Database (\<lambda>s.
     Inr ((), s\<lparr>outbox := delete_where (\<lambda>r. ob_id r = message_id) (outbox s)\<rparr>))"

definition insert_inbox_or_ignore :: "inbox_row \<Rightarrow> nat core_db" where
  "insert_inbox_or_ignore r = db_stmt Database (\<lambda>s.
     if length (ib_id r) = 16 then
       let (n, rows) = insert_ignore ib_id r (inbox s)
       in Inr (n, bump n (s\<lparr>inbox := rows\<rparr>))
     else Inr (0, s))"

section \<open>Encryption at rest\<close>

text \<open>The AEAD is XChaCha20-Poly1305, with the domain of local messages as associated data.\<close>

text \<open>\<open>b"resilient/local-message/v1"\<close>\<close>

definition MESSAGE_AAD :: bytes where
  "MESSAGE_AAD = [0x72, 0x65, 0x73, 0x69, 0x6c, 0x69, 0x65, 0x6e, 0x74, 0x2f, 0x6c, 0x6f, 0x63, 0x61,
     0x6c, 0x2d, 0x6d, 0x65, 0x73, 0x73, 0x61, 0x67, 0x65, 0x2f, 0x76, 0x31]"

definition encrypt :: "aead \<Rightarrow> bytes \<Rightarrow> bytes \<Rightarrow> bytes \<Rightarrow> (core_error, bytes) result" where
  "encrypt A key nonce plaintext =
     (if length key \<noteq> 32 then Inl Authentication
      else and_then (ok_or Authentication (seal A key nonce MESSAGE_AAD plaintext))
        (\<lambda>ct. Inr (nonce @ ct)))"

definition decrypt :: "aead \<Rightarrow> bytes \<Rightarrow> bytes \<Rightarrow> (core_error, bytes) result" where
  "decrypt A key blob =
     (if length blob < 40 then Inl Authentication
      else if length key \<noteq> 32 then Inl Authentication
      else ok_or Authentication (unseal A key (take 24 blob) MESSAGE_AAD (drop 24 blob)))"

definition fixed_id :: "bytes \<Rightarrow> (core_error, bytes) result" where
  "fixed_id value = (if length value = 16 then Inr value else Inl Authentication)"

text \<open>\<open>String::from_utf8\<close>\<close>

definition string_from_utf8 :: "bytes \<Rightarrow> (core_error, bytes) result" where
  "string_from_utf8 b = (if utf8_valid b then Inr b else Inl Authentication)"

section \<open>Opening and migrating\<close>

definition SCHEMA_VERSION :: int where
  "SCHEMA_VERSION = 2"

definition query_user_version :: "int core_db" where
  "query_user_version = db_query Database (\<lambda>s. Inr (user_version s))"

text \<open>
  The batch creates what is missing (a missing table is an empty one here), fills the singleton
  rows that are missing and sets the version. \<open>open\<close> drops the connection when \<open>migrate\<close> fails,
  so that a batch that stops half way is rolled back.
\<close>

definition create_schema :: "store \<Rightarrow> store" where
  "create_schema s =
     s\<lparr>network_state := Some (case network_state s of None \<Rightarrow> 0 | Some m \<Rightarrow> m),
       key_metadata := Some (case key_metadata s of None \<Rightarrow> 1 | Some v \<Rightarrow> v),
       change_counter := Some (case change_counter s of None \<Rightarrow> 0 | Some r \<Rightarrow> r),
       user_version := SCHEMA_VERSION\<rparr>"

definition migrate :: "unit core_db" where
  "migrate =
     db_bind query_user_version (\<lambda>version.
     if version > SCHEMA_VERSION then db_fail Database
     else
       db_then (db_transaction Database (db_stmt Database (\<lambda>s. Inr ((), create_schema s))))
       (db_bind query_user_version (\<lambda>version.
        if version \<noteq> SCHEMA_VERSION then db_fail Database else db_return ())))"

text \<open>The core: the connection and the master key that is active.\<close>

record core =
  db :: "store conn"
  master_key :: bytes

text \<open>A fresh connection on the file \<open>file\<close>; \<open>fs\<close> are the failures it will meet.\<close>

definition open_core :: "store \<Rightarrow> bool list \<Rightarrow> bytes \<Rightarrow> (core_error, core) result" where
  "open_core file fs key =
     (if length key \<noteq> 32 then Inl InvalidMasterKey
      else case migrate \<lparr>live = file, saved = None, faults = fs\<rparr> of
             (Inl e, _) \<Rightarrow> Inl e
           | (Inr _, c) \<Rightarrow> Inr \<lparr>db = c, master_key = key\<rparr>)"

definition open_in_memory :: "bool list \<Rightarrow> bytes \<Rightarrow> (core_error, core) result" where
  "open_in_memory fs key = open_core empty_store fs key"

section \<open>Messages\<close>

definition create_message :: "aead \<Rightarrow> bytes \<Rightarrow> bytes \<Rightarrow> bytes \<Rightarrow> int \<Rightarrow> bytes \<Rightarrow> bytes \<Rightarrow> bytes core_db" where
  "create_message A key client_message_id nonce now conversation_id plaintext =
     db_bind (db_lift (encrypt A key nonce plaintext)) (\<lambda>encrypted.
     db_transaction Database
       (db_then (insert_conversation_or_ignore \<lparr>cv_id = conversation_id, cv_updated = now\<rparr>)
       (db_then (insert_message \<lparr>ms_id = client_message_id, ms_conversation = conversation_id,
          ms_body = encrypted, ms_status = status_code ReadyToUpload, ms_created = now\<rparr>)
       (db_then (insert_outbox \<lparr>ob_id = client_message_id, ob_next = now, ob_attempts = 0\<rparr>)
       (db_then (db_stmt Database (\<lambda>s. Inr ((), s\<lparr>conversations :=
          snd (update_where (\<lambda>r. cv_id r = conversation_id) (\<lambda>r. r\<lparr>cv_updated := now\<rparr>)
            (conversations s))\<rparr>)))
       (db_return client_message_id))))))"

definition read_message :: "aead \<Rightarrow> bytes \<Rightarrow> message_row \<Rightarrow> (core_error, local_message) result" where
  "read_message A key r =
     and_then (decrypt A key (ms_body r)) (\<lambda>b.
     and_then (string_from_utf8 b) (\<lambda>plaintext.
     and_then (fixed_id (ms_id r)) (\<lambda>id.
     and_then (status_try_from (ms_status r)) (\<lambda>status.
     Inr \<lparr>lm_client_message_id = id, lm_conversation_id = ms_conversation r, lm_plaintext = plaintext,
          lm_status = status, lm_created_at_ms = ms_created r\<rparr>))))"

text \<open>\<open>ORDER BY created_at_ms, rowid\<close>: a stable sort of the rows in rowid order.\<close>

definition list_messages :: "aead \<Rightarrow> bytes \<Rightarrow> bytes \<Rightarrow> local_message list core_db" where
  "list_messages A key conversation_id = db_query Database (\<lambda>s.
     collect_results (read_message A key)
       (sort_key ms_created (filter (\<lambda>r. ms_conversation r = conversation_id) (messages s))))"

definition list_conversations :: "conversation_summary list core_db" where
  "list_conversations = db_query Database (\<lambda>s.
     collect_results (\<lambda>r. and_then (fixed_id (cv_id r)) (\<lambda>id.
         Inr \<lparr>cs_conversation_id = id, cs_updated_at_ms = cv_updated r\<rparr>))
       (sort_key (\<lambda>r. (- cv_updated r, cv_id r)) (conversations s)))"

definition observe_conversation_changes :: "u64 \<Rightarrow> u64 core_db" where
  "observe_conversation_changes after_revision = db_query Database (\<lambda>s.
     case change_counter s of
       None \<Rightarrow> Inl Database
     | Some revision \<Rightarrow> Inr (max (word_of_int revision) after_revision))"

section \<open>Groups\<close>

definition create_group :: "int \<Rightarrow> bytes \<Rightarrow> unit core_db" where
  "create_group now group_id =
     db_then (insert_conversation_do_nothing \<lparr>cv_id = group_id, cv_updated = now\<rparr>) (db_return ())"

definition member_key :: "member_row \<Rightarrow> bytes \<times> bytes" where
  "member_key r = (mb_conversation r, mb_device r)"

definition add_member :: "bytes \<Rightarrow> bytes \<Rightarrow> bytes \<Rightarrow> unit core_db" where
  "add_member group_id device_id account_id = db_stmt Database (\<lambda>s.
     if length device_id = 16 \<and> length account_id = 32 \<and> has_key cv_id group_id (conversations s) then
       Inr ((), bump 1 (s\<lparr>members :=
         upsert member_key
           \<lparr>mb_conversation = group_id, mb_device = device_id, mb_account = account_id, mb_removed = None\<rparr>
           (\<lambda>r. r\<lparr>mb_account := account_id, mb_removed := None\<rparr>) (members s)\<rparr>))
     else Inl Database)"

definition remove_member :: "int \<Rightarrow> bytes \<Rightarrow> bytes \<Rightarrow> unit core_db" where
  "remove_member now group_id device_id =
     db_bind (db_stmt Database (\<lambda>s.
       let (n, rows) = update_where
             (\<lambda>r. mb_conversation r = group_id \<and> mb_device r = device_id \<and> mb_removed r = None)
             (\<lambda>r. r\<lparr>mb_removed := Some now\<rparr>) (members s)
       in Inr (n, bump n (s\<lparr>members := rows\<rparr>)))) (\<lambda>changed.
     if changed = 1 then db_return () else db_fail NotFound)"

section \<open>The outbox\<close>

text \<open>\<open>row.get::<_, u32>\<close> fails on a value that does not fit.\<close>

definition get_u32 :: "int \<Rightarrow> (core_error, u32) result" where
  "get_u32 v = (if 0 \<le> v \<and> v < 2 ^ 32 then Inr (word_of_int v) else Inl Database)"

text \<open>The join drops an outbox row whose message is gone; \<open>LIMIT\<close> is at most 50.\<close>

definition due_rows :: "int \<Rightarrow> nat \<Rightarrow> store \<Rightarrow> (outbox_row \<times> message_row) list" where
  "due_rows now limit s =
     take (min limit 50)
       (sort_key (\<lambda>(r, _). ob_next r)
         (List.map_filter (\<lambda>r. map_option (\<lambda>m. (r, m)) (find_row ms_id (ob_id r) (messages s)))
           (filter (\<lambda>r. ob_next r \<le> now) (outbox s))))"

definition pending_row :: "outbox_row \<times> message_row \<Rightarrow> (core_error, pending_upload) result" where
  "pending_row = (\<lambda>(r, m).
     and_then (get_u32 (ob_attempts r)) (\<lambda>attempts.
     and_then (fixed_id (ms_id m)) (\<lambda>message.
     and_then (fixed_id (ms_conversation m)) (\<lambda>conversation.
     Inr \<lparr>pu_client_message_id = message, pu_conversation_id = conversation,
          pu_encrypted_payload = ms_body m, pu_attempts = attempts\<rparr>))))"

definition get_pending_uploads :: "int \<Rightarrow> nat \<Rightarrow> pending_upload list core_db" where
  "get_pending_uploads now limit =
     db_query Database (\<lambda>s. collect_results pending_row (due_rows now limit s))"

definition query_status :: "bytes \<Rightarrow> int option core_db" where
  "query_status message_id = db_query Database (\<lambda>s.
     Inr (map_option ms_status (find_row ms_id message_id (messages s))))"

definition set_status :: "bytes \<Rightarrow> message_status \<Rightarrow> (int \<Rightarrow> bool) \<Rightarrow> nat core_db" where
  "set_status message_id status allowed =
     update_messages (\<lambda>r. ms_id r = message_id \<and> allowed (ms_status r))
       (\<lambda>r. r\<lparr>ms_status := status_code status\<rparr>)"

definition mark_upload_accepted :: "bytes \<Rightarrow> unit core_db" where
  "mark_upload_accepted message_id = db_transaction Database
     (db_bind (set_status message_id ServerAccepted (\<lambda>v. v \<in>
        {status_code ReadyToUpload, status_code Uploading, status_code RetryScheduled})) (\<lambda>changed.
      db_bind (query_status message_id) (\<lambda>already.
      if changed = 0 \<and> already \<noteq> Some (status_code ServerAccepted) then
        db_fail (if already \<noteq> None then InvalidTransition else NotFound)
      else delete_outbox message_id)))"

definition saturating_mul64 :: "int \<Rightarrow> int \<Rightarrow> int" where
  "saturating_mul64 a b = max (- (2 ^ 63)) (min (2 ^ 63 - 1) (a * b))"

text \<open>Two's complement at 64 bits, the release build's \<open>+\<close> on \<open>i64\<close>.\<close>

definition wrap_i64 :: "int \<Rightarrow> int" where
  "wrap_i64 v = sint (word_of_int v :: u64)"

definition retry_delay :: "u32 \<Rightarrow> int" where
  "retry_delay attempts = saturating_mul64 1000 (2 ^ unat (min attempts 10))"

text \<open>No transaction: the two updates commit one by one.\<close>

definition retry_message :: "int \<Rightarrow> bytes \<Rightarrow> unit core_db" where
  "retry_message now message_id =
     db_bind (db_query Database (\<lambda>s.
       case find_row ob_id message_id (outbox s) of
         None \<Rightarrow> Inl NotFound
       | Some r \<Rightarrow> get_u32 (ob_attempts r))) (\<lambda>attempts.
     db_then (db_stmt Database (\<lambda>s. Inr ((), s\<lparr>outbox :=
       snd (update_where (\<lambda>r. ob_id r = message_id)
         (\<lambda>r. r\<lparr>ob_attempts := ob_attempts r + 1, ob_next := wrap_i64 (now + retry_delay attempts)\<rparr>)
         (outbox s))\<rparr>)))
     (db_then (set_status message_id RetryScheduled (\<lambda>_. True))
     (db_return ())))"

definition cancel_pending_message :: "bytes \<Rightarrow> unit core_db" where
  "cancel_pending_message message_id = db_transaction Database
     (db_bind (set_status message_id Cancelled (\<lambda>v. v \<in>
        {status_code Queued, status_code ReadyToUpload, status_code RetryScheduled})) (\<lambda>changed.
      if changed = 0 then db_fail InvalidTransition
      else delete_outbox message_id))"

section \<open>The inbox and receipts\<close>

definition ingest_server_event :: "int \<Rightarrow> bytes \<Rightarrow> bytes \<Rightarrow> bytes \<Rightarrow> bool core_db" where
  "ingest_server_event now event_id conversation_id encrypted_event =
     db_bind (insert_inbox_or_ignore \<lparr>ib_id = event_id, ib_conversation = conversation_id,
       ib_body = encrypted_event, ib_received = now\<rparr>) (\<lambda>changed. db_return (changed = 1))"

definition incoming_row :: "int \<Rightarrow> incoming_event \<Rightarrow> inbox_row" where
  "incoming_row now event =
     \<lparr>ib_id = in_event_id event, ib_conversation = in_conversation_id event,
      ib_body = in_encrypted_event event, ib_received = now\<rparr>"

text \<open>\<open>clock i\<close> is the time read for the \<open>i\<close>-th event of the batch.\<close>

definition ingest_server_batch :: "(nat \<Rightarrow> int) \<Rightarrow> incoming_event list \<Rightarrow> nat core_db" where
  "ingest_server_batch clock events =
     (if length events > 50 then db_fail InvalidTransition
      else db_transaction Database
        (db_bind (db_for (\<lambda>(i, event). insert_inbox_or_ignore (incoming_row (clock i) event))
           (enumerate 0 events))
         (\<lambda>inserted. db_return (sum_list inserted))))"

definition set_sync_cursor :: "bytes \<Rightarrow> u64 \<Rightarrow> unit core_db" where
  "set_sync_cursor scope cursor =
     db_bind (db_query Database (\<lambda>s. Inr (map_option snd (find_row fst scope (sync_cursors s)))))
     (\<lambda>current.
     if (case current of None \<Rightarrow> False | Some v \<Rightarrow> cursor < word_of_int v) then db_fail InvalidTransition
     else db_stmt Database (\<lambda>s.
       if length scope = 16 \<and> 0 \<le> sint cursor then
         Inr ((), s\<lparr>sync_cursors :=
           upsert fst (scope, sint cursor) (\<lambda>r. (fst r, sint cursor)) (sync_cursors s)\<rparr>)
       else Inl Database))"

definition advance_message_status :: "bytes \<Rightarrow> message_status \<Rightarrow> unit core_db" where
  "advance_message_status message_id status =
     db_bind (set_status message_id status (\<lambda>v. v < status_code status)) (\<lambda>changed.
     if changed = 0 then
       db_bind (db_query Database (\<lambda>s. Inr (has_key ms_id message_id (messages s)))) (\<lambda>exists.
       if \<not> exists then db_fail NotFound else db_return ())
     else db_return ())"

definition apply_delivery_receipt :: "bytes \<Rightarrow> unit core_db" where
  "apply_delivery_receipt message_id = advance_message_status message_id Delivered"

definition apply_read_receipt :: "bytes \<Rightarrow> unit core_db" where
  "apply_read_receipt message_id = advance_message_status message_id Read"

section \<open>Blocking, network mode, relay directory\<close>

definition block_account :: "int \<Rightarrow> bytes \<Rightarrow> unit core_db" where
  "block_account now account_id = db_stmt Database (\<lambda>s.
     if length account_id = 32
     then Inr ((), s\<lparr>blocked := snd (insert_ignore fst (account_id, now) (blocked s))\<rparr>)
     else Inr ((), s))"

definition unblock_account :: "bytes \<Rightarrow> unit core_db" where
  "unblock_account account_id = db_stmt Database (\<lambda>s.
     Inr ((), s\<lparr>blocked := delete_where (\<lambda>r. fst r = account_id) (blocked s)\<rparr>))"

fun mode_code :: "network_mode \<Rightarrow> int" where
  "mode_code Normal = 0"
| "mode_code Limited = 1"
| "mode_code Survival = 2"

definition set_network_mode :: "network_mode \<Rightarrow> unit core_db" where
  "set_network_mode mode = db_stmt Database (\<lambda>s.
     Inr ((), s\<lparr>network_state := map_option (\<lambda>_. mode_code mode) (network_state s)\<rparr>))"

definition get_network_diagnostics :: "network_diagnostics core_db" where
  "get_network_diagnostics =
     db_bind (db_query Database (\<lambda>s. ok_or Database (network_state s))) (\<lambda>mode.
     db_bind (db_query Database (\<lambda>s. Inr (int (length (outbox s))))) (\<lambda>pending_uploads.
     db_bind (db_query Database (\<lambda>s. Inr (if sync_cursors s = [] then 0
        else Max (snd ` set (sync_cursors s))))) (\<lambda>last_cursor.
     db_lift (and_then
       (if mode = 0 then Inr Normal
        else if mode = 1 then Inr Limited
        else if mode = 2 then Inr Survival
        else Inl Authentication) (\<lambda>mode.
       Inr \<lparr>nd_mode = mode, nd_pending_uploads = word_of_int pending_uploads,
            nd_last_cursor = word_of_int last_cursor\<rparr>)))))"

definition max_version :: "store \<Rightarrow> int option" where
  "max_version s = (if relay_cache s = [] then None else Some (Max (rd_version ` set (relay_cache s))))"

definition cache_relay_directory :: "cached_relay_directory \<Rightarrow> unit core_db" where
  "cache_relay_directory directory =
     db_bind (db_query Database (\<lambda>s. Inr (max_version s))) (\<lambda>current.
     if (case current of None \<Rightarrow> False | Some v \<Rightarrow> crd_version directory < word_of_int v)
     then db_fail InvalidTransition
     else db_stmt Database (\<lambda>s.
       let version = sint (crd_version directory) in
       if 0 \<le> version then
         Inr ((), s\<lparr>relay_cache := upsert rd_version
           \<lparr>rd_version = version, rd_signed = crd_signed_directory directory,
            rd_expires = crd_expires_at_ms directory\<rparr>
           (\<lambda>r. r\<lparr>rd_signed := crd_signed_directory directory,
                  rd_expires := crd_expires_at_ms directory\<rparr>) (relay_cache s)\<rparr>)
       else Inl Database))"

definition last_relay_directory :: "cached_relay_directory option core_db" where
  "last_relay_directory = db_query Database (\<lambda>s.
     Inr (case sort_key (\<lambda>r. - rd_version r) (relay_cache s) of
            [] \<Rightarrow> None
          | r # _ \<Rightarrow> Some \<lparr>crd_version = word_of_int (rd_version r), crd_signed_directory = rd_signed r,
                            crd_expires_at_ms = rd_expires r\<rparr>))"

section \<open>Search\<close>

text \<open>\<open>str::contains\<close> on the UTF-8 bytes.\<close>

fun contains_bytes :: "bytes \<Rightarrow> bytes \<Rightarrow> bool" where
  "contains_bytes [] pat = (pat = [])"
| "contains_bytes (b # bs) pat = (take (length pat) (b # bs) = pat \<or> contains_bytes bs pat)"

text \<open>
  The loop over the rows: every row is decrypted, also those that do not match, and the first
  that fails ends the search. \<open>lower\<close> is \<open>str::to_lowercase\<close>.
\<close>

fun search_rows :: "aead \<Rightarrow> (bytes \<Rightarrow> bytes) \<Rightarrow> bytes \<Rightarrow> bytes \<Rightarrow> message_row list \<Rightarrow>
    (core_error, local_message list) result" where
  "search_rows A lower key query [] = Inr []"
| "search_rows A lower key query (r # rows) =
     and_then (decrypt A key (ms_body r)) (\<lambda>b.
     and_then (string_from_utf8 b) (\<lambda>plaintext.
     if contains_bytes (lower plaintext) (lower query) then
       and_then (fixed_id (ms_id r)) (\<lambda>message_id.
       and_then (fixed_id (ms_conversation r)) (\<lambda>conversation.
       and_then (status_try_from (ms_status r)) (\<lambda>status.
       and_then (search_rows A lower key query rows) (\<lambda>found.
       Inr (\<lparr>lm_client_message_id = message_id, lm_conversation_id = conversation,
             lm_plaintext = plaintext, lm_status = status, lm_created_at_ms = ms_created r\<rparr> # found)))))
     else search_rows A lower key query rows))"

text \<open>\<open>ORDER BY created_at_ms DESC\<close> leaves rows with equal times in any order; here, rowid order.\<close>

definition local_search :: "aead \<Rightarrow> (bytes \<Rightarrow> bytes) \<Rightarrow> bytes \<Rightarrow> bytes \<Rightarrow> local_message list core_db" where
  "local_search A lower key query =
     (if query = [] then db_return []
      else db_query Database (\<lambda>s.
        search_rows A lower key query (sort_key (\<lambda>r. - ms_created r) (messages s))))"

section \<open>Key rotation and wiping\<close>

text \<open>\<open>nonces i\<close> is the nonce drawn for the \<open>i\<close>-th row.\<close>

definition reencrypt_row :: "aead \<Rightarrow> bytes \<Rightarrow> bytes \<Rightarrow> bytes \<Rightarrow> message_row \<Rightarrow> nat core_db" where
  "reencrypt_row A active replacement nonce r =
     db_bind (db_lift (decrypt A active (ms_body r))) (\<lambda>plaintext.
     db_bind (db_lift (encrypt A replacement nonce plaintext)) (\<lambda>reencrypted.
     update_messages (\<lambda>m. ms_id m = ms_id r) (\<lambda>m. m\<lparr>ms_body := reencrypted\<rparr>)))"

definition reencrypt_rows :: "aead \<Rightarrow> bytes \<Rightarrow> bytes \<Rightarrow> (nat \<Rightarrow> bytes) \<Rightarrow> message_row list \<Rightarrow> nat list core_db" where
  "reencrypt_rows A active replacement nonces rows =
     db_for (\<lambda>(i, r). reencrypt_row A active replacement (nonces i) r) (enumerate 0 rows)"

definition rotate_master_key :: "aead \<Rightarrow> (nat \<Rightarrow> bytes) \<Rightarrow> bytes \<Rightarrow> u32 \<Rightarrow> core \<Rightarrow>
    (core_error, unit) result \<times> core" where
  "rotate_master_key A nonces new_key new_version core =
     (if length new_key \<noteq> 32 then (Inl InvalidMasterKey, core)
      else case db_transaction Database
             (db_bind (db_query Database (\<lambda>s. ok_or Database (key_metadata s))) (\<lambda>current.
              if uint new_version \<noteq> current + 1 then db_fail InvalidTransition
              else
                db_bind (db_query Database (\<lambda>s. Inr (messages s))) (\<lambda>rows.
                db_then (reencrypt_rows A (master_key core) new_key nonces rows)
                (db_stmt Database (\<lambda>s. Inr ((), s\<lparr>key_metadata :=
                   map_option (\<lambda>_. uint new_version) (key_metadata s)\<rparr>))))))
             (db core) of
           (Inl e, c) \<Rightarrow> (Inl e, core\<lparr>db := c\<rparr>)
         | (Inr _, c) \<Rightarrow> (Inr (), core\<lparr>db := c, master_key := new_key\<rparr>))"

definition wipe_statements :: "(store \<Rightarrow> store) list" where
  "wipe_statements =
     [\<lambda>s. s\<lparr>outbox := []\<rparr>, \<lambda>s. s\<lparr>inbox := []\<rparr>, \<lambda>s. s\<lparr>messages := [], outbox := []\<rparr>,
      \<lambda>s. s\<lparr>members := []\<rparr>, \<lambda>s. s\<lparr>conversations := [], members := []\<rparr>, \<lambda>s. s\<lparr>sync_cursors := []\<rparr>,
      \<lambda>s. s\<lparr>receipts := []\<rparr>, \<lambda>s. s\<lparr>contact_requests := []\<rparr>, \<lambda>s. s\<lparr>blocked := []\<rparr>,
      \<lambda>s. s\<lparr>relay_cache := []\<rparr>, \<lambda>s. s\<lparr>crypto_state := []\<rparr>, bump 1]"

text \<open>
  \<open>execute_batch\<close> has no guard: a statement that fails after \<open>BEGIN\<close> leaves the transaction open
  on the connection, unless the failure is one on which SQLite rolls back by itself
  (\<open>auto_rollback\<close>).
\<close>

definition wipe_local_account :: "bool \<Rightarrow> unit core_db" where
  "wipe_local_account auto_rollback c =
     (case db_stmt Database (\<lambda>s. if saved c = None then Inr ((), s) else Inl Database) c of
        (Inl e, c1) \<Rightarrow> (Inl e, c1)
      | (Inr _, c1) \<Rightarrow>
          (case db_then (db_for (\<lambda>f. db_stmt Database (\<lambda>s. Inr ((), f s))) wipe_statements)
                  (db_stmt Database (\<lambda>s. Inr ((), s))) c1 of
             (Inr _, c2) \<Rightarrow> (Inr (), c2)
           | (Inl e, c2) \<Rightarrow>
               (Inl e, if auto_rollback then c2\<lparr>live := live c\<rparr> else c2\<lparr>saved := Some (live c)\<rparr>)))"

definition schema_version :: "int core_db" where
  "schema_version = query_user_version"

section \<open>One operation after another\<close>

text \<open>
  The operations that change the store, with the ids, nonces and times they draw. A step runs
  one of them with the failures \<open>fs\<close> and forgets its result.
\<close>

datatype core_op =
  CreateMessage bytes bytes int bytes bytes
| CreateGroup int bytes
| AddMember bytes bytes bytes
| RemoveMember int bytes bytes
| MarkUploadAccepted bytes
| RetryMessage int bytes
| CancelPendingMessage bytes
| IngestServerEvent int bytes bytes bytes
| IngestServerBatch "nat \<Rightarrow> int" "incoming_event list"
| SetSyncCursor bytes u64
| ApplyDeliveryReceipt bytes
| ApplyReadReceipt bytes
| BlockAccount int bytes
| UnblockAccount bytes
| SetNetworkMode network_mode
| CacheRelayDirectory cached_relay_directory
| RotateMasterKey "nat \<Rightarrow> bytes" bytes u32
| WipeLocalAccount bool
| Reopen

text \<open>The process is killed and the database opened again with the same key: rows that were not
  committed are gone.\<close>

definition reopen :: "core \<Rightarrow> core" where
  "reopen core =
     (case open_core (durable (db core)) (faults (db core)) (master_key core) of
        Inl _ \<Rightarrow> core\<lparr>db := quiet (durable (db core))\<rparr>
      | Inr core' \<Rightarrow> core')"

definition on_db :: "('a core_db) \<Rightarrow> core \<Rightarrow> core" where
  "on_db m core = core\<lparr>db := snd (m (db core))\<rparr>"

fun exec_op :: "aead \<Rightarrow> core_op \<Rightarrow> core \<Rightarrow> core" where
  "exec_op A (CreateMessage i n t c p) core = on_db (create_message A (master_key core) i n t c p) core"
| "exec_op A (CreateGroup t g) core = on_db (create_group t g) core"
| "exec_op A (AddMember g d a) core = on_db (add_member g d a) core"
| "exec_op A (RemoveMember t g d) core = on_db (remove_member t g d) core"
| "exec_op A (MarkUploadAccepted i) core = on_db (mark_upload_accepted i) core"
| "exec_op A (RetryMessage t i) core = on_db (retry_message t i) core"
| "exec_op A (CancelPendingMessage i) core = on_db (cancel_pending_message i) core"
| "exec_op A (IngestServerEvent t e c b) core = on_db (ingest_server_event t e c b) core"
| "exec_op A (IngestServerBatch k es) core = on_db (ingest_server_batch k es) core"
| "exec_op A (SetSyncCursor sc v) core = on_db (set_sync_cursor sc v) core"
| "exec_op A (ApplyDeliveryReceipt i) core = on_db (apply_delivery_receipt i) core"
| "exec_op A (ApplyReadReceipt i) core = on_db (apply_read_receipt i) core"
| "exec_op A (BlockAccount t a) core = on_db (block_account t a) core"
| "exec_op A (UnblockAccount a) core = on_db (unblock_account a) core"
| "exec_op A (SetNetworkMode m) core = on_db (set_network_mode m) core"
| "exec_op A (CacheRelayDirectory d) core = on_db (cache_relay_directory d) core"
| "exec_op A (RotateMasterKey ns k v) core = snd (rotate_master_key A ns k v core)"
| "exec_op A (WipeLocalAccount b) core = on_db (wipe_local_account b) core"
| "exec_op A Reopen core = reopen core"

definition core_step :: "aead \<Rightarrow> core \<Rightarrow> bool list \<times> core_op \<Rightarrow> core" where
  "core_step A core = (\<lambda>(fs, op). exec_op A op (core\<lparr>db := (db core)\<lparr>faults := fs\<rparr>\<rparr>))"

end
