(* ===== verification/Local_Store_Invariant.thy ===== *)
theory Local_Store_Invariant
  imports Local_Store
begin

text \<open>
  The invariant of the local store and that every operation keeps it, whichever statements fail:
  keys are unique, references resolve, columns satisfy their checks, the singleton rows are
  there, and the outbox agrees with the status of the messages. On top of it, every message
  stays readable under the master key that is active, key rotation included.
\<close>

section \<open>The invariant of the store\<close>

text \<open>Well-formed tables, by table; \<open>ids\<close> are the keys a column refers to.\<close>

definition conversations_ok :: "conversation_row list \<Rightarrow> bool" where
  "conversations_ok cs \<longleftrightarrow> keyed cv_id cs \<and> (\<forall>r \<in> set cs. length (cv_id r) = 16)"

definition messages_ok :: "bytes set \<Rightarrow> message_row list \<Rightarrow> bool" where
  "messages_ok ids ms \<longleftrightarrow> keyed ms_id ms \<and>
     (\<forall>r \<in> set ms. length (ms_id r) = 16 \<and> ms_conversation r \<in> ids \<and>
        ms_status r \<in> status_code ` {ReadyToUpload, ServerAccepted, Delivered, Read, RetryScheduled, Cancelled})"

definition members_ok :: "bytes set \<Rightarrow> member_row list \<Rightarrow> bool" where
  "members_ok ids mb \<longleftrightarrow> keyed member_key mb \<and>
     (\<forall>r \<in> set mb. length (mb_device r) = 16 \<and> length (mb_account r) = 32 \<and> mb_conversation r \<in> ids)"

text \<open>
  The outbox against the messages: a message that waits for the server has its outbox row, one
  that was accepted or cancelled has none.
\<close>

definition outbox_ok :: "message_row list \<Rightarrow> outbox_row list \<Rightarrow> bool" where
  "outbox_ok ms obs \<longleftrightarrow> keyed ob_id obs \<and>
     (\<forall>r \<in> set obs. ob_id r \<in> ms_id ` set ms \<and> 0 \<le> ob_attempts r) \<and>
     (\<forall>m \<in> set ms.
        (ms_status m \<in> status_code ` {ReadyToUpload, RetryScheduled} \<longrightarrow> ms_id m \<in> ob_id ` set obs) \<and>
        (ms_status m \<in> status_code ` {ServerAccepted, Cancelled} \<longrightarrow> ms_id m \<notin> ob_id ` set obs))"

definition inbox_ok :: "inbox_row list \<Rightarrow> bool" where
  "inbox_ok ib \<longleftrightarrow> keyed ib_id ib \<and> (\<forall>r \<in> set ib. length (ib_id r) = 16)"

definition cursors_ok :: "(bytes \<times> int) list \<Rightarrow> bool" where
  "cursors_ok cu \<longleftrightarrow> keyed fst cu \<and> (\<forall>r \<in> set cu. length (fst r) = 16 \<and> 0 \<le> snd r \<and> snd r < 2 ^ 63)"

definition blocked_ok :: "(bytes \<times> int) list \<Rightarrow> bool" where
  "blocked_ok bl \<longleftrightarrow> keyed fst bl \<and> (\<forall>r \<in> set bl. length (fst r) = 32)"

definition relay_ok :: "relay_row list \<Rightarrow> bool" where
  "relay_ok rc \<longleftrightarrow> keyed rd_version rc \<and> (\<forall>r \<in> set rc. 0 \<le> rd_version r \<and> rd_version r < 2 ^ 63)"

definition singletons_ok :: "store \<Rightarrow> bool" where
  "singletons_ok s \<longleftrightarrow>
     (case network_state s of None \<Rightarrow> False | Some m \<Rightarrow> 0 \<le> m \<and> m \<le> 2) \<and>
     (case key_metadata s of None \<Rightarrow> False | Some v \<Rightarrow> 0 < v) \<and>
     (case change_counter s of None \<Rightarrow> False | Some r \<Rightarrow> 0 \<le> r) \<and>
     user_version s = SCHEMA_VERSION"

lemma singletons_ok_iff:
  "singletons_ok s \<longleftrightarrow>
     (\<exists>m. network_state s = Some m \<and> 0 \<le> m \<and> m \<le> 2) \<and>
     (\<exists>v. key_metadata s = Some v \<and> 0 < v) \<and>
     (\<exists>r. change_counter s = Some r \<and> 0 \<le> r) \<and>
     user_version s = SCHEMA_VERSION"
  by (auto simp: singletons_ok_def split: option.splits)

definition store_inv :: "store \<Rightarrow> bool" where
  "store_inv s \<longleftrightarrow>
     conversations_ok (conversations s) \<and>
     messages_ok (cv_id ` set (conversations s)) (messages s) \<and>
     members_ok (cv_id ` set (conversations s)) (members s) \<and>
     outbox_ok (messages s) (outbox s) \<and> inbox_ok (inbox s) \<and> cursors_ok (sync_cursors s) \<and>
     blocked_ok (blocked s) \<and> relay_ok (relay_cache s) \<and> singletons_ok s"

lemma bump_simps [simp]:
  "conversations (bump n s) = conversations s" "messages (bump n s) = messages s" "outbox (bump n s) = outbox s"
  "inbox (bump n s) = inbox s" "sync_cursors (bump n s) = sync_cursors s" "members (bump n s) = members s"
  "blocked (bump n s) = blocked s" "relay_cache (bump n s) = relay_cache s"
  "network_state (bump n s) = network_state s" "key_metadata (bump n s) = key_metadata s"
  "change_counter (bump n s) = map_option (\<lambda>r. r + int n) (change_counter s)"
  "user_version (bump n s) = user_version s"
  by (simp_all add: bump_def)

lemma bump_algebra [simp]:
  "bump 0 s = s" "bump m (bump n s) = bump (n + m) s"
  "(bump n s)\<lparr>messages := ms\<rparr> = bump n (s\<lparr>messages := ms\<rparr>)"
  "(bump n s)\<lparr>inbox := ib\<rparr> = bump n (s\<lparr>inbox := ib\<rparr>)"
  "(bump n s)\<lparr>key_metadata := km\<rparr> = bump n (s\<lparr>key_metadata := km\<rparr>)"
  by (cases s; cases "change_counter s"; simp add: bump_def)+

lemma singletons_bump [simp]: "singletons_ok s \<Longrightarrow> singletons_ok (bump n s)"
  by (auto simp: singletons_ok_iff)

lemma singletons_frame [simp]:
  "singletons_ok (s\<lparr>conversations := a\<rparr>) = singletons_ok s" "singletons_ok (s\<lparr>messages := b\<rparr>) = singletons_ok s"
  "singletons_ok (s\<lparr>outbox := c\<rparr>) = singletons_ok s" "singletons_ok (s\<lparr>inbox := d\<rparr>) = singletons_ok s"
  "singletons_ok (s\<lparr>sync_cursors := e\<rparr>) = singletons_ok s" "singletons_ok (s\<lparr>members := f\<rparr>) = singletons_ok s"
  "singletons_ok (s\<lparr>blocked := g\<rparr>) = singletons_ok s" "singletons_ok (s\<lparr>relay_cache := h\<rparr>) = singletons_ok s"
  "singletons_ok (s\<lparr>receipts := i\<rparr>) = singletons_ok s" "singletons_ok (s\<lparr>contact_requests := j\<rparr>) = singletons_ok s"
  "singletons_ok (s\<lparr>crypto_state := k\<rparr>) = singletons_ok s"
  by (simp_all add: singletons_ok_iff)

subsection \<open>What the statements keep of the tables\<close>

lemma conversations_ok_insert [simp]:
  "conversations_ok cs \<Longrightarrow> length (cv_id r) = 16 \<Longrightarrow> conversations_ok (snd (insert_ignore cv_id r cs))"
  unfolding conversations_ok_def by (intro conjI ball_insert_ignore) (simp_all add: table_simps)

lemma conversations_ok_touch [simp]:
  "conversations_ok (snd (update_where p (\<lambda>r. r\<lparr>cv_updated := t\<rparr>) cs)) = conversations_ok cs"
  by (auto simp: conversations_ok_def  table_simps)

lemma keys_touch [simp]:
  "cv_id ` set (snd (update_where p (\<lambda>r. r\<lparr>cv_updated := t\<rparr>) cs)) = cv_id ` set cs"
  by (rule keys_update_where) simp

lemma ids_mono:
  "messages_ok ids ms \<Longrightarrow> ids \<subseteq> ids' \<Longrightarrow> messages_ok ids' ms"
  "members_ok ids mb \<Longrightarrow> ids \<subseteq> ids' \<Longrightarrow> members_ok ids' mb"
  by (auto simp: messages_ok_def members_ok_def)

lemma ids_insert [simp]:
  "messages_ok ids ms \<Longrightarrow> messages_ok (insert k ids) ms"
  "members_ok ids mb \<Longrightarrow> members_ok (insert k ids) mb"
  by (auto intro: ids_mono)

lemma messages_ok_insert:
  "messages_ok ids ms \<Longrightarrow> length (ms_id r) = 16 \<Longrightarrow> ms_conversation r \<in> ids \<Longrightarrow>
   ms_status r = status_code ReadyToUpload \<Longrightarrow> ms_id r \<notin> ms_id ` set ms \<Longrightarrow> messages_ok ids (ms @ [r])"
  by (auto simp: messages_ok_def table_simps)

lemma messages_ok_status:
  "messages_ok ids ms \<Longrightarrow> v \<in> {5, 6, 7, 8, 10} \<Longrightarrow>
   messages_ok ids (snd (update_where p (\<lambda>r. r\<lparr>ms_status := v\<rparr>) ms))"
  by (auto simp: messages_ok_def table_simps)

lemma messages_ok_body [simp]:
  "messages_ok ids (snd (update_where p (\<lambda>r. r\<lparr>ms_body := b\<rparr>) ms)) = messages_ok ids ms"
  by (auto simp: messages_ok_def  table_simps)

lemma outbox_ok_insert:
  "outbox_ok ms obs \<Longrightarrow> ms_id m \<notin> ms_id ` set ms \<Longrightarrow> ms_status m = status_code ReadyToUpload \<Longrightarrow>
   ob_id r = ms_id m \<Longrightarrow> 0 \<le> ob_attempts r \<Longrightarrow> outbox_ok (ms @ [m]) (obs @ [r])"
  by (auto simp: outbox_ok_def table_simps) (metis image_eqI)+

lemma outbox_ok_body [simp]:
  "outbox_ok (snd (update_where p (\<lambda>r. r\<lparr>ms_body := b\<rparr>) ms)) obs = outbox_ok ms obs"
  by (auto simp: outbox_ok_def  table_simps)

lemma outbox_ok_remove:
  "outbox_ok ms obs \<Longrightarrow> (\<And>r. p r \<Longrightarrow> ms_id r = i) \<Longrightarrow>
   (\<And>r. ms_id r = i \<Longrightarrow> ms_status r \<in> {3, 8} \<Longrightarrow> p r) \<Longrightarrow> v \<in> {5, 10} \<Longrightarrow>
   outbox_ok (snd (update_where p (\<lambda>r. r\<lparr>ms_status := v\<rparr>) ms)) (delete_where (\<lambda>r. ob_id r = i) obs)"
  by (auto simp: outbox_ok_def table_simps)

lemma outbox_ok_retry:
  "outbox_ok ms obs \<Longrightarrow> i \<in> ob_id ` set obs \<Longrightarrow>
   outbox_ok (snd (update_where (\<lambda>r. ms_id r = i) (\<lambda>r. r\<lparr>ms_status := 8\<rparr>) ms)) obs"
  by (auto simp: outbox_ok_def table_simps)

lemma outbox_ok_reschedule:
  "outbox_ok ms obs \<Longrightarrow>
   outbox_ok ms (snd (update_where p (\<lambda>r. r\<lparr>ob_attempts := ob_attempts r + 1, ob_next := n\<rparr>) obs))"
  by (auto simp: outbox_ok_def  table_simps)

lemma outbox_ok_receipt:
  "outbox_ok ms obs \<Longrightarrow> v \<in> {6, 7} \<Longrightarrow>
   outbox_ok (snd (update_where p (\<lambda>r. r\<lparr>ms_status := v\<rparr>) ms)) obs"
  by (auto simp: outbox_ok_def  table_simps)

lemma inbox_ok_insert [simp]:
  "inbox_ok ib \<Longrightarrow> length (ib_id r) = 16 \<Longrightarrow> inbox_ok (snd (insert_ignore ib_id r ib))"
  unfolding inbox_ok_def by (intro conjI ball_insert_ignore) (simp_all add: table_simps)

lemma members_ok_upsert:
  "members_ok ids mb \<Longrightarrow> length d = 16 \<Longrightarrow> length a = 32 \<Longrightarrow> g \<in> ids \<Longrightarrow>
   members_ok ids (upsert member_key \<lparr>mb_conversation = g, mb_device = d, mb_account = a, mb_removed = None\<rparr>
     (\<lambda>r. r\<lparr>mb_account := a, mb_removed := None\<rparr>) mb)"
  unfolding members_ok_def
  by (intro conjI keyed_upsert ball_upsert) (auto simp: member_key_def)

lemma members_ok_remove:
  "members_ok ids mb \<Longrightarrow> members_ok ids (snd (update_where p (\<lambda>r. r\<lparr>mb_removed := t\<rparr>) mb))"
  by (auto simp: members_ok_def  table_simps member_key_def)

lemma cursors_ok_upsert:
  "cursors_ok cu \<Longrightarrow> length k = 16 \<Longrightarrow> 0 \<le> sint (v :: u64) \<Longrightarrow>
   cursors_ok (upsert fst (k, sint v) (\<lambda>r. (fst r, sint v)) cu)"
  using sint_less [of v] unfolding cursors_ok_def
  by (intro conjI keyed_upsert ball_upsert) (auto simp: )

lemma relay_ok_upsert:
  "relay_ok rc \<Longrightarrow> 0 \<le> sint (v :: u64) \<Longrightarrow>
   relay_ok (upsert rd_version \<lparr>rd_version = sint v, rd_signed = d, rd_expires = e\<rparr>
     (\<lambda>r. r\<lparr>rd_signed := d, rd_expires := e\<rparr>) rc)"
  using sint_less [of v] unfolding relay_ok_def
  by (intro conjI keyed_upsert ball_upsert) (auto simp: )

lemma blocked_ok_ops [simp]:
  "blocked_ok bl \<Longrightarrow> length a = 32 \<Longrightarrow> blocked_ok (snd (insert_ignore fst (a, t) bl))"
  "blocked_ok bl \<Longrightarrow> blocked_ok (delete_where p bl)"
  by (auto simp: blocked_ok_def insert_ignore_def table_simps)


subsection \<open>Every operation keeps the invariant\<close>

lemma insert_new_Some: "insert_new key r rows = Some rows' \<longleftrightarrow> key r \<notin> key ` set rows \<and> rows' = rows @ [r]"
  by (auto simp: insert_new_def has_key_iff)

lemmas statement_defs = insert_conversation_or_ignore_def insert_conversation_do_nothing_def
  insert_message_def insert_outbox_def update_messages_def delete_outbox_def
  insert_inbox_or_ignore_def set_status_def query_status_def has_key_iff Let_def

lemma keys_insert_ignore_mono: "key ` set rows \<subseteq> key ` set (snd (insert_ignore key r rows))"
  by (auto simp: table_simps)

lemma create_group_keeps: "keeps store_inv (create_group t g)"
  unfolding create_group_def statement_defs
  by (rule keepsI) (auto simp: store_inv_def case_prod_beta intro: ids_mono [OF _ keys_insert_ignore_mono])

lemma add_member_keeps: "keeps store_inv (add_member g d a)"
  unfolding add_member_def
  by (rule keepsI) (auto simp: store_inv_def has_key_iff intro: members_ok_upsert)

lemma remove_member_keeps: "keeps store_inv (remove_member t g d)"
  unfolding remove_member_def
  by (rule keepsI) (auto simp: store_inv_def case_prod_beta intro: members_ok_remove)

lemma mark_keeps: "keeps store_inv (mark_upload_accepted i)"
  unfolding mark_upload_accepted_def statement_defs
  by (rule keepsI) (auto simp: store_inv_def case_prod_beta intro!: messages_ok_status outbox_ok_remove)

lemma cancel_keeps: "keeps store_inv (cancel_pending_message i)"
  unfolding cancel_pending_message_def statement_defs
  by (rule keepsI) (auto simp: store_inv_def case_prod_beta intro!: messages_ok_status outbox_ok_remove)


lemma retry_keeps: "keeps store_inv (retry_message t i)"
  unfolding retry_message_def statement_defs
  by (rule keepsI) (auto simp: store_inv_def case_prod_beta keys_update_where dest!: find_row_SomeD
    split: option.splits sum.splits intro!: messages_ok_status outbox_ok_retry outbox_ok_reschedule)

lemma receipt_keeps:
  "st \<in> {Delivered, Read} \<Longrightarrow> keeps store_inv (advance_message_status i st)"
  unfolding advance_message_status_def statement_defs
  by (rule keepsI) (auto simp: store_inv_def case_prod_beta intro!: messages_ok_status outbox_ok_receipt)

lemma ingest_keeps: "keeps store_inv (ingest_server_event t e c b)"
  unfolding ingest_server_event_def statement_defs
  by (rule keepsI) (auto simp: store_inv_def case_prod_beta)

lemma batch_keeps: "keeps store_inv (ingest_server_batch k es)"
  unfolding ingest_server_batch_def incoming_row_def statement_defs
  by (rule keepsI)
    (auto simp: store_inv_def case_prod_beta split: sum.splits
      intro!: ensures_mono [OF ensures_for [where I = store_inv and E = "\<lambda>_ _. True"]])

lemma cursor_keeps: "keeps store_inv (set_sync_cursor sc v)"
  unfolding set_sync_cursor_def
  by (rule keepsI) (auto simp: store_inv_def intro: cursors_ok_upsert)

lemma block_keeps: "keeps store_inv (block_account t a)"
  unfolding block_account_def by (rule keepsI) (auto simp: store_inv_def)

lemma unblock_keeps: "keeps store_inv (unblock_account a)"
  unfolding unblock_account_def by (rule keepsI) (auto simp: store_inv_def)

lemma mode_keeps: "keeps store_inv (set_network_mode m)"
  unfolding set_network_mode_def
  by (rule keepsI) (cases m; auto simp: store_inv_def singletons_ok_iff)+

lemma relay_keeps: "keeps store_inv (cache_relay_directory d)"
  unfolding cache_relay_directory_def
  by (rule keepsI) (auto simp: store_inv_def Let_def intro: relay_ok_upsert)

lemma create_message_keeps: "keeps store_inv (create_message A key i n t c p)"
proof (rule keepsI)
  show "steady (create_message A key i n t c p)"
    unfolding create_message_def statement_defs by auto
next
  fix s
  assume s: "store_inv s"
  show "ensures (create_message A key i n t c p) s (\<lambda>_. store_inv)"
  proof (cases "encrypt A key n p")
    case (Inr b)
    with s show ?thesis
      unfolding create_message_def statement_defs
      by (intro ensures_bindI)
        (auto simp: store_inv_def case_prod_beta insert_new_Some table_simps
          split: option.splits intro!: messages_ok_insert outbox_ok_insert)
  qed (use s in \<open>auto simp: create_message_def\<close>)
qed


lemma reencrypt_row_ensures:
  "ensures (reencrypt_row A k k' n r) s (\<lambda>res s'. case res of Inl _ \<Rightarrow> True
     | Inr _ \<Rightarrow> \<exists>p b. decrypt A k (ms_body r) = Inr p \<and> encrypt A k' n p = Inr b \<and>
         (case update_where (\<lambda>x. ms_id x = ms_id r) (\<lambda>x. x\<lparr>ms_body := b\<rparr>) (messages s) of
            (m, ms) \<Rightarrow> s' = bump m (s\<lparr>messages := ms\<rparr>)))"
  unfolding reencrypt_row_def update_messages_def
  by (intro ensures_bindI) (auto simp: case_prod_beta split: sum.splits)

lemma steady_reencrypt [simp]: "steady (reencrypt_rows A k k' ns rows)"
  unfolding reencrypt_rows_def reencrypt_row_def update_messages_def by auto

text \<open>One row of the table before and after a rotation.\<close>

definition rekeyed :: "aead \<Rightarrow> bytes \<Rightarrow> bytes \<Rightarrow> (nat \<Rightarrow> bytes) \<Rightarrow> message_row \<Rightarrow> message_row \<Rightarrow> bool" where
  "rekeyed A k k' ns r r' \<longleftrightarrow>
     (\<exists>p b i. decrypt A k (ms_body r) = Inr p \<and> encrypt A k' (ns i) p = Inr b \<and> r' = r\<lparr>ms_body := b\<rparr>)"

lemma reencrypt_loop:
  assumes "messages s = xs @ rows" and "keyed ms_id (xs @ rows)"
  shows "ensures (db_for (\<lambda>(i, r). reencrypt_row A k k' (ns i) r) (enumerate n rows)) s
     (\<lambda>res s'. case res of Inl _ \<Rightarrow> True
      | Inr _ \<Rightarrow> \<exists>rows'. list_all2 (rekeyed A k k' ns) rows rows' \<and>
          s' = bump (length rows) (s\<lparr>messages := xs @ rows'\<rparr>))"
  using assms
proof (induction rows arbitrary: s xs n)
  case Nil
  then show ?case by (auto intro!: exI [of _ "0::nat"])
next
  case (Cons r rows)
  let ?Q = "\<lambda>res s'. case res of Inl _ \<Rightarrow> True | Inr _ \<Rightarrow> \<exists>rows'.
      list_all2 (rekeyed A k k' ns) (r # rows) rows' \<and>
      s' = bump (length (r # rows)) (s\<lparr>messages := xs @ rows'\<rparr>)"
  have rest: "ensures (db_bind (db_for (\<lambda>(i, r). reencrypt_row A k k' (ns i) r) (enumerate (Suc n) rows))
      (\<lambda>ys. db_return (y # ys))) s' ?Q"
    if row: "decrypt A k (ms_body r) = Inr p" "encrypt A k' (ns n) p = Inr b"
      and s': "s' = bump 1 (s\<lparr>messages := xs @ r\<lparr>ms_body := b\<rparr> # rows\<rparr>)" for y s' p b
  proof -
    have ms: "messages s' = (xs @ [r\<lparr>ms_body := b\<rparr>]) @ rows"
      by (simp add: s')
    have key: "keyed ms_id ((xs @ [r\<lparr>ms_body := b\<rparr>]) @ rows)"
      using Cons.prems(2) by (simp add: keyed_def)
    have "rekeyed A k k' ns r (r\<lparr>ms_body := b\<rparr>)"
      using row by (auto simp: rekeyed_def)
    then have "list_all2 (rekeyed A k k' ns) (r # rows) (r\<lparr>ms_body := b\<rparr> # rows')"
      if "list_all2 (rekeyed A k k' ns) rows rows'" for rows'
      using that by simp
    then show ?thesis
      by (intro ensures_bindI ensures_mono [OF Cons.IH [OF ms key]])
        (auto simp: s' simp del: list.rel_inject list_all2_Cons split: sum.splits; blast)
  qed
  show ?case
    unfolding enumerate_simps db_for.simps case_prod_conv
  proof (rule ensures_bindI, rule ensures_mono [OF reencrypt_row_ensures], goal_cases)
    case (1 res s')
    show ?case
    proof (cases res)
      case (Inr y)
      with 1 Cons.prems obtain p b where
        row: "decrypt A k (ms_body r) = Inr p" "encrypt A k' (ns n) p = Inr b"
        and s': "s' = bump 1 (s\<lparr>messages := xs @ r\<lparr>ms_body := b\<rparr> # rows\<rparr>)"
        by (auto simp: update_one)
      show ?thesis unfolding Inr sum.case by (rule rest [OF row s'])
    qed simp
  qed
qed

subsection \<open>Wiping and reopening\<close>

definition wiped :: "store \<Rightarrow> store" where
  "wiped s = bump 1 (s\<lparr>conversations := [], messages := [], outbox := [], inbox := [], sync_cursors := [],
     members := [], blocked := [], relay_cache := [], receipts := [], contact_requests := [],
     crypto_state := []\<rparr>)"

lemma wiped_inv: "store_inv s \<Longrightarrow> store_inv (wiped s)"
  by (auto simp: wiped_def store_inv_def singletons_ok_iff conversations_ok_def messages_ok_def members_ok_def
      outbox_ok_def inbox_ok_def cursors_ok_def blocked_ok_def relay_ok_def table_simps)

lemma statements_ensures:
  "ensures (db_for (\<lambda>f. db_stmt e (\<lambda>s. Inr ((), f s))) fs) s
     (\<lambda>r s'. case r of Inl e' \<Rightarrow> e' = e | Inr _ \<Rightarrow> s' = fold (\<lambda>f. f) fs s)"
proof (induction fs arbitrary: s)
  case (Cons f fs)
  show ?case
    unfolding db_for.simps
    by (rule ensures_bindI, simp, rule ensures_bindI, rule ensures_mono [OF Cons]) (auto split: sum.splits)
qed simp

lemma wipe_statements_fold: "fold (\<lambda>f. f) wipe_statements s = wiped s"
  by (cases s) (simp add: wipe_statements_def wiped_def)

lemma wipe_run:
  assumes "wipe_local_account b c = (r, c')"
  shows "(saved c = None \<and> saved c' = None \<and> r = Inr () \<and> live c' = wiped (live c)) \<or>
         (r = Inl Database \<and> durable c' = durable c)"
proof -
  let ?batch = "db_then (db_for (\<lambda>f. db_stmt Database (\<lambda>s. Inr ((), f s))) wipe_statements)
    (db_stmt Database (\<lambda>s. Inr ((), s)))"
  let ?c1 = "c\<lparr>faults := tl (faults c)\<rparr>"
  have batch: "ensures ?batch s (\<lambda>r s'. case r of Inl e' \<Rightarrow> e' = Database | Inr _ \<Rightarrow> s' = wiped s)" for s
    by (rule ensures_thenI, rule ensures_mono [OF statements_ensures])
      (auto simp: wipe_statements_fold split: sum.splits)
  obtain r2 c2 where run: "?batch ?c1 = (r2, c2)" by fastforce
  show ?thesis
  proof (cases "faults c \<noteq> [] \<and> hd (faults c) \<or> saved c \<noteq> None")
    case True
    then show ?thesis
      using assms by (auto simp: wipe_local_account_def db_stmt_def Let_def split: if_splits)
  next
    case False
    then have "saved c2 = None \<and> (case r2 of Inl e' \<Rightarrow> e' = Database | Inr _ \<Rightarrow> live c2 = wiped (live c))"
      using batch [of "live c", unfolded ensures_def, rule_format, OF _ _ run] by simp
    moreover have "db_stmt Database (\<lambda>s. if saved c = None then Inr ((), s) else Inl Database) c = (Inr (), ?c1)"
      using False by (simp add: db_stmt_def Let_def)
    ultimately show ?thesis
      using assms run False by (cases r2) (auto simp: wipe_local_account_def durable_def split: if_splits)
  qed
qed

lemma wipe_keeps: "keeps store_inv (wipe_local_account b)"
  unfolding keeps_def
proof (intro allI impI)
  fix c
  assume I: "store_inv (durable c)"
  obtain r c' where "wipe_local_account b c = (r, c')" by fastforce
  with wipe_run [OF this] I show "store_inv (durable (snd (wipe_local_account b c)))"
    by (auto simp: durable_def wiped_inv)
qed

lemma create_schema_idem: "store_inv s \<Longrightarrow> create_schema s = s"
  by (cases s) (auto simp: store_inv_def singletons_ok_iff create_schema_def)

lemma migrate_ensures:
  "ensures migrate s (\<lambda>r s'. case r of Inl _ \<Rightarrow> s' = s \<or> s' = create_schema s
     | Inr _ \<Rightarrow> user_version s \<le> SCHEMA_VERSION \<and> s' = create_schema s)"
  unfolding migrate_def query_user_version_def by (auto simp: create_schema_def)

lemma reopen_durable:
  assumes "store_inv (durable (db core))"
  shows "durable (db (reopen core)) = durable (db core) \<and> master_key (reopen core) = master_key core"
proof -
  let ?c = "\<lparr>live = durable (db core), saved = None, faults = faults (db core)\<rparr>"
  obtain r c' where run: "migrate ?c = (r, c')" by fastforce
  have "saved c' = None \<and> (case r of Inl _ \<Rightarrow> live c' = live ?c \<or> live c' = create_schema (live ?c)
     | Inr _ \<Rightarrow> user_version (live ?c) \<le> SCHEMA_VERSION \<and> live c' = create_schema (live ?c))"
    using migrate_ensures [of "live ?c", unfolded ensures_def, rule_format, OF _ _ run] by simp
  then show ?thesis
    using assms run create_schema_idem [OF assms]
    by (auto simp: reopen_def open_core_def durable_def split: sum.splits)
qed

text \<open>What a rotation does: either nothing, or every row sealed again under the new key.\<close>

definition rotation :: "aead \<Rightarrow> (nat \<Rightarrow> bytes) \<Rightarrow> bytes \<Rightarrow> u32 \<Rightarrow> bytes \<Rightarrow> unit core_db" where
  "rotation A ns k' v k =
     (db_bind (db_query Database (\<lambda>s. ok_or Database (key_metadata s))) (\<lambda>current.
      if uint v \<noteq> current + 1 then db_fail InvalidTransition
      else
        db_bind (db_query Database (\<lambda>s. Inr (messages s))) (\<lambda>rows.
        db_then (reencrypt_rows A k k' ns rows)
        (db_stmt Database (\<lambda>s. Inr ((), s\<lparr>key_metadata := map_option (\<lambda>_. uint v) (key_metadata s)\<rparr>))))))"

definition rotated :: "aead \<Rightarrow> (nat \<Rightarrow> bytes) \<Rightarrow> bytes \<Rightarrow> u32 \<Rightarrow> bytes \<Rightarrow> store \<Rightarrow> store \<Rightarrow> bool" where
  "rotated A ns k' v k s s' \<longleftrightarrow> key_metadata s = Some (uint v - 1) \<and>
     (\<exists>rows. list_all2 (rekeyed A k k' ns) (messages s) rows \<and>
        s' = bump (length (messages s)) (s\<lparr>messages := rows, key_metadata := Some (uint v)\<rparr>))"

lemma rotatedI:
  "key_metadata s = Some cur \<Longrightarrow> uint v = cur + 1 \<Longrightarrow> list_all2 (rekeyed A k k' ns) (messages s) rows \<Longrightarrow>
   rotated A ns k' v k s
     (bump (length (messages s)) (s\<lparr>messages := rows, key_metadata := Some (cur + 1)\<rparr>))"
  by (auto simp: rotated_def)

lemma rotation_ensures:
  assumes "store_inv s"
  shows "ensures (rotation A ns k' v k) s (\<lambda>r s'. case r of Inl _ \<Rightarrow> True | Inr _ \<Rightarrow> rotated A ns k' v k s s')"
proof -
  obtain cur where cur: "key_metadata s = Some cur"
    using assms by (auto simp: store_inv_def singletons_ok_iff)
  have "keyed ms_id ([] @ messages s)" using assms by (simp add: store_inv_def messages_ok_def)
  note loop = reencrypt_loop [of s "[]" "messages s", OF _ this, where n = 0, folded reencrypt_rows_def]
  show ?thesis
    unfolding rotation_def
    by (rule ensures_bindI, simp add: cur, intro conjI impI, rule ensures_bindI, simp, rule ensures_thenI,
        rule ensures_mono [OF loop])
      (auto simp: cur split: sum.splits intro: rotatedI [OF cur])
qed

lemma rotate_run:
  assumes "store_inv (durable (db core))" "rotate_master_key A ns k' v core = (r, core')"
  shows "(r = Inr () \<and> master_key core' = k' \<and> length k' = 32 \<and>
            rotated A ns k' v (master_key core) (durable (db core)) (durable (db core'))) \<or>
         ((\<exists>e. r = Inl e) \<and> master_key core' = master_key core \<and> durable (db core') = durable (db core))"
proof (cases "length k' = 32")
  case True
  let ?m = "rotation A ns k' v (master_key core)"
  have steady: "steady ?m" unfolding rotation_def by auto
  obtain r1 c' where run: "db_transaction Database ?m (db core) = (r1, c')" by fastforce
  show ?thesis
  proof (cases r1)
    case (Inl e)
    then show ?thesis
      using assms(2) True run transaction_atomic [OF steady, of Database "db core" e c']
      by (auto simp: rotate_master_key_def rotation_def)
  next
    case (Inr x)
    have saved: "saved (db core) = None" using run Inr by (auto intro: transaction_ok)
    have "ensures (db_transaction Database ?m) (live (db core))
        (\<lambda>r s'. case r of Inl _ \<Rightarrow> True | Inr _ \<Rightarrow> rotated A ns k' v (master_key core) (live (db core)) s')"
      using assms(1) saved
      by (intro ensures_transactionI ensures_mono [OF rotation_ensures]) (auto simp: durable_def split: sum.splits)
    then have "saved c' = None \<and> rotated A ns k' v (master_key core) (live (db core)) (live c')"
      using run Inr saved unfolding ensures_def by fastforce
    then show ?thesis
      using assms(2) True run Inr saved by (auto simp: rotate_master_key_def rotation_def durable_def)
  qed
qed (use assms in \<open>auto simp: rotate_master_key_def\<close>)

lemma rekeyed_columns:
  "list_all2 (rekeyed A k k' ns) ms ms' \<Longrightarrow> map (\<lambda>r. (ms_id r, ms_conversation r, ms_status r)) ms' =
     map (\<lambda>r. (ms_id r, ms_conversation r, ms_status r)) ms"
  by (induction rule: list_all2_induct) (auto simp: rekeyed_def)

lemma messages_ok_columns:
  assumes "map (\<lambda>r. (ms_id r, ms_conversation r, ms_status r)) ms' =
           map (\<lambda>r. (ms_id r, ms_conversation r, ms_status r)) ms"
  shows "messages_ok ids ms' = messages_ok ids ms" "outbox_ok ms' obs = outbox_ok ms obs"
proof -
  define col where "col = (\<lambda>r :: message_row. (ms_id r, ms_conversation r, ms_status r))"
  have col: "map col ms' = map col ms" using assms by (simp add: col_def)
  have ids: "map ms_id ms' = map ms_id ms"
    using arg_cong [OF col, of "map fst"] by (simp add: col_def comp_def)
  have all: "(\<forall>r \<in> set ms'. Q (col r)) \<longleftrightarrow> (\<forall>r \<in> set ms. Q (col r))" for Q
    using arg_cong [OF col, of "list_all Q"] by (simp add: list_all_iff)
  show "messages_ok ids ms' = messages_ok ids ms"
    using ids all [of "\<lambda>(i, c, v). length i = 16 \<and> c \<in> ids \<and>
      v \<in> status_code ` {ReadyToUpload, ServerAccepted, Delivered, Read, RetryScheduled, Cancelled}"]
    by (simp add: messages_ok_def keyed_def col_def)
  show "outbox_ok ms' obs = outbox_ok ms obs"
    using arg_cong [OF ids, of set] all [of "\<lambda>(i, c, v).
        (v \<in> status_code ` {ReadyToUpload, RetryScheduled} \<longrightarrow> i \<in> ob_id ` set obs) \<and>
        (v \<in> status_code ` {ServerAccepted, Cancelled} \<longrightarrow> i \<notin> ob_id ` set obs)"]
    by (simp add: outbox_ok_def col_def)
qed

lemma rotated_inv: "store_inv s \<Longrightarrow> rotated A ns k' v k s s' \<Longrightarrow> store_inv s'"
  by (auto simp: rotated_def store_inv_def singletons_ok_iff messages_ok_columns [OF rekeyed_columns])

section \<open>Readable messages\<close>

definition readable :: "aead \<Rightarrow> bytes \<Rightarrow> store \<Rightarrow> bool" where
  "readable A key s \<longleftrightarrow> (\<forall>m \<in> set (messages s). \<exists>p. decrypt A key (ms_body m) = Inr p \<and> utf8_valid p)"

lemma decrypt_encrypt:
  assumes "aead_correct A" "length n = 24" "encrypt A k n p = Inr b"
  shows "decrypt A k b = Inr p"
proof -
  from assms(3) obtain ct where ct: "length k = 32" "seal A k n MESSAGE_AAD p = Some ct" "b = n @ ct"
    by (auto simp: encrypt_def result_simps split: if_splits option.splits elim: ok_or.elims)
  with assms(1,2) have "unseal A k n MESSAGE_AAD ct = Some p \<and> length ct = length p + 16"
    unfolding aead_correct_def by blast
  with ct assms(2) show ?thesis by (simp add: decrypt_def)
qed

text \<open>Operations that write no body keep whatever holds of every body.\<close>

definition bodies :: "(bytes \<Rightarrow> bool) \<Rightarrow> store \<Rightarrow> bool" where
  "bodies Q s \<longleftrightarrow> (\<forall>m \<in> set (messages s). Q (ms_body m))"

lemma bodies_keeps:
  "keeps (bodies Q) (create_group t g)"
  "keeps (bodies Q) (add_member g d a)"
  "keeps (bodies Q) (remove_member t g d)"
  "keeps (bodies Q) (mark_upload_accepted i)"
  "keeps (bodies Q) (retry_message t i)"
  "keeps (bodies Q) (cancel_pending_message i)"
  "keeps (bodies Q) (ingest_server_event t e c b)"
  "keeps (bodies Q) (set_sync_cursor sc w)"
  "keeps (bodies Q) (advance_message_status i st)"
  "keeps (bodies Q) (block_account t a)"
  "keeps (bodies Q) (unblock_account a)"
  "keeps (bodies Q) (set_network_mode nm)"
  "keeps (bodies Q) (cache_relay_directory dir)"
  unfolding create_group_def add_member_def remove_member_def mark_upload_accepted_def retry_message_def
    cancel_pending_message_def ingest_server_event_def set_sync_cursor_def advance_message_status_def
    block_account_def unblock_account_def set_network_mode_def cache_relay_directory_def statement_defs
  by (rule keepsI; auto simp: bodies_def case_prod_beta split: option.splits sum.splits)+

lemma bodies_batch: "keeps (bodies Q) (ingest_server_batch k es)"
  unfolding ingest_server_batch_def incoming_row_def statement_defs
  by (rule keepsI)
    (auto simp: bodies_def case_prod_beta split: sum.splits
      intro!: ensures_mono [OF ensures_for [where I = "bodies Q" and E = "\<lambda>_ _. True"]])

lemma bodies_create:
  assumes "\<And>b. encrypt A key n p = Inr b \<Longrightarrow> Q b"
  shows "keeps (bodies Q) (create_message A key i n t c p)"
proof (rule keepsI)
  show "steady (create_message A key i n t c p)"
    unfolding create_message_def statement_defs by auto
next
  fix s
  assume s: "bodies Q s"
  show "ensures (create_message A key i n t c p) s (\<lambda>_. bodies Q)"
  proof (cases "encrypt A key n p")
    case (Inr b)
    with s assms show ?thesis
      unfolding create_message_def statement_defs
      by (intro ensures_bindI)
        (auto simp: bodies_def case_prod_beta insert_new_Some split: option.splits)
  qed (use s in \<open>auto simp: create_message_def\<close>)
qed

lemma bodies_wipe: "keeps (bodies Q) (wipe_local_account b)"
  unfolding keeps_def
proof (intro allI impI)
  fix c
  assume I: "bodies Q (durable c)"
  obtain r c' where "wipe_local_account b c = (r, c')" by fastforce
  with wipe_run [OF this] I show "bodies Q (durable (snd (wipe_local_account b c)))"
    by (auto simp: durable_def wiped_def bodies_def)
qed

lemma readable_bodies: "readable A key = bodies (\<lambda>b. \<exists>p. decrypt A key b = Inr p \<and> utf8_valid p)"
  by (simp add: fun_eq_iff readable_def bodies_def)

lemma rekeyed_reads:
  assumes "aead_correct A" "\<And>i. length (ns i) = 24" "rekeyed A k k' ns r r'"
  shows "read_message A k' r' = read_message A k r \<and> decrypt A k' (ms_body r') = decrypt A k (ms_body r)"
  using assms(3) decrypt_encrypt [OF assms(1) assms(2)]
  by (fastforce simp: rekeyed_def read_message_def)

lemma rotated_readable:
  assumes "aead_correct A" "\<And>i. length (ns i) = 24" "readable A k s" "rotated A ns k' v k s s'"
  shows "readable A k' s'"
proof -
  from assms(4) obtain rows where rows: "list_all2 (rekeyed A k k' ns) (messages s) rows"
    and s': "s' = bump (length (messages s)) (s\<lparr>messages := rows, key_metadata := Some (uint v)\<rparr>)"
    by (auto simp: rotated_def)
  have "\<exists>p. decrypt A k' (ms_body r') = Inr p \<and> utf8_valid p" if "r' \<in> set rows" for r'
  proof -
    from that rows obtain r where "r \<in> set (messages s)" "rekeyed A k k' ns r r'"
      by (metis list_all2_conv_all_nth in_set_conv_nth)
    with assms rekeyed_reads [OF assms(1,2)] show ?thesis by (auto simp: readable_def)
  qed
  then show ?thesis by (auto simp: readable_def s')
qed

section \<open>Sequences of operations\<close>

text \<open>What the types of the source say of the arguments: nonces have 24 bytes, a message is a \<open>&str\<close>.\<close>

fun op_typed :: "core_op \<Rightarrow> bool" where
  "op_typed (CreateMessage i n t c p) = (length n = 24 \<and> utf8_valid p)"
| "op_typed (RotateMasterKey ns k v) = (\<forall>i. length (ns i) = 24)"
| "op_typed _ = True"

definition core_inv :: "aead \<Rightarrow> core \<Rightarrow> bool" where
  "core_inv A core \<longleftrightarrow> length (master_key core) = 32 \<and> store_inv (durable (db core)) \<and>
     readable A (master_key core) (durable (db core))"

lemmas plain_keeps = create_group_keeps add_member_keeps remove_member_keeps mark_keeps retry_keeps
  cancel_keeps ingest_keeps batch_keeps cursor_keeps block_keeps unblock_keeps mode_keeps relay_keeps
  wipe_keeps create_message_keeps

lemma exec_op_store_inv:
  assumes "store_inv (durable (db core))"
  shows "store_inv (durable (db (exec_op A op core)))"
proof -
  have run: "keeps store_inv m \<Longrightarrow> store_inv (durable (db (on_db m core)))" for m :: "'a core_db"
    using assms by (auto simp: keeps_def on_db_def)
  show ?thesis
  proof (cases op)
    case (RotateMasterKey ns k v)
    obtain r core' where "rotate_master_key A ns k v core = (r, core')" by fastforce
    with rotate_run [OF assms this] assms RotateMasterKey show ?thesis by (auto intro: rotated_inv)
  next
    case Reopen
    then show ?thesis using assms reopen_durable by simp
  qed (auto intro!: run plain_keeps receipt_keeps simp: apply_delivery_receipt_def apply_read_receipt_def)
qed

lemma on_db_inv:
  assumes "core_inv A core" "keeps store_inv m" "\<And>Q. keeps (bodies Q) m"
  shows "core_inv A (on_db m core)"
  using assms by (auto simp: core_inv_def on_db_def keeps_def readable_bodies)

lemma exec_op_inv:
  assumes "aead_correct A" "core_inv A core" "op_typed op"
  shows "core_inv A (exec_op A op core)"
  using assms(3)
proof (cases op)
  case (CreateMessage i n t c p)
  let ?m = "create_message A (master_key core) i n t c p"
  have "keeps store_inv ?m" by (rule create_message_keeps)
  moreover have "keeps (readable A (master_key core)) ?m"
    unfolding readable_bodies
    using assms(1,3) CreateMessage decrypt_encrypt by (intro bodies_create) fastforce
  ultimately show ?thesis
    using assms(2) CreateMessage by (auto simp: core_inv_def on_db_def keeps_def)
next
  case (RotateMasterKey ns k v)
  obtain r core' where run: "rotate_master_key A ns k v core = (r, core')" by fastforce
  with rotate_run [OF _ run] assms RotateMasterKey show ?thesis
    by (auto simp: core_inv_def intro: rotated_inv rotated_readable)
next
  case Reopen
  then show ?thesis using assms(2) reopen_durable by (auto simp: core_inv_def)
qed (use assms(2) in \<open>auto intro!: on_db_inv plain_keeps bodies_keeps bodies_batch bodies_wipe receipt_keeps
      simp: apply_delivery_receipt_def apply_read_receipt_def\<close>)

lemma core_step_inv:
  assumes "aead_correct A" "core_inv A core" "op_typed (snd op)"
  shows "core_inv A (core_step A core op)"
  using exec_op_inv [of A "core\<lparr>db := (db core)\<lparr>faults := fst op\<rparr>\<rparr>" "snd op"] assms
  by (simp add: core_step_def case_prod_beta core_inv_def)

interpretation core_runs: transition_system "core_step A" "\<lambda>op. op_typed (snd op)"
    "\<lambda>core. aead_correct A \<and> core_inv A core" for A
  by unfold_locales (auto intro: core_step_inv)

lemma empty_schema_inv: "store_inv (create_schema empty_store)"
  by (simp add: create_schema_def empty_store_def store_inv_def singletons_ok_iff conversations_ok_def
      messages_ok_def members_ok_def outbox_ok_def inbox_ok_def cursors_ok_def blocked_ok_def relay_ok_def
      table_simps)

lemma open_in_memory_inv:
  assumes "open_in_memory fs key = Inr core"
  shows "core_inv A core \<and> saved (db core) = None \<and> live (db core) = create_schema empty_store \<and>
         master_key core = key"
proof -
  let ?c = "\<lparr>live = empty_store, saved = None, faults = fs\<rparr>"
  obtain c where run: "migrate ?c = (Inr (), c)" and core: "core = \<lparr>db = c, master_key = key\<rparr>" "length key = 32"
    using assms by (auto simp: open_in_memory_def open_core_def split: if_splits sum.splits prod.splits)
  have "saved c = None \<and> live c = create_schema empty_store"
    using migrate_ensures [of empty_store, unfolded ensures_def, rule_format, OF _ _ run] by simp
  then show ?thesis
    using core empty_schema_inv
    by (simp add: core_inv_def durable_def readable_def) (simp add: create_schema_def empty_store_def)
qed

end
