(* ===== verification/Local_Store_Correct.thy ===== *)
theory Local_Store_Correct
  imports Local_Store_Invariant
begin

text \<open>
  What the operations of the local store do: a message that was sent is on disk with its outbox
  row, transactions are all or nothing, the outbox protocol, exactly-once ingestion, key rotation,
  the revision counter and the cursors.
\<close>

lemma find_row_touched:
  assumes "conv \<in> cv_id ` set rows"
  shows "find_row cv_id conv (snd (update_where (\<lambda>r. cv_id r = conv) (\<lambda>r. r\<lparr>cv_updated := now\<rparr>) rows)) =
    Some \<lparr>cv_id = conv, cv_updated = now\<rparr>"
proof -
  obtain r where r: "find_row cv_id conv rows = Some r" "cv_id r = conv"
    using assms find_row_None [of cv_id conv rows] find_row_SomeD [of cv_id conv rows]
    by (cases "find_row cv_id conv rows") auto
  then show ?thesis by (cases r) (simp add: find_row_update_where)
qed

lemma create_message_ensures:
  assumes "encrypt A key nonce text = Inr body"
  shows "ensures (create_message A key i nonce now conv text) s
     (\<lambda>r s'. case r of Inl _ \<Rightarrow> True | Inr mid \<Rightarrow> mid = i \<and>
        messages s' = messages s @ [\<lparr>ms_id = i, ms_conversation = conv, ms_body = body,
           ms_status = status_code ReadyToUpload, ms_created = now\<rparr>] \<and>
        outbox s' = outbox s @ [\<lparr>ob_id = i, ob_next = now, ob_attempts = 0\<rparr>] \<and>
        find_row cv_id conv (conversations s') = Some \<lparr>cv_id = conv, cv_updated = now\<rparr>)"
  unfolding create_message_def statement_defs
  by (rule ensures_bindI, simp add: assms)
    (auto simp: case_prod_beta insert_new_Some split: option.splits intro!: find_row_touched)

text \<open>C20: When \<open>create_message\<close> returns an id, the message is on disk before anything goes to
  the network: the row that was added decrypts to the text, waits for upload, and has its outbox
  row due at once; the conversation exists and is dated. Whatever failed on the connection before.\<close>

theorem create_message_durable:
  assumes "aead_correct A" "length nonce = 24" "create_message A key i nonce now conv text c = (Inr mid, c')"
  shows "mid = i \<and> saved c' = None \<and>
    (\<exists>body. decrypt A key body = Inr text \<and>
       messages (durable c') = messages (durable c) @ [\<lparr>ms_id = i, ms_conversation = conv, ms_body = body,
         ms_status = status_code ReadyToUpload, ms_created = now\<rparr>]) \<and>
    outbox (durable c') = outbox (durable c) @ [\<lparr>ob_id = i, ob_next = now, ob_attempts = 0\<rparr>] \<and>
    find_row cv_id conv (conversations (durable c')) = Some \<lparr>cv_id = conv, cv_updated = now\<rparr>"
proof -
  obtain body where body: "encrypt A key nonce text = Inr body"
    using assms(3) by (cases "encrypt A key nonce text") (auto simp: create_message_def db_bind_def db_lift_def)
  have saved: "saved c = None"
    using assms(3) body by (auto simp: create_message_def db_bind_def db_lift_def intro: transaction_ok)
  show ?thesis
    using create_message_ensures [OF body, of i now conv "live c", unfolded ensures_def, rule_format, OF _ saved assms(3)]
      decrypt_encrypt [OF assms(1,2) body] saved
    by (auto simp: durable_def)
qed

text \<open>On a connection that does not fail, \<open>mark_upload_accepted\<close> is this function of the row.\<close>

definition accepted :: "bytes \<Rightarrow> store \<Rightarrow> store" where
  "accepted i s = bump 1 (s\<lparr>messages := snd (update_where (\<lambda>r. ms_id r = i) (\<lambda>r. r\<lparr>ms_status := status_code ServerAccepted\<rparr>) (messages s)),
      outbox := delete_where (\<lambda>r. ob_id r = i) (outbox s)\<rparr>)"


text \<open>C38: What \<open>mark_upload_accepted\<close> does with each status, errors included: a message that
  waits becomes accepted and loses its outbox row, a repeated acknowledgement changes nothing and
  succeeds, an unknown id is \<open>NotFound\<close>, and from every other status it is refused.\<close>

theorem mark_upload_accepted_spec:
  assumes "store_inv s"
  shows "mark_upload_accepted i (quiet s) = (case find_row ms_id i (messages s) of
      None \<Rightarrow> (Inl NotFound, quiet s)
    | Some m \<Rightarrow> if ms_status m \<in> status_code ` {ReadyToUpload, RetryScheduled} then (Inr (), quiet (accepted i s))
       else if ms_status m = status_code ServerAccepted then (Inr (), quiet s)
       else (Inl InvalidTransition, quiet s))"
proof (cases "find_row ms_id i (messages s)")
  case None
  then show ?thesis
    unfolding mark_upload_accepted_def statement_defs by (simp add: update_where_none)
next
  case (Some m)
  have keyed: "keyed ms_id (messages s)" using assms by (simp add: store_inv_def messages_ok_def)
  have "m \<in> set (messages s)" "ms_id m = i" using find_row_SomeD [OF Some] by auto
  then have st: "ms_status m \<in> {3, 5, 6, 7, 8, 10}" "ms_status m = 5 \<longrightarrow> i \<notin> ob_id ` set (outbox s)"
    using assms by (auto simp: store_inv_def messages_ok_def outbox_ok_def)
  show ?thesis
    unfolding mark_upload_accepted_def statement_defs
    using st(1) st(2)
    by (simp add: update_where_key [OF keyed Some] Some, elim disjE)
      (simp_all add: find_row_update_where Some accepted_def bump_def delete_where_none)
qed

section \<open>All or nothing\<close>

lemma transaction_error:
  "steady m \<Longrightarrow> case db_transaction e m c of (r, c') \<Rightarrow> is_ok r \<or> durable c' = durable c"
  using transaction_atomic [of m e c] by (auto split: prod.splits elim: is_ok.elims) (metis is_ok.elims(3))

text \<open>C21: Operations under a transaction are all or nothing: whichever statement fails, one that
  returns an error leaves the rows on disk (and the active key, for a rotation) as they were.\<close>

theorem transactions_atomic:
  "(case create_message A key i nonce now conv text c of (r, c') \<Rightarrow> is_ok r \<or> durable c' = durable c) \<and>
   (case mark_upload_accepted i c of (r, c') \<Rightarrow> is_ok r \<or> durable c' = durable c) \<and>
   (case cancel_pending_message i c of (r, c') \<Rightarrow> is_ok r \<or> durable c' = durable c) \<and>
   (case ingest_server_batch clock events c of (r, c') \<Rightarrow> is_ok r \<or> durable c' = durable c) \<and>
   (case wipe_local_account b c of (r, c') \<Rightarrow> is_ok r \<or> durable c' = durable c) \<and>
   (case rotate_master_key A nonces new_key v core of (r, core') \<Rightarrow>
      is_ok r \<or> durable (db core') = durable (db core) \<and> master_key core' = master_key core)"
proof (intro conjI)
  show "case create_message A key i nonce now conv text c of (r, c') \<Rightarrow> is_ok r \<or> durable c' = durable c"
    unfolding create_message_def statement_defs
    by (cases "encrypt A key nonce text")
      (auto simp: db_bind_def db_lift_def intro!: transaction_error split del: prod.split)
next
  show "case mark_upload_accepted i c of (r, c') \<Rightarrow> is_ok r \<or> durable c' = durable c"
    unfolding mark_upload_accepted_def statement_defs by (rule transaction_error) auto
next
  show "case cancel_pending_message i c of (r, c') \<Rightarrow> is_ok r \<or> durable c' = durable c"
    unfolding cancel_pending_message_def statement_defs by (rule transaction_error) auto
next
  show "case ingest_server_batch clock events c of (r, c') \<Rightarrow> is_ok r \<or> durable c' = durable c"
    unfolding ingest_server_batch_def statement_defs
    by (cases "length events > 50") (auto simp: db_fail_def intro!: transaction_error split del: prod.split)
next
  show "case wipe_local_account b c of (r, c') \<Rightarrow> is_ok r \<or> durable c' = durable c"
    using wipe_run by (fastforce split: prod.splits)
next
  have steady: "steady (rotation A nonces new_key v (master_key core))" unfolding rotation_def by auto
  show "case rotate_master_key A nonces new_key v core of (r, core') \<Rightarrow>
      is_ok r \<or> durable (db core') = durable (db core) \<and> master_key core' = master_key core"
    using transaction_error [OF steady, where c = "db core" and e = Database]
    by (auto simp: rotate_master_key_def rotation_def split: sum.splits prod.splits)
qed

lemma wrap_i64_id: "- (2 ^ 63) \<le> v \<Longrightarrow> v < 2 ^ 63 \<Longrightarrow> wrap_i64 v = v"
  unfolding wrap_i64_def by (simp add: sint_sbintrunc' signed_take_bit_int_eq_self)

lemma backoff_bound: "(1 :: int) \<le> 2 ^ min n 10" "(2 :: int) ^ min n 10 \<le> 1024"
proof -
  have "(2 :: int) ^ min n 10 \<le> 2 ^ 10" by (rule power_increasing) auto
  then show "(2 :: int) ^ min n 10 \<le> 1024" by simp
qed simp

lemma retry_delay_value: "retry_delay a = 1000 * 2 ^ min (unat a) 10"
proof -
  have "unat (min a 10) = min (unat a) 10"
    by (auto simp: min_def word_le_nat_alt)
  moreover have "saturating_mul64 1000 x = 1000 * x" if "1 \<le> x" "x \<le> 1024" for x
    using that by (simp add: saturating_mul64_def)
  ultimately show ?thesis
    using backoff_bound [of "unat a"] by (simp add: retry_delay_def)
qed

lemma wrap_i64_soon: "0 \<le> now \<Longrightarrow> now < 2 ^ 62 \<Longrightarrow> 0 \<le> d \<Longrightarrow> d \<le> 2 ^ 62 \<Longrightarrow> wrap_i64 (now + d) = now + d"
  by (rule wrap_i64_id) simp_all

text \<open>A retry of a message in the outbox is scheduled \<open>1000 * 2 ^ min attempts 10\<close>
  milliseconds from now (between one second and about 17 minutes), counts the attempt and shows
  the message as scheduled.\<close>

theorem retry_message_backoff:
  assumes "store_inv s" "find_row ob_id i (outbox s) = Some r" "ob_attempts r < 2 ^ 32" "0 \<le> now" "now < 2 ^ 62"
  shows "\<exists>s'. retry_message now i (quiet s) = (Inr (), quiet s') \<and>
     find_row ob_id i (outbox s') = Some \<lparr>ob_id = i, ob_next = now + 1000 * 2 ^ min (nat (ob_attempts r)) 10,
        ob_attempts = ob_attempts r + 1\<rparr> \<and>
     map_option ms_status (find_row ms_id i (messages s')) = Some (status_code RetryScheduled) \<and>
     now + 1000 * 2 ^ min (nat (ob_attempts r)) 10 \<in> {now + 1000 .. now + 1024000}"
proof -
  let ?delay = "1000 * 2 ^ min (nat (ob_attempts r)) 10 :: int"
  have r: "r \<in> set (outbox s)" "ob_id r = i" using find_row_SomeD [OF assms(2)] by auto
  then have pos: "0 \<le> ob_attempts r" and "i \<in> ms_id ` set (messages s)"
    using assms(1) by (auto simp: store_inv_def outbox_ok_def)
  then obtain m where m: "find_row ms_id i (messages s) = Some m"
    using find_row_None [of ms_id i "messages s"] by (cases "find_row ms_id i (messages s)") auto
  have bound: "1000 \<le> ?delay" "?delay \<le> 1024000"
    using backoff_bound [of "nat (ob_attempts r)"] by linarith+
  have delay: "retry_delay (word_of_int (ob_attempts r)) = ?delay"
    using pos assms(3) by (simp add: retry_delay_value unat_eq_nat_uint uint_word_of_int)
  have next_at: "wrap_i64 (now + ?delay) = now + ?delay"
    using wrap_i64_soon [OF assms(4,5), of ?delay] bound by simp
  have row: "r\<lparr>ob_attempts := a, ob_next := n\<rparr> = \<lparr>ob_id = i, ob_next = n, ob_attempts = a\<rparr>" for a n
    using r(2) by (cases r rule: outbox_row.cases) simp
  have idem: "get_u32 (ob_attempts r) = Inr (word_of_int (ob_attempts r))"
    using pos assms(3) by (simp add: get_u32_def)
  show ?thesis
    unfolding retry_message_def statement_defs
    using bound r(2) find_row_SomeD [OF m]
    by (simp add: assms(2) idem delay next_at find_row_update_where m case_prod_beta row)
qed

text \<open>What a batch adds to the inbox.\<close>

lemma insert_inbox_quiet:
  "insert_inbox_or_ignore r (quiet s) =
     (if length (ib_id r) = 16 \<and> ib_id r \<notin> ib_id ` set (inbox s)
      then (Inr 1, quiet (bump 1 (s\<lparr>inbox := inbox s @ [r]\<rparr>))) else (Inr 0, quiet s))"
  by (auto simp: insert_inbox_or_ignore_def insert_ignore_def has_key_iff)

lemma ingest_loop:
  assumes "\<forall>e \<in> set es. length (in_event_id e) = 16"
  shows "\<exists>ns ib. db_for (\<lambda>(i, e). insert_inbox_or_ignore (incoming_row (clock i) e)) (enumerate n es) (quiet s) =
      (Inr ns, quiet (bump (length ib) (s\<lparr>inbox := inbox s @ ib\<rparr>))) \<and>
    sum_list ns = length ib \<and> distinct (map ib_id ib) \<and>
    ib_id ` set ib = in_event_id ` set es - ib_id ` set (inbox s)"
  using assms
proof (induction es arbitrary: n s)
  case (Cons e es)
  let ?row = "incoming_row (clock n) e"
  have row: "ib_id ?row = in_event_id e" by (simp add: incoming_row_def)
  let ?new = "in_event_id e \<notin> ib_id ` set (inbox s)"
  define s1 where "s1 = (if ?new then bump 1 (s\<lparr>inbox := inbox s @ [?row]\<rparr>) else s)"
  from Cons.IH [of "Suc n" s1] Cons.prems obtain ns ib where
    IH: "db_for (\<lambda>(i, e). insert_inbox_or_ignore (incoming_row (clock i) e)) (enumerate (Suc n) es) (quiet s1) =
      (Inr ns, quiet (bump (length ib) (s1\<lparr>inbox := inbox s1 @ ib\<rparr>)))"
    "sum_list ns = length ib" "distinct (map ib_id ib)"
    "ib_id ` set ib = in_event_id ` set es - ib_id ` set (inbox s1)" by auto
  show ?case
  proof (cases ?new)
    case True
    then show ?thesis
      using Cons.prems IH
      by (intro exI [of _ "1 # ns"] exI [of _ "?row # ib"]) (auto simp: insert_inbox_quiet row s1_def)
  next
    case False
    then show ?thesis
      using Cons.prems IH
      by (intro exI [of _ "0 # ns"] exI [of _ ib]) (auto simp: insert_inbox_quiet row s1_def)
  qed
qed (auto intro!: exI [of _ "[]"])



text \<open>C22: After a key rotation that succeeds, every conversation reads under the new key exactly
  as it read under the old one, and the stored key version is the new one.\<close>

theorem rotate_preserves_messages:
  assumes "aead_correct A" "\<And>i. length (nonces i) = 24" "store_inv (durable (db core))"
    "rotate_master_key A nonces new_key v core = (Inr (), core')"
  shows "master_key core' = new_key \<and> key_metadata (durable (db core')) = Some (uint v) \<and>
    fst (list_messages A (master_key core') conv (quiet (durable (db core')))) =
    fst (list_messages A (master_key core) conv (quiet (durable (db core))))"
proof -
  have key: "master_key core' = new_key"
    and "rotated A nonces new_key v (master_key core) (durable (db core)) (durable (db core'))"
    using rotate_run [OF assms(3,4)] by auto
  then obtain rows where rows: "list_all2 (rekeyed A (master_key core) new_key nonces) (messages (durable (db core))) rows"
    and s': "durable (db core') =
      bump (length (messages (durable (db core)))) ((durable (db core))\<lparr>messages := rows, key_metadata := Some (uint v)\<rparr>)"
    by (auto simp: rotated_def)
  have "map (read_message A (master_key core)) (sort_key ms_created (filter (\<lambda>r. ms_conversation r = conv) (messages (durable (db core))))) =
    map (read_message A new_key) (sort_key ms_created (filter (\<lambda>r. ms_conversation r = conv) rows))"
    using rows
  proof (rule ordered_selection_cong)
    fix x y
    assume xy: "rekeyed A (master_key core) new_key nonces x y"
    with rekeyed_reads [OF assms(1,2) xy]
    show "ms_created x = ms_created y \<and> (ms_conversation x = conv) = (ms_conversation y = conv) \<and>
        read_message A (master_key core) x = read_message A new_key y"
      by (auto simp: rekeyed_def)
  qed
  from collect_results_cong [OF this] show ?thesis
    using key s' by (auto simp: list_messages_def)
qed
section \<open>The revision counter\<close>

text \<open>What a screen shows is read from these tables.\<close>

definition visible :: "store \<Rightarrow> message_row list \<times> inbox_row list \<times> member_row list \<times> conversation_row list" where
  "visible s = (messages s, inbox s, members s, conversations s)"

definition advanced :: "store \<Rightarrow> store \<Rightarrow> bool" where
  "advanced s0 s \<longleftrightarrow> (\<exists>r0 r. change_counter s0 = Some r0 \<and> change_counter s = Some r \<and> r0 \<le> r \<and>
     (visible s \<noteq> visible s0 \<longrightarrow> r0 < r))"

lemma advanced_more:
  "advanced s0 s \<Longrightarrow> (\<And>r. change_counter s = Some r \<Longrightarrow> \<exists>r'>r. change_counter s' = Some r') \<Longrightarrow> advanced s0 s'"
  by (force simp: advanced_def)

lemma advanced_frame:
  "advanced s0 s \<Longrightarrow> change_counter s' = change_counter s \<Longrightarrow> visible s' = visible s \<Longrightarrow> advanced s0 s'"
  by (simp add: advanced_def)

lemma advanced_bump:
  assumes "advanced s0 s" "change_counter s' = change_counter s" "n = 0 \<Longrightarrow> visible s' = visible s"
  shows "advanced s0 (bump n s')"
  using assms advanced_frame [OF assms(1), of s'] advanced_more [OF assms(1), of "bump n s'"]
  by (cases "n = 0") auto

lemma advanced_frames [simp]:
  "advanced s0 (s\<lparr>outbox := a\<rparr>) = advanced s0 s" "advanced s0 (s\<lparr>sync_cursors := b\<rparr>) = advanced s0 s"
  "advanced s0 (s\<lparr>blocked := c\<rparr>) = advanced s0 s" "advanced s0 (s\<lparr>relay_cache := d\<rparr>) = advanced s0 s"
  "advanced s0 (s\<lparr>network_state := e\<rparr>) = advanced s0 s" "advanced s0 (s\<lparr>key_metadata := f\<rparr>) = advanced s0 s"
  by (auto simp: advanced_def visible_def)

lemma advanced_tables:
  "advanced s0 s \<Longrightarrow> (n = 0 \<Longrightarrow> ms = messages s) \<Longrightarrow> advanced s0 (bump n (s\<lparr>messages := ms\<rparr>))"
  "advanced s0 s \<Longrightarrow> (n = 0 \<Longrightarrow> ib = inbox s) \<Longrightarrow> advanced s0 (bump n (s\<lparr>inbox := ib\<rparr>))"
  "advanced s0 s \<Longrightarrow> (n = 0 \<Longrightarrow> mb = members s) \<Longrightarrow> advanced s0 (bump n (s\<lparr>members := mb\<rparr>))"
  "advanced s0 s \<Longrightarrow> (n = 0 \<Longrightarrow> cs = conversations s) \<Longrightarrow> advanced s0 (bump n (s\<lparr>conversations := cs\<rparr>))"
  by (erule advanced_bump; simp add: visible_def)+

lemma advanced_keeps:
  "keeps (advanced s0) (create_group t g)"
  "keeps (advanced s0) (add_member g d a)"
  "keeps (advanced s0) (remove_member t g d)"
  "keeps (advanced s0) (mark_upload_accepted i)"
  "keeps (advanced s0) (retry_message t i)"
  "keeps (advanced s0) (cancel_pending_message i)"
  "keeps (advanced s0) (ingest_server_event t e c b)"
  "keeps (advanced s0) (set_sync_cursor sc w)"
  "keeps (advanced s0) (advance_message_status i st)"
  "keeps (advanced s0) (block_account t a)"
  "keeps (advanced s0) (unblock_account a)"
  "keeps (advanced s0) (set_network_mode nm)"
  "keeps (advanced s0) (cache_relay_directory dir)"
  unfolding create_group_def add_member_def remove_member_def mark_upload_accepted_def retry_message_def
    cancel_pending_message_def ingest_server_event_def set_sync_cursor_def advance_message_status_def
    block_account_def unblock_account_def set_network_mode_def cache_relay_directory_def statement_defs
  by (rule keepsI; auto simp: case_prod_beta update_where_noop insert_ignore_noop
      split: option.splits sum.splits intro!: advanced_tables)+

lemma advanced_batch: "keeps (advanced s0) (ingest_server_batch k es)"
  unfolding ingest_server_batch_def incoming_row_def statement_defs
  by (rule keepsI)
    (auto simp: case_prod_beta insert_ignore_noop split: sum.splits intro!: advanced_tables
      ensures_mono [OF ensures_for [where I = "advanced s0" and E = "\<lambda>_ _. True"]])

lemma advanced_create: "keeps (advanced s0) (create_message A key i n t c p)"
proof (rule keepsI)
  show "steady (create_message A key i n t c p)"
    unfolding create_message_def statement_defs by auto
next
  fix s
  assume s: "advanced s0 s"
  show "ensures (create_message A key i n t c p) s (\<lambda>_. advanced s0)"
  proof (cases "encrypt A key n p")
    case (Inr b)
    with s show ?thesis
      unfolding create_message_def statement_defs
      by (intro ensures_bindI)
        (auto simp: case_prod_beta insert_new_Some split: option.splits elim!: advanced_more)
  qed (use s in \<open>auto simp: create_message_def\<close>)
qed


lemma advanced_wipe: "keeps (advanced s0) (wipe_local_account b)"
  unfolding keeps_def
proof (intro allI impI)
  fix c
  assume I: "advanced s0 (durable c)"
  then have "advanced s0 (wiped (durable c))"
    by (rule advanced_more) (simp add: wiped_def)
  with I wipe_run [of b c] show "advanced s0 (durable (snd (wipe_local_account b c)))"
    by (cases "wipe_local_account b c") (auto simp: durable_def)
qed

lemma rotated_advanced: "advanced s0 s \<Longrightarrow> rotated A ns k' v k s s' \<Longrightarrow> advanced s0 s'"
  by (auto simp: rotated_def intro!: advanced_bump [of s0 s] simp: visible_def)

lemma exec_op_advanced:
  assumes "store_inv (durable (db core))"
  shows "advanced (durable (db core)) (durable (db (exec_op A op core)))"
proof -
  have refl: "advanced (durable (db core)) (durable (db core))"
    using assms by (auto simp: advanced_def store_inv_def singletons_ok_iff)
  have run: "keeps (advanced (durable (db core))) m \<Longrightarrow>
      advanced (durable (db core)) (durable (db (on_db m core)))" for m :: "'a core_db"
    using refl by (auto simp: keeps_def on_db_def)
  show ?thesis
  proof (cases op)
    case (RotateMasterKey ns k v)
    obtain r core' where "rotate_master_key A ns k v core = (r, core')" by fastforce
    with rotate_run [OF assms this] refl RotateMasterKey show ?thesis by (auto intro: rotated_advanced)
  next
    case Reopen
    then show ?thesis using assms reopen_durable refl by simp
  qed (auto intro!: run advanced_keeps advanced_create advanced_wipe advanced_batch
      simp: apply_delivery_receipt_def apply_read_receipt_def)
qed
section \<open>Positions that never go back\<close>

definition cursor_level :: "bytes \<Rightarrow> store \<Rightarrow> int" where
  "cursor_level scope s = (case find_row fst scope (sync_cursors s) of None \<Rightarrow> -1 | Some r \<Rightarrow> snd r)"

definition directory_level :: "store \<Rightarrow> int" where
  "directory_level s = (case max_version s of None \<Rightarrow> -1 | Some v \<Rightarrow> v)"

text \<open>Operations that touch neither table.\<close>

definition positions :: "((bytes \<times> int) list \<Rightarrow> relay_row list \<Rightarrow> bool) \<Rightarrow> store \<Rightarrow> bool" where
  "positions Q s \<longleftrightarrow> Q (sync_cursors s) (relay_cache s)"

lemma positions_keeps:
  "keeps (positions Q) (create_group t g)"
  "keeps (positions Q) (add_member g d a)"
  "keeps (positions Q) (remove_member t g d)"
  "keeps (positions Q) (mark_upload_accepted i)"
  "keeps (positions Q) (retry_message t i)"
  "keeps (positions Q) (cancel_pending_message i)"
  "keeps (positions Q) (ingest_server_event t e c b)"
  "keeps (positions Q) (advance_message_status i st)"
  "keeps (positions Q) (block_account t a)"
  "keeps (positions Q) (unblock_account a)"
  "keeps (positions Q) (set_network_mode nm)"
  unfolding create_group_def add_member_def remove_member_def mark_upload_accepted_def retry_message_def
    cancel_pending_message_def ingest_server_event_def advance_message_status_def
    block_account_def unblock_account_def set_network_mode_def statement_defs
  by (rule keepsI; auto simp: positions_def case_prod_beta split: option.splits sum.splits)+

lemma positions_batch: "keeps (positions Q) (ingest_server_batch k es)"
  unfolding ingest_server_batch_def incoming_row_def statement_defs
  by (rule keepsI)
    (auto simp: positions_def case_prod_beta split: sum.splits
      intro!: ensures_mono [OF ensures_for [where I = "positions Q" and E = "\<lambda>_ _. True"]])

lemma positions_create: "keeps (positions Q) (create_message A key i n t c p)"
proof (rule keepsI)
  show "steady (create_message A key i n t c p)"
    unfolding create_message_def statement_defs by auto
next
  fix s
  assume s: "positions Q s"
  show "ensures (create_message A key i n t c p) s (\<lambda>_. positions Q)"
  proof (cases "encrypt A key n p")
    case (Inr b)
    with s show ?thesis
      unfolding create_message_def statement_defs
      by (intro ensures_bindI) (auto simp: positions_def case_prod_beta insert_new_Some split: option.splits)
  qed (use s in \<open>auto simp: create_message_def\<close>)
qed

lemma word_of_int_le:
  fixes c :: u64
  assumes "\<not> c < word_of_int v" "0 \<le> v" "v < 2 ^ 63" "0 \<le> sint c"
  shows "v \<le> sint c"
proof -
  have "v \<le> uint c"
    using assms(1-3) by (simp add: word_less_def uint_word_of_int)
  moreover have "uint c = sint c"
    using assms(4) sint_less [of c] by (simp add: uint_sint take_bit_int_eq_self)
  ultimately show ?thesis by simp
qed

lemma cursor_mono:
  "keeps (\<lambda>s. store_inv s \<and> v \<le> cursor_level k s) (set_sync_cursor sc w)"
proof (rule keepsI)
  fix s
  assume s: "store_inv s \<and> v \<le> cursor_level k s"
  then have old: "find_row fst sc (sync_cursors s) = Some r \<Longrightarrow> 0 \<le> snd r \<and> snd r < 2 ^ 63" for r
    by (auto simp: store_inv_def cursors_ok_def dest: find_row_SomeD)
  have "store_inv (s\<lparr>sync_cursors := upsert fst (sc, sint w) (\<lambda>r. (fst r, sint w)) (sync_cursors s)\<rparr>)"
    if "length sc = 16" "0 \<le> sint w"
    using s that by (auto simp: store_inv_def intro: cursors_ok_upsert)
  then show "ensures (set_sync_cursor sc w) s (\<lambda>_ s. store_inv s \<and> v \<le> cursor_level k s)"
    unfolding set_sync_cursor_def using s old
    by (intro ensures_bindI)
      (auto simp: cursor_level_def find_row_upsert split: option.splits
        intro: order.trans [OF _ word_of_int_le])
qed (auto simp: set_sync_cursor_def)

lemma directory_mono:
  "keeps (\<lambda>s. store_inv s \<and> v \<le> directory_level s) (cache_relay_directory d)"
proof (rule keepsI)
  fix s :: store
  let ?ver = "sint (crd_version d)"
  let ?up = "upsert rd_version \<lparr>rd_version = ?ver, rd_signed = crd_signed_directory d,
      rd_expires = crd_expires_at_ms d\<rparr> (\<lambda>r. r\<lparr>rd_signed := crd_signed_directory d,
      rd_expires := crd_expires_at_ms d\<rparr>) (relay_cache s)"
  assume s: "store_inv s \<and> v \<le> directory_level s"
  have inv: "store_inv (s\<lparr>relay_cache := ?up\<rparr>)" if "0 \<le> ?ver"
    using s that by (auto simp: store_inv_def intro: relay_ok_upsert)
  have keys: "rd_version ` set ?up = insert ?ver (rd_version ` set (relay_cache s))"
    by (simp add: keys_upsert)
  then have "?up \<noteq> []" by auto
  then have level: "directory_level s \<le> directory_level (s\<lparr>relay_cache := ?up\<rparr>)" if "0 \<le> ?ver"
    using that by (simp add: directory_level_def max_version_def keys)
  show "ensures (cache_relay_directory d) s (\<lambda>_ s. store_inv s \<and> v \<le> directory_level s)"
    unfolding cache_relay_directory_def Let_def using s inv level
    by (intro ensures_bindI) (auto split: option.splits)
qed (auto simp: cache_relay_directory_def)

lemma rotated_positions: "positions Q s \<Longrightarrow> rotated A ns k' v k s s' \<Longrightarrow> positions Q s'"
  by (auto simp: rotated_def positions_def)

fun keeps_positions :: "core_op \<Rightarrow> bool" where
  "keeps_positions (WipeLocalAccount b) = False"
| "keeps_positions _ = True"

lemma exec_op_level:
  fixes level :: "store \<Rightarrow> int"
  assumes inv: "store_inv (durable (db core))" and op: "keeps_positions op"
    and level: "\<And>s. level s = f (sync_cursors s) (relay_cache s)"
    and cursor: "\<And>v k w. keeps (\<lambda>s. store_inv s \<and> v \<le> level s) (set_sync_cursor k w)"
    and directory: "\<And>v d. keeps (\<lambda>s. store_inv s \<and> v \<le> level s) (cache_relay_directory d)"
  shows "level (durable (db core)) \<le> level (durable (db (exec_op A op core)))"
proof -
  let ?v = "level (durable (db core))"
  define Q where "Q = (\<lambda>cu rc. ?v \<le> f cu rc)"
  have Q: "?v \<le> level s \<longleftrightarrow> positions Q s" for s by (simp add: Q_def positions_def level)
  then have start: "positions Q (durable (db core))" by auto
  have run: "keeps (positions Q) m \<Longrightarrow> ?v \<le> level (durable (db (on_db m core)))" for m :: "'a core_db"
    using start by (auto simp: Q keeps_def on_db_def)
  have moved: "keeps (\<lambda>s. store_inv s \<and> ?v \<le> level s) m \<Longrightarrow> ?v \<le> level (durable (db (on_db m core)))"
    for m :: "'a core_db"
    using inv by (auto simp: keeps_def on_db_def)
  show ?thesis
    using op
  proof (cases op)
    case (RotateMasterKey ns k v)
    obtain r core' where "rotate_master_key A ns k v core = (r, core')" by fastforce
    with rotate_run [OF inv this] start RotateMasterKey show ?thesis by (auto simp: Q intro: rotated_positions)
  next
    case Reopen
    then show ?thesis using inv reopen_durable by simp
  next
    case (SetSyncCursor k w)
    then show ?thesis using moved [OF cursor] by simp
  next
    case (CacheRelayDirectory d)
    then show ?thesis using moved [OF directory] by simp
  qed (auto intro!: run positions_keeps positions_create positions_batch
      simp: apply_delivery_receipt_def apply_read_receipt_def)
qed

lemma core_step_store_inv:
  "store_inv (durable (db core)) \<Longrightarrow> store_inv (durable (db (core_step A core op)))"
  using exec_op_store_inv [of "core\<lparr>db := (db core)\<lparr>faults := fst op\<rparr>\<rparr>" A "snd op"]
  by (simp add: core_step_def case_prod_beta)

lemma core_step_level:
  fixes level :: "store \<Rightarrow> int"
  assumes "store_inv (durable (db core))" "keeps_positions (snd op)"
    and "\<And>s. level s = f (sync_cursors s) (relay_cache s)"
    and "\<And>v k w. keeps (\<lambda>s. store_inv s \<and> v \<le> level s) (set_sync_cursor k w)"
    and "\<And>v d. keeps (\<lambda>s. store_inv s \<and> v \<le> level s) (cache_relay_directory d)"
  shows "level (durable (db core)) \<le> level (durable (db (core_step A core op)))"
  using exec_op_level [OF _ assms(2-5), of "core\<lparr>db := (db core)\<lparr>faults := fst op\<rparr>\<rparr>"] assms(1)
  by (simp add: core_step_def case_prod_beta)

lemma cursor_level_other:
  "keeps (\<lambda>s. store_inv s \<and> v \<le> cursor_level k s) (cache_relay_directory d)"
proof -
  have "keeps (\<lambda>s. v \<le> cursor_level k s) (cache_relay_directory d)"
    unfolding cache_relay_directory_def Let_def by (rule keepsI) (auto simp: cursor_level_def)
  with relay_keeps show ?thesis unfolding keeps_def by blast
qed

lemma directory_level_other:
  "keeps (\<lambda>s. store_inv s \<and> v \<le> directory_level s) (set_sync_cursor k w)"
proof -
  have "keeps (\<lambda>s. v \<le> directory_level s) (set_sync_cursor k w)"
    unfolding set_sync_cursor_def
    by (rule keepsI) (auto simp: directory_level_def max_version_def)
  with cursor_keeps show ?thesis unfolding keeps_def by blast
qed

interpretation cursor_runs: monotone_system "core_step A" "\<lambda>op. keeps_positions (snd op)"
    "\<lambda>core. store_inv (durable (db core))" "\<lambda>core. cursor_level scope (durable (db core))" for A scope
proof
  fix core :: core and op :: "bool list \<times> core_op"
  assume "store_inv (durable (db core))" "keeps_positions (snd op)"
  then show "cursor_level scope (durable (db core)) \<le> cursor_level scope (durable (db (core_step A core op)))"
    by (rule core_step_level [where f = "\<lambda>cu rc. case find_row fst scope cu of None \<Rightarrow> -1 | Some r \<Rightarrow> snd r"])
      (simp_all add: cursor_mono cursor_level_other, simp add: cursor_level_def)
qed (rule core_step_store_inv)

interpretation directory_runs: monotone_system "core_step A" "\<lambda>op. keeps_positions (snd op)"
    "\<lambda>core. store_inv (durable (db core))" "\<lambda>core. directory_level (durable (db core))" for A
proof
  fix core :: core and op :: "bool list \<times> core_op"
  assume "store_inv (durable (db core))" "keeps_positions (snd op)"
  then show "directory_level (durable (db core)) \<le> directory_level (durable (db (core_step A core op)))"
    by (rule core_step_level [where f = "\<lambda>cu rc. if rc = [] then -1 else Max (rd_version ` set rc)"])
      (simp_all add: directory_mono directory_level_other, simp add: directory_level_def max_version_def)
qed (rule core_step_store_inv)

section \<open>Due uploads\<close>

lemma outbox_message:
  assumes "store_inv s" "r \<in> set (outbox s)"
  obtains m where "find_row ms_id (ob_id r) (messages s) = Some m" "m \<in> set (messages s)" "ms_id m = ob_id r"
    "length (ms_id m) = 16" "length (ms_conversation m) = 16"
proof -
  have "find_row ms_id (ob_id r) (messages s) \<noteq> None"
    using assms by (simp add: store_inv_def outbox_ok_def find_row_None)
  then obtain m where m: "find_row ms_id (ob_id r) (messages s) = Some m" by blast
  then have "m \<in> set (messages s)" "ms_id m = ob_id r" by (auto dest: find_row_SomeD)
  with m assms(1) show thesis
    by (intro that) (auto simp: store_inv_def messages_ok_def conversations_ok_def)
qed

lemma due_rows_map:
  assumes "store_inv s"
  shows "due_rows now limit s = take (min limit 50) (map (\<lambda>r. (r, the (find_row ms_id (ob_id r) (messages s))))
     (sort_key ob_next (filter (\<lambda>r. ob_next r \<le> now) (outbox s))))"
proof -
  have row: "map_option (\<lambda>m. (r, m)) (find_row ms_id (ob_id r) (messages s)) =
      Some (r, the (find_row ms_id (ob_id r) (messages s)))" if "r \<in> set (outbox s)" for r
    using outbox_message [OF assms that] by (metis option.map(2) option.sel)
  have "List.map_filter (\<lambda>r. map_option (\<lambda>m. (r, m)) (find_row ms_id (ob_id r) (messages s))) rows =
    map (\<lambda>r. (r, the (find_row ms_id (ob_id r) (messages s)))) rows" if "set rows \<subseteq> set (outbox s)" for rows
    using that by (induction rows) (simp_all add: row)
  from this [of "filter (\<lambda>r. ob_next r \<le> now) (outbox s)"] show ?thesis
    by (simp add: due_rows_def sort_key_map)
qed

definition upload_of :: "store \<Rightarrow> outbox_row \<Rightarrow> pending_upload" where
  "upload_of s r = (let m = the (find_row ms_id (ob_id r) (messages s)) in
     \<lparr>pu_client_message_id = ob_id r, pu_conversation_id = ms_conversation m,
      pu_encrypted_payload = ms_body m, pu_attempts = word_of_int (ob_attempts r)\<rparr>)"

lemma pending_uploads_rows:
  assumes "store_inv s" "\<forall>r \<in> set (outbox s). ob_attempts r < 2 ^ 32"
  shows "get_pending_uploads now limit (quiet s) =
    (Inr (map (upload_of s) (take (min limit 50)
       (sort_key ob_next (filter (\<lambda>r. ob_next r \<le> now) (outbox s))))), quiet s)"
proof -
  have row: "pending_row (r, the (find_row ms_id (ob_id r) (messages s))) = Inr (upload_of s r)"
    if r: "r \<in> set (outbox s)" for r
  proof -
    obtain m where "find_row ms_id (ob_id r) (messages s) = Some m" "ms_id m = ob_id r"
      "length (ms_id m) = 16" "length (ms_conversation m) = 16"
      using outbox_message [OF assms(1) r] by metis
    moreover have "0 \<le> ob_attempts r" "ob_attempts r < 2 ^ 32"
      using assms r by (auto simp: store_inv_def outbox_ok_def)
    ultimately show ?thesis
      by (simp add: pending_row_def upload_of_def get_u32_def fixed_id_def)
  qed
  show ?thesis
    unfolding get_pending_uploads_def quiet_query due_rows_map [OF assms(1)] take_map collect_results_comp
    by (subst collect_results_map [where g = "upload_of s"]) (auto dest!: in_set_takeD intro!: row)
qed

section \<open>Reading messages back\<close>

lemma status_round_trip: "status_try_from v = Inr st \<longleftrightarrow> v = status_code st"
  by (cases st) (auto simp: status_try_from_def)

lemma read_message_iff:
  "read_message A key m = Inr lm \<longleftrightarrow>
     decrypt A key (ms_body m) = Inr (lm_plaintext lm) \<and> utf8_valid (lm_plaintext lm) \<and>
     length (ms_id m) = 16 \<and> lm_client_message_id lm = ms_id m \<and> lm_conversation_id lm = ms_conversation m \<and>
     ms_status m = status_code (lm_status lm) \<and> lm_created_at_ms lm = ms_created m"
  by (cases lm) (auto simp: read_message_def string_from_utf8_def fixed_id_def result_simps
      simp flip: status_round_trip)

lemma read_message_total:
  assumes "store_inv s" "readable A key s" "m \<in> set (messages s)"
  shows "\<exists>lm. read_message A key m = Inr lm"
proof -
  obtain p where "decrypt A key (ms_body m) = Inr p" "utf8_valid p"
    using assms(2,3) by (auto simp: readable_def)
  moreover have "ms_status m \<in> range status_code"
    using assms(1,3) unfolding store_inv_def messages_ok_def by blast
  then obtain st where "ms_status m = status_code st" by blast
  moreover have "length (ms_id m) = 16" using assms(1,3) by (simp add: store_inv_def messages_ok_def)
  ultimately show ?thesis
    by (intro exI [of _ "\<lparr>lm_client_message_id = ms_id m, lm_conversation_id = ms_conversation m,
        lm_plaintext = p, lm_status = st, lm_created_at_ms = ms_created m\<rparr>"]) (simp add: read_message_iff)
qed

lemma list_messages_rows:
  assumes "store_inv s" "readable A key s"
  shows "\<exists>lms. list_messages A key conv (quiet s) = (Inr lms, quiet s) \<and>
     list_all2 (\<lambda>m lm. read_message A key m = Inr lm)
       (sort_key ms_created (filter (\<lambda>r. ms_conversation r = conv) (messages s))) lms"
proof -
  let ?rows = "sort_key ms_created (filter (\<lambda>r. ms_conversation r = conv) (messages s))"
  have "read_message A key m = Inr (projr (read_message A key m))" if "m \<in> set ?rows" for m
    using read_message_total [OF assms, of m] that by auto
  then have "collect_results (read_message A key) ?rows = Inr (map (\<lambda>m. projr (read_message A key m)) ?rows)"
    by (rule collect_results_map)
  then show ?thesis
    by (auto simp: list_messages_def simp flip: collect_results_Inr_iff)
qed

text \<open>On a store that satisfies the invariant, listing a conversation succeeds and gives
  exactly its messages, each once, decrypted, ordered by creation time.\<close>

theorem list_messages_complete:
  assumes "store_inv s" "readable A key s"
  shows "\<exists>lms. list_messages A key conv (quiet s) = (Inr lms, quiet s) \<and>
     sorted (map lm_created_at_ms lms) \<and> distinct (map lm_client_message_id lms) \<and>
     (\<forall>lm. lm \<in> set lms \<longleftrightarrow>
        (\<exists>m \<in> set (messages s). ms_conversation m = conv \<and> read_message A key m = Inr lm))"
proof -
  let ?rows = "sort_key ms_created (filter (\<lambda>r. ms_conversation r = conv) (messages s))"
  from list_messages_rows [OF assms] obtain lms where
    lms: "list_messages A key conv (quiet s) = (Inr lms, quiet s)"
      "list_all2 (\<lambda>m lm. read_message A key m = Inr lm) ?rows lms" by blast
  from lms(2) have "map lm_created_at_ms lms = map ms_created ?rows" "map lm_client_message_id lms = map ms_id ?rows"
    by (induction rule: list_all2_induct) (auto simp: read_message_iff)
  moreover have "keyed ms_id ?rows"
    using assms(1) by (simp add: store_inv_def messages_ok_def table_simps)
  ultimately show ?thesis
    using lms(1) list_all2_results_set [OF lms(2)] by (intro exI [of _ lms]) (auto simp: keyed_def)
qed

lemma migrate_quiet:
  "migrate (quiet s) =
     (if user_version s > SCHEMA_VERSION then (Inl Database, quiet s) else (Inr (), quiet (create_schema s)))"
  by (simp add: migrate_def query_user_version_def create_schema_def)

lemma reopen_quiet:
  assumes "store_inv (durable (db core))" "length (master_key core) = 32" "faults (db core) = []"
  shows "db (reopen core) = quiet (durable (db core))"
proof -
  have "migrate (quiet (durable (db core))) = (Inr (), quiet (durable (db core)))"
    using assms(1) create_schema_idem [OF assms(1)]
    by (simp add: migrate_quiet store_inv_def singletons_ok_iff)
  then show ?thesis using assms by (simp add: reopen_def open_core_def flip: quiet_def)
qed

lemma create_message_reads:
  assumes "aead_correct A" "length nonce = 24" "utf8_valid text" "length i = 16"
    "create_message A key i nonce now conv text c = (Inr mid, c')"
  shows "mid = i \<and> (\<exists>m \<in> set (messages (durable c')). ms_conversation m = conv \<and>
    read_message A key m = Inr \<lparr>lm_client_message_id = i, lm_conversation_id = conv, lm_plaintext = text,
      lm_status = ReadyToUpload, lm_created_at_ms = now\<rparr>)"
proof -
  obtain body where body: "encrypt A key nonce text = Inr body"
    using assms(5) by (cases "encrypt A key nonce text") (auto simp: create_message_def db_bind_def db_lift_def)
  have saved: "saved c = None"
    using assms(5) body by (auto simp: create_message_def db_bind_def db_lift_def intro: transaction_ok)
  then show ?thesis
    using create_message_ensures [OF body, of i now conv "live c", unfolded ensures_def, rule_format, OF _ saved assms(5)]
      decrypt_encrypt [OF assms(1,2) body] assms(3,4)
    by (auto simp: durable_def read_message_iff)
qed



definition demo_key :: bytes where "demo_key = replicate 32 7"
definition demo_key2 :: bytes where "demo_key2 = replicate 32 8"
definition demo_conv :: bytes where "demo_conv = replicate 16 3"
definition demo_id :: bytes where "demo_id = replicate 16 1"
definition demo_nonce :: bytes where "demo_nonce = replicate 24 9"
definition demo_text :: bytes where "demo_text = [0x68, 0x69]"

definition demo_core :: core where
  "demo_core = \<lparr>db = quiet (create_schema empty_store), master_key = demo_key\<rparr>"

definition demo_sent :: core where
  "demo_sent = exec_op tag_aead (CreateMessage demo_id demo_nonce 5 demo_conv demo_text) demo_core"

lemma demo_open: "open_in_memory [] demo_key = Inr demo_core"
  by code_simp

lemma demo_create:
  "create_message tag_aead demo_key demo_id demo_nonce 5 demo_conv demo_text (quiet (create_schema empty_store)) =
    (Inr demo_id, db demo_sent)"
  by code_simp

lemma demo_sent_quiet: "db demo_sent = quiet (live (db demo_sent))" "store_inv (live (db demo_sent))"
  by code_simp+

lemma early_receipt_blocks_acknowledgement:
  "fst (mark_upload_accepted demo_id (db (exec_op tag_aead (ApplyDeliveryReceipt demo_id) demo_sent))) = Inl InvalidTransition \<and>
   map ob_id (outbox (live (db (exec_op tag_aead (ApplyDeliveryReceipt demo_id) demo_sent)))) = [demo_id]"
  by code_simp

lemma retry_undoes_receipt:
  "map ms_status (messages (live (db (exec_op tag_aead (RetryMessage 9 demo_id) (exec_op tag_aead (ApplyReadReceipt demo_id) demo_sent))))) =
     [status_code RetryScheduled]"
  by code_simp

lemma failed_wipe: "saved (snd (wipe_local_account False (quiet empty_store\<lparr>faults := [False, True]\<rparr>))) \<noteq> None"
  by code_simp

section \<open>Sequences of operations\<close>

text \<open>C3: Whatever sequence of operations runs on a store that was opened empty, whichever
  statements fail and wherever the process is killed in between, the rows on disk satisfy the
  invariant of the store and every message is readable under the active key.\<close>

theorem core_run_invariant:
  assumes "aead_correct A" "open_in_memory fs key = Inr core" "list_all (\<lambda>op. op_typed (snd op)) ops"
  shows "core_inv A (foldl (core_step A) core ops)"
  using core_runs.run_inv [of A core ops] open_in_memory_inv [OF assms(2)] assms by blast

text \<open>C26: The revision never falls, and it rises whenever messages, inbox, members or conversations
  change, whichever statement fails: a client that waits for a revision above the last one it saw
  misses no change.\<close>

theorem revision_announces_changes:
  assumes "store_inv (durable (db core))"
  shows "case (change_counter (durable (db core)), change_counter (durable (db (exec_op A op core)))) of
    (Some r, Some r') \<Rightarrow> r \<le> r' \<and> (visible (durable (db (exec_op A op core))) = visible (durable (db core)) \<or> r < r')
  | _ \<Rightarrow> False"
  using exec_op_advanced [OF assms, of A op] by (auto simp: advanced_def)

text \<open>C27: Until the account is wiped, the sync cursor of a scope and the version of the newest cached
  relay directory never go back, whatever operations run, fail or are repeated.\<close>

theorem positions_never_go_back:
  assumes "store_inv (durable (db core))" "list_all (\<lambda>op. keeps_positions (snd op)) (us @ vs)"
  shows "cursor_level scope (durable (db (foldl (core_step A) core us))) \<le>
           cursor_level scope (durable (db (foldl (core_step A) core (us @ vs)))) \<and>
         directory_level (durable (db (foldl (core_step A) core us))) \<le>
           directory_level (durable (db (foldl (core_step A) core (us @ vs))))"
  using cursor_runs.run_mono_prefix [of core us vs scope A] directory_runs.run_mono_prefix [of core us vs A] assms
  by blast

section \<open>Witnesses\<close>

lemma demo_core_inv: "core_inv tag_aead demo_core"
  using open_in_memory_inv [OF demo_open] by simp

lemma demo_lengths: "length demo_nonce = 24" "length demo_id = 16" "utf8_valid demo_text"
  by code_simp+

lemma demo_typed: "op_typed (CreateMessage demo_id demo_nonce 5 demo_conv demo_text)"
  by (simp add: demo_lengths)

lemma demo_sent_inv: "core_inv tag_aead demo_sent"
  using exec_op_inv [OF tag_aead_correct demo_core_inv demo_typed] by (simp add: demo_sent_def)

lemma demo_sent_readable: "readable tag_aead demo_key (live (db demo_sent))"
proof -
  have "master_key demo_sent = demo_key" "durable (db demo_sent) = live (db demo_sent)" by code_simp+
  with demo_sent_inv show ?thesis by (simp add: core_inv_def)
qed

theorem create_message_durable_witness:
  "outbox (durable (db demo_sent)) = [\<lparr>ob_id = demo_id, ob_next = 5, ob_attempts = 0\<rparr>]"
  using create_message_durable [OF tag_aead_correct demo_lengths(1) demo_create]
  by (simp add: create_schema_def empty_store_def)

lemma demo_rows:
  "map_option ms_status (find_row ms_id demo_id (messages (live (db demo_sent)))) = Some 3"
  "find_row ob_id demo_id (outbox (live (db demo_sent))) = Some \<lparr>ob_id = demo_id, ob_next = 5, ob_attempts = 0\<rparr>"
  "list_all (\<lambda>r. ob_attempts r < 2 ^ 32) (outbox (live (db demo_sent)))"
  by code_simp+

theorem mark_upload_accepted_spec_witness:
  "mark_upload_accepted demo_id (quiet (live (db demo_sent))) =
     (Inr (), quiet (accepted demo_id (live (db demo_sent))))"
  using mark_upload_accepted_spec [OF demo_sent_quiet(2), of demo_id] demo_rows(1) by auto

theorem retry_message_backoff_witness:
  "\<exists>s'. retry_message 9 demo_id (quiet (live (db demo_sent))) = (Inr (), quiet s') \<and>
     find_row ob_id demo_id (outbox s') = Some \<lparr>ob_id = demo_id, ob_next = 1009, ob_attempts = 1\<rparr>"
  using retry_message_backoff [OF demo_sent_quiet(2) demo_rows(2), of 9] by auto

definition demo_events :: "incoming_event list" where
  "demo_events = [\<lparr>in_event_id = demo_id, in_conversation_id = demo_conv, in_encrypted_event = [1]\<rparr>,
     \<lparr>in_event_id = demo_id, in_conversation_id = demo_conv, in_encrypted_event = [2]\<rparr>]"

lemma demo_events_ok: "length demo_events \<le> 50" "\<forall>e \<in> set demo_events. length (in_event_id e) = 16"
  by code_simp+


definition demo_rotated :: core where
  "demo_rotated = snd (rotate_master_key tag_aead (\<lambda>_. demo_nonce) demo_key2 2 demo_sent)"

lemma demo_rotate: "rotate_master_key tag_aead (\<lambda>_. demo_nonce) demo_key2 2 demo_sent = (Inr (), demo_rotated)"
  by code_simp

theorem rotate_preserves_messages_witness:
  "fst (list_messages tag_aead (master_key demo_rotated) demo_conv (quiet (durable (db demo_rotated)))) =
   fst (list_messages tag_aead (master_key demo_sent) demo_conv (quiet (durable (db demo_sent))))"
proof -
  have "store_inv (durable (db demo_sent))" using demo_sent_inv by (simp add: core_inv_def)
  from rotate_preserves_messages [OF tag_aead_correct demo_lengths(1) this demo_rotate, of demo_conv] show ?thesis
    by blast
qed


theorem list_messages_complete_witness:
  "\<exists>lms. list_messages tag_aead demo_key demo_conv (quiet (live (db demo_sent))) =
     (Inr lms, quiet (live (db demo_sent))) \<and> sorted (map lm_created_at_ms lms)"
  using list_messages_complete [OF demo_sent_quiet(2) demo_sent_readable, of demo_conv] by blast



definition demo_ops :: "(bool list \<times> core_op) list" where
  "demo_ops = [([], CreateMessage demo_id demo_nonce 5 demo_conv demo_text),
     ([False, False, True], WipeLocalAccount False), ([], Reopen), ([], MarkUploadAccepted demo_id)]"

theorem core_run_invariant_witness: "core_inv tag_aead (foldl (core_step tag_aead) demo_core demo_ops)"
  by (rule core_run_invariant [OF tag_aead_correct demo_open]) (simp add: demo_ops_def demo_lengths)

theorem revision_announces_changes_witness:
  "\<exists>r r'. change_counter (durable (db demo_core)) = Some r \<and> change_counter (durable (db demo_sent)) = Some r' \<and> r < r'"
proof -
  have inv: "store_inv (durable (db demo_core))" using demo_core_inv by (simp add: core_inv_def)
  have "visible (durable (db demo_sent)) \<noteq> visible (durable (db demo_core))" by code_simp
  with revision_announces_changes [OF inv, of tag_aead "CreateMessage demo_id demo_nonce 5 demo_conv demo_text"]
  show ?thesis by (auto simp: demo_sent_def split: option.splits)
qed

theorem positions_never_go_back_witness:
  "cursor_level demo_conv (durable (db (foldl (core_step tag_aead) demo_core [([], SetSyncCursor demo_conv 9)]))) \<le>
   cursor_level demo_conv (durable (db (foldl (core_step tag_aead) demo_core
     ([([], SetSyncCursor demo_conv 9)] @ [([], SetSyncCursor demo_conv 4)]))))"
proof -
  have inv: "store_inv (durable (db demo_core))" using demo_core_inv by (simp add: core_inv_def)
  show ?thesis
    using positions_never_go_back [OF inv, of "[([], SetSyncCursor demo_conv 9)]" "[([], SetSyncCursor demo_conv 4)]"]
    by simp
qed

end
