(* ===== verification/Crypto_Engine.thy ===== *)
theory Crypto_Engine
  imports Tables Identity "HOL-Library.List_Lexorder"
begin

text \<open>
  The end-to-end encryption boundary, \<open>crates/messenger-crypto/src/lib.rs\<close>: member credentials,
  the engine that holds one MLS group per conversation, and the encrypted snapshot of its state.
  OpenMLS is a parameter: a record of the library calls the engine makes, over its own types of
  groups, signature keys and other values. A call may change the group and the storage of the
  provider whether it succeeds or not.
\<close>

section \<open>Credentials and errors\<close>

datatype CryptoError =
    OpenMls string | InvalidMessage | ConversationNotFound | InvalidCredential | StateAuthentication

record MemberCredential =
  mc_device_id :: bytes
  mc_account_id :: bytes
  mc_certificate_fingerprint :: bytes

definition credential_encode :: "MemberCredential \<Rightarrow> bytes" where
  "credential_encode m = [1] @ mc_device_id m @ mc_account_id m @ mc_certificate_fingerprint m"

text \<open>The slices have the lengths of the arrays, so \<open>try_into\<close> does not fail.\<close>

definition credential_decode :: "bytes \<Rightarrow> (CryptoError, MemberCredential) result" where
  "credential_decode v =
     (if length v \<noteq> 65 \<or> v ! 0 \<noteq> 1 then Inl InvalidCredential
      else Inr \<lparr>mc_device_id = take 16 (drop 1 v), mc_account_id = take 32 (drop 17 v),
                mc_certificate_fingerprint = take 16 (drop 49 v)\<rparr>)"

record GroupChange =
  gh_commit :: bytes
  gh_welcome :: "bytes option"

datatype IncomingMessage = Application bytes | CommitApplied | ProposalQueued

section \<open>The library\<close>

text \<open>
  The provider: the values of its storage (a \<open>HashMap\<close>, as its entries) and the rest of its
  state. A credential is an identity and a signature key.
\<close>

record 'r provider =
  pv_values :: "(bytes \<times> bytes) list"
  pv_rest :: 'r

type_synonym credential = "bytes \<times> bytes"

type_synonym ('r, 'g, 'a) mls_call = "'g \<Rightarrow> 'r provider \<Rightarrow> 'a option \<times> 'g \<times> 'r provider"

text \<open>\<open>ProcessedMessageContent\<close>; the last case is any other content.\<close>

datatype 'x content = ApplicationMessage bytes | StagedCommitMessage 'x | ProposalMessage 'x | OtherContent

record ('r, 'k, 'g, 'x) openmls =
  mls_signer_new :: "'r provider \<Rightarrow> 'k option \<times> 'r provider"
  mls_signer_store :: "'k \<Rightarrow> 'r provider \<Rightarrow> bool \<times> 'r provider"
  mls_signer_public :: "'k \<Rightarrow> bytes"
  mls_signer_bytes :: "'k \<Rightarrow> bytes option"
  mls_signer_parse :: "bytes \<Rightarrow> 'k option"
  mls_bytes :: "'x \<Rightarrow> bytes option"
  mls_build_package :: "'k \<Rightarrow> credential \<Rightarrow> 'r provider \<Rightarrow> 'x option \<times> 'r provider"
  mls_read_package :: "bytes \<Rightarrow> 'x option"
  mls_new_group :: "'k \<Rightarrow> credential \<Rightarrow> bytes \<Rightarrow> 'r provider \<Rightarrow> 'g option \<times> 'r provider"
  mls_read_welcome :: "bytes \<Rightarrow> 'x option"
  mls_join :: "'x \<Rightarrow> 'r provider \<Rightarrow> 'g option \<times> 'r provider"
  mls_group_id :: "'g \<Rightarrow> bytes"
  mls_epoch :: "'g \<Rightarrow> u64"
  mls_members :: "'g \<Rightarrow> (bytes \<times> nat) list"
  mls_add_members :: "'k \<Rightarrow> 'x list \<Rightarrow> ('r, 'g, 'x \<times> 'x) mls_call"
  mls_remove_members :: "'k \<Rightarrow> nat \<Rightarrow> ('r, 'g, 'x \<times> 'x option) mls_call"
  mls_propose_add :: "'k \<Rightarrow> 'x \<Rightarrow> ('r, 'g, 'x) mls_call"
  mls_propose_remove :: "'k \<Rightarrow> nat \<Rightarrow> ('r, 'g, 'x) mls_call"
  mls_merge_pending :: "('r, 'g, unit) mls_call"
  mls_create_message :: "'k \<Rightarrow> bytes \<Rightarrow> ('r, 'g, 'x) mls_call"
  mls_read_message :: "bytes \<Rightarrow> 'x option"
  mls_process :: "'x \<Rightarrow> ('r, 'g, 'x content) mls_call"
  mls_merge_staged :: "'x \<Rightarrow> ('r, 'g, unit) mls_call"
  mls_store_proposal :: "'x \<Rightarrow> ('r, 'g, unit) mls_call"
  mls_self_update :: "'k \<Rightarrow> ('r, 'g, 'x) mls_call"
  mls_load :: "bytes \<Rightarrow> (bytes \<Rightarrow> bytes option) \<Rightarrow> 'g option option"
  mls_delete :: "'g \<Rightarrow> 'r provider \<Rightarrow> bool \<times> 'r provider"

section \<open>The engine\<close>

record ('r, 'k, 'g) CryptoEngine =
  ce_provider :: "'r provider"
  ce_signer :: 'k
  ce_credential :: credential
  ce_groups :: "bytes \<Rightarrow> 'g option"
  ce_state_key :: bytes

definition initialize_crypto_store ::
    "('r, 'k, 'g, 'x) openmls \<Rightarrow> 'r provider \<Rightarrow> MemberCredential \<Rightarrow> bytes \<Rightarrow> (CryptoError, ('r, 'k, 'g) CryptoEngine) result" where
  "initialize_crypto_store L fresh member state_key =
     (case mls_signer_new L fresh of
        (None, _) \<Rightarrow> Inl (OpenMls ''signature key generation'')
      | (Some signer, p) \<Rightarrow>
          (case mls_signer_store L signer p of
             (False, _) \<Rightarrow> Inl (OpenMls ''signature key storage'')
           | (True, p) \<Rightarrow> Inr \<lparr>ce_provider = p, ce_signer = signer,
                ce_credential = (credential_encode member, mls_signer_public L signer),
                ce_groups = (\<lambda>_. None), ce_state_key = state_key\<rparr>))"

text \<open>\<open>(0..n).map(..).collect()\<close>: the first failure ends the loop.\<close>

fun build_packages :: "('r, 'k, 'g, 'x) openmls \<Rightarrow> 'k \<Rightarrow> credential \<Rightarrow> nat \<Rightarrow> 'r provider \<Rightarrow>
    (CryptoError, bytes list) result \<times> 'r provider" where
  "build_packages L signer cred 0 p = (Inr [], p)"
| "build_packages L signer cred (Suc n) p =
     (case mls_build_package L signer cred p of
        (None, p) \<Rightarrow> (Inl (OpenMls ''key package generation''), p)
      | (Some bundle, p) \<Rightarrow>
          (case mls_bytes L bundle of
             None \<Rightarrow> (Inl (OpenMls ''key package serialization''), p)
           | Some v \<Rightarrow>
               (case build_packages L signer cred n p of
                  (Inl e, p) \<Rightarrow> (Inl e, p)
                | (Inr vs, p) \<Rightarrow> (Inr (v # vs), p))))"

type_synonym ('r, 'k, 'g, 'a) engine_call =
  "('r, 'k, 'g) CryptoEngine \<Rightarrow> (CryptoError, 'a) result \<times> ('r, 'k, 'g) CryptoEngine"

definition generate_key_packages :: "('r, 'k, 'g, 'x) openmls \<Rightarrow> nat \<Rightarrow> ('r, 'k, 'g, bytes list) engine_call" where
  "generate_key_packages L n e =
     (case build_packages L (ce_signer e) (ce_credential e) (min n 100) (ce_provider e) of
        (r, p) \<Rightarrow> (r, e\<lparr>ce_provider := p\<rparr>))"

definition export_public_key_packages :: "('r, 'k, 'g, 'x) openmls \<Rightarrow> nat \<Rightarrow> ('r, 'k, 'g, bytes list) engine_call" where
  "export_public_key_packages L n e = generate_key_packages L n e"

definition create_conversation :: "('r, 'k, 'g, 'x) openmls \<Rightarrow> bytes \<Rightarrow> ('r, 'k, 'g, unit) engine_call" where
  "create_conversation L gid e =
     (if gid = [] \<or> length gid > 255 then (Inl InvalidMessage, e)
      else case mls_new_group L (ce_signer e) (ce_credential e) gid (ce_provider e) of
        (None, p) \<Rightarrow> (Inl (OpenMls ''group creation''), e\<lparr>ce_provider := p\<rparr>)
      | (Some g, p) \<Rightarrow> (Inr (), e\<lparr>ce_provider := p, ce_groups := (ce_groups e)(gid \<mapsto> g)\<rparr>))"

definition join_conversation_from_welcome :: "('r, 'k, 'g, 'x) openmls \<Rightarrow> bytes \<Rightarrow> ('r, 'k, 'g, bytes) engine_call" where
  "join_conversation_from_welcome L v e =
     (case mls_read_welcome L v of
        None \<Rightarrow> (Inl InvalidMessage, e)
      | Some welcome \<Rightarrow>
          (case mls_join L welcome (ce_provider e) of
             (None, p) \<Rightarrow> (Inl InvalidMessage, e\<lparr>ce_provider := p\<rparr>)
           | (Some g, p) \<Rightarrow> (Inr (mls_group_id L g),
                e\<lparr>ce_provider := p, ce_groups := (ce_groups e)(mls_group_id L g \<mapsto> g)\<rparr>)))"

subsection \<open>Calls on the group of a conversation\<close>

text \<open>
  \<open>self.groups.get_mut(group_id)\<close>, then calls that change the group in place and the provider.
  \<open>mls err c\<close> is a library call whose failure is \<open>CryptoError::OpenMls(err)\<close> or another error.
\<close>

type_synonym ('r, 'g, 'a) group_call = "'g \<Rightarrow> 'r provider \<Rightarrow> (CryptoError, 'a) result \<times> 'g \<times> 'r provider"

definition mls :: "CryptoError \<Rightarrow> ('r, 'g, 'a) mls_call \<Rightarrow> ('r, 'g, 'a) group_call" where
  "mls err c g p = (case c g p of (r, g, p) \<Rightarrow> (ok_or err r, g, p))"

definition gc_return :: "(CryptoError, 'a) result \<Rightarrow> ('r, 'g, 'a) group_call" where
  "gc_return r g p = (r, g, p)"

definition gc_bind :: "('r, 'g, 'a) group_call \<Rightarrow> ('a \<Rightarrow> ('r, 'g, 'b) group_call) \<Rightarrow> ('r, 'g, 'b) group_call" where
  "gc_bind m f g p = (case m g p of (Inl err, g, p) \<Rightarrow> (Inl err, g, p) | (Inr x, g, p) \<Rightarrow> f x g p)"

definition on_group :: "bytes \<Rightarrow> ('r, 'g, 'a) group_call \<Rightarrow> ('r, 'k, 'g, 'a) engine_call" where
  "on_group gid f e =
     (case ce_groups e gid of
        None \<Rightarrow> (Inl ConversationNotFound, e)
      | Some g \<Rightarrow>
          (case f g (ce_provider e) of
             (r, g, p) \<Rightarrow> (r, e\<lparr>ce_provider := p, ce_groups := (ce_groups e)(gid \<mapsto> g)\<rparr>)))"

text \<open>\<open>tls_serialize_detached\<close>\<close>

definition serialized :: "('r, 'k, 'g, 'x) openmls \<Rightarrow> string \<Rightarrow> 'x \<Rightarrow> ('r, 'g, bytes) group_call" where
  "serialized L err x = gc_return (ok_or (OpenMls err) (mls_bytes L x))"

definition read_packages :: "('r, 'k, 'g, 'x) openmls \<Rightarrow> bytes list \<Rightarrow> (CryptoError, 'x list) result" where
  "read_packages L vs = collect_results (\<lambda>v. ok_or InvalidMessage (mls_read_package L v)) vs"

definition commit_add_members :: "('r, 'k, 'g, 'x) openmls \<Rightarrow> bytes \<Rightarrow> bytes list \<Rightarrow> ('r, 'k, 'g, GroupChange) engine_call" where
  "commit_add_members L gid key_packages e =
     (case read_packages L key_packages of
        Inl err \<Rightarrow> (Inl err, e)
      | Inr packages \<Rightarrow> on_group gid
          (gc_bind (mls (OpenMls ''add member commit'') (mls_add_members L (ce_signer e) packages)) (\<lambda>(commit, welcome).
           gc_bind (mls (OpenMls ''merge add commit'') (mls_merge_pending L)) (\<lambda>_.
           gc_bind (serialized L ''commit serialization'' commit) (\<lambda>c.
           gc_bind (serialized L ''welcome serialization'' welcome) (\<lambda>w.
           gc_return (Inr \<lparr>gh_commit = c, gh_welcome = Some w\<rparr>)))))) e)"

definition propose_add_members :: "('r, 'k, 'g, 'x) openmls \<Rightarrow> bytes \<Rightarrow> bytes \<Rightarrow> ('r, 'k, 'g, bytes) engine_call" where
  "propose_add_members L gid key_package e =
     (case mls_read_package L key_package of
        None \<Rightarrow> (Inl InvalidMessage, e)
      | Some package \<Rightarrow> on_group gid
          (gc_bind (mls (OpenMls ''add proposal'') (mls_propose_add L (ce_signer e) package)) (\<lambda>proposal.
           serialized L ''proposal serialization'' proposal)) e)"

definition member_index :: "('r, 'k, 'g, 'x) openmls \<Rightarrow> MemberCredential \<Rightarrow> ('r, 'g, nat) group_call" where
  "member_index L member g p =
     (ok_or InvalidCredential (map_option snd (find (\<lambda>c. fst c = credential_encode member) (mls_members L g))), g, p)"

definition commit_remove_members :: "('r, 'k, 'g, 'x) openmls \<Rightarrow> bytes \<Rightarrow> MemberCredential \<Rightarrow> ('r, 'k, 'g, GroupChange) engine_call" where
  "commit_remove_members L gid member e = on_group gid
     (gc_bind (member_index L member) (\<lambda>i.
      gc_bind (mls (OpenMls ''remove member commit'') (mls_remove_members L (ce_signer e) i)) (\<lambda>(commit, welcome).
      gc_bind (mls (OpenMls ''merge remove commit'') (mls_merge_pending L)) (\<lambda>_.
      gc_bind (serialized L ''commit serialization'' commit) (\<lambda>c.
      gc_bind (case welcome of
          None \<Rightarrow> gc_return (Inr None)
        | Some w \<Rightarrow> gc_bind (serialized L ''welcome serialization'' w) (\<lambda>v. gc_return (Inr (Some v)))) (\<lambda>w.
      gc_return (Inr \<lparr>gh_commit = c, gh_welcome = w\<rparr>)))))))  e"

definition propose_remove_members :: "('r, 'k, 'g, 'x) openmls \<Rightarrow> bytes \<Rightarrow> MemberCredential \<Rightarrow> ('r, 'k, 'g, bytes) engine_call" where
  "propose_remove_members L gid member e = on_group gid
     (gc_bind (member_index L member) (\<lambda>i.
      gc_bind (mls (OpenMls ''remove proposal'') (mls_propose_remove L (ce_signer e) i)) (\<lambda>proposal.
      serialized L ''proposal serialization'' proposal))) e"

definition encrypt_application_message :: "('r, 'k, 'g, 'x) openmls \<Rightarrow> bytes \<Rightarrow> bytes \<Rightarrow> ('r, 'k, 'g, bytes) engine_call" where
  "encrypt_application_message L gid plaintext e = on_group gid
     (gc_bind (mls (OpenMls ''application encryption'') (mls_create_message L (ce_signer e) plaintext)) (\<lambda>m.
      serialized L ''message serialization'' m)) e"

definition process_incoming_message :: "('r, 'k, 'g, 'x) openmls \<Rightarrow> bytes \<Rightarrow> bytes \<Rightarrow> ('r, 'k, 'g, IncomingMessage) engine_call" where
  "process_incoming_message L gid ciphertext e =
     (case mls_read_message L ciphertext of
        None \<Rightarrow> (Inl InvalidMessage, e)
      | Some protocol \<Rightarrow> on_group gid
          (gc_bind (mls InvalidMessage (mls_process L protocol)) (\<lambda>processed.
           case processed of
             ApplicationMessage v \<Rightarrow> gc_return (Inr (Application v))
           | StagedCommitMessage commit \<Rightarrow>
               gc_bind (mls (OpenMls ''merge incoming commit'') (mls_merge_staged L commit)) (\<lambda>_.
               gc_return (Inr CommitApplied))
           | ProposalMessage proposal \<Rightarrow>
               gc_bind (mls (OpenMls ''store proposal'') (mls_store_proposal L proposal)) (\<lambda>_.
               gc_return (Inr ProposalQueued))
           | OtherContent \<Rightarrow> gc_return (Inl InvalidMessage))) e)"

definition engine_self_update :: "('r, 'k, 'g, 'x) openmls \<Rightarrow> bytes \<Rightarrow> ('r, 'k, 'g, bytes) engine_call" where
  "engine_self_update L gid e = on_group gid
     (gc_bind (mls (OpenMls ''self update'') (mls_self_update L (ce_signer e))) (\<lambda>update.
      gc_bind (mls (OpenMls ''merge self update'') (mls_merge_pending L)) (\<lambda>_.
      serialized L ''self update serialization'' update))) e"

definition get_conversation_epoch ::
    "('r, 'k, 'g, 'x) openmls \<Rightarrow> bytes \<Rightarrow> ('r, 'k, 'g) CryptoEngine \<Rightarrow> (CryptoError, u64) result" where
  "get_conversation_epoch L gid e = and_then (ok_or ConversationNotFound (ce_groups e gid)) (\<lambda>g. Inr (mls_epoch L g))"

definition member_count ::
    "('r, 'k, 'g, 'x) openmls \<Rightarrow> bytes \<Rightarrow> ('r, 'k, 'g) CryptoEngine \<Rightarrow> (CryptoError, nat) result" where
  "member_count L gid e = and_then (ok_or ConversationNotFound (ce_groups e gid)) (\<lambda>g. Inr (length (mls_members L g)))"

definition verify_member_credential ::
    "hash \<Rightarrow> ed25519 \<Rightarrow> bytes \<Rightarrow> bytes \<Rightarrow> DeviceCertificate \<Rightarrow> (CryptoError, MemberCredential) result" where
  "verify_member_credential sha256 E v root_public_key certificate =
     and_then (credential_decode v) (\<lambda>member.
     if mc_account_id member \<noteq> account_id_from_root_public sha256 root_public_key \<or>
        mc_device_id member \<noteq> dc_device_id certificate \<or>
        mc_certificate_fingerprint member \<noteq> device_certificate_fingerprint sha256 certificate \<or>
        \<not> verify_device_certificate E root_public_key certificate
     then Inl InvalidCredential else Inr member)"

section \<open>Snapshots\<close>

definition STATE_AAD :: bytes where
  "STATE_AAD = ascii ''resilient/openmls-state/v1''"

definition put_u32 :: "bytes \<Rightarrow> nat \<Rightarrow> bytes" where
  "put_u32 out n = out @ be32 (word_of_nat n)"

definition put_bytes :: "bytes \<Rightarrow> bytes \<Rightarrow> bytes" where
  "put_bytes out v = put_u32 out (length v) @ v"

definition take_u32 :: "bytes \<Rightarrow> (CryptoError, u32 \<times> bytes) result" where
  "take_u32 input = (if length input < 4 then Inl StateAuthentication else Inr (from_be32 (take 4 input), drop 4 input))"

definition take_bytes :: "bytes \<Rightarrow> (CryptoError, bytes \<times> bytes) result" where
  "take_bytes input =
     and_then (take_u32 input) (\<lambda>(len, input).
     if length input < unat len then Inl StateAuthentication
     else Inr (take (unat len) input, drop (unat len) input))"

definition encrypt_state :: "aead \<Rightarrow> bytes \<Rightarrow> bytes \<Rightarrow> bytes \<Rightarrow> (CryptoError, bytes) result" where
  "encrypt_state A nonce key plain =
     and_then (ok_or StateAuthentication (seal A key nonce STATE_AAD plain)) (\<lambda>c. Inr (nonce @ c))"

definition decrypt_state :: "aead \<Rightarrow> bytes \<Rightarrow> bytes \<Rightarrow> (CryptoError, bytes) result" where
  "decrypt_state A key blob =
     (if length blob < 40 then Inl StateAuthentication
      else ok_or StateAuthentication (unseal A key (take 24 blob) STATE_AAD (drop 24 blob)))"

definition snapshot_bytes :: "bytes \<Rightarrow> bytes \<Rightarrow> bytes \<Rightarrow> (bytes \<times> bytes) list \<Rightarrow> bytes" where
  "snapshot_bytes signer identity gid entries =
     foldl (\<lambda>out (key, v). put_bytes (put_bytes out key) v)
       (put_u32 (put_bytes (put_bytes (put_bytes [] signer) identity) gid) (length entries)) entries"

definition export_conversation_state ::
    "('r, 'k, 'g, 'x) openmls \<Rightarrow> aead \<Rightarrow> bytes \<Rightarrow> bytes \<Rightarrow> ('r, 'k, 'g) CryptoEngine \<Rightarrow> (CryptoError, bytes) result" where
  "export_conversation_state L A nonce gid e =
     (if ce_groups e gid = None then Inl ConversationNotFound
      else
        and_then (ok_or (OpenMls ''signer serialization'') (mls_signer_bytes L (ce_signer e))) (\<lambda>signer.
        encrypt_state A nonce (ce_state_key e)
          (snapshot_bytes signer (fst (ce_credential e)) gid (sort_key fst (pv_values (ce_provider e))))))"

text \<open>\<open>HashMap::insert\<close>, and the loop that fills the map.\<close>

definition insert_value :: "bytes \<Rightarrow> bytes \<Rightarrow> (bytes \<times> bytes) list \<Rightarrow> (bytes \<times> bytes) list" where
  "insert_value key v values = filter (\<lambda>p. fst p \<noteq> key) values @ [(key, v)]"

fun take_entries :: "nat \<Rightarrow> bytes \<Rightarrow> (bytes \<times> bytes) list \<Rightarrow> (CryptoError, (bytes \<times> bytes) list \<times> bytes) result" where
  "take_entries 0 input values = Inr (values, input)"
| "take_entries (Suc n) input values =
     and_then (take_bytes input) (\<lambda>(key, input).
     and_then (take_bytes input) (\<lambda>(v, input).
     take_entries n input (insert_value key v values)))"

text \<open>What a snapshot holds, up to the point where the engine begins to change.\<close>

definition read_snapshot :: "('r, 'k, 'g, 'x) openmls \<Rightarrow> bytes \<Rightarrow>
    (CryptoError, 'k \<times> bytes \<times> bytes \<times> (bytes \<times> bytes) list) result" where
  "read_snapshot L plain =
     and_then (take_bytes plain) (\<lambda>(signer_bytes, input).
     and_then (take_bytes input) (\<lambda>(identity, input).
     and_then (take_bytes input) (\<lambda>(gid, input).
     and_then (take_u32 input) (\<lambda>(n, input).
     and_then (ok_or StateAuthentication (mls_signer_parse L signer_bytes)) (\<lambda>signer.
     and_then (take_entries (unat n) input []) (\<lambda>(values, input).
     if input \<noteq> [] then Inl StateAuthentication else Inr (signer, identity, gid, values)))))))"

definition import_conversation_state :: "('r, 'k, 'g, 'x) openmls \<Rightarrow> aead \<Rightarrow> bytes \<Rightarrow> ('r, 'k, 'g, bytes) engine_call" where
  "import_conversation_state L A encrypted e =
     (case and_then (decrypt_state A (ce_state_key e) encrypted) (read_snapshot L) of
        Inl err \<Rightarrow> (Inl err, e)
      | Inr (signer, identity, gid, values) \<Rightarrow>
          let e = e\<lparr>ce_provider := (ce_provider e)\<lparr>pv_values := values\<rparr>, ce_signer := signer,
                    ce_credential := (identity, mls_signer_public L signer)\<rparr>
          in (case mls_load L gid (map_of values) of
                Some (Some g) \<Rightarrow> (Inr gid, e\<lparr>ce_groups := (ce_groups e)(gid \<mapsto> g)\<rparr>)
              | _ \<Rightarrow> (Inl StateAuthentication, e)))"

definition destroy_local_conversation_state :: "('r, 'k, 'g, 'x) openmls \<Rightarrow> bytes \<Rightarrow> ('r, 'k, 'g, unit) engine_call" where
  "destroy_local_conversation_state L gid e =
     (case ce_groups e gid of
        None \<Rightarrow> (Inl ConversationNotFound, e)
      | Some g \<Rightarrow>
          (case mls_delete L g (ce_provider e) of
             (ok, p) \<Rightarrow> (if ok then Inr () else Inl (OpenMls ''group deletion''),
                e\<lparr>ce_provider := p, ce_groups := (ce_groups e)(gid := None)\<rparr>)))"

end
