(* ===== verification/Crypto_Correct.thy ===== *)
theory Crypto_Correct
  imports Crypto_Engine
begin

text \<open>
  What the encryption boundary promises, whatever the MLS library does: which credentials are
  accepted, that a snapshot restores what it was taken of, and that an operation on one
  conversation leaves the others alone.
\<close>

section \<open>Credentials\<close>

definition credential_wf :: "MemberCredential \<Rightarrow> bool" where
  "credential_wf m \<longleftrightarrow> length (mc_device_id m) = 16 \<and> length (mc_account_id m) = 32 \<and>
     length (mc_certificate_fingerprint m) = 16"

lemma credential_decode_iff: "credential_decode v = Inr m \<longleftrightarrow> credential_wf m \<and> credential_encode m = v"
proof
  assume d: "credential_decode v = Inr m"
  then have len: "length v = 65" "v ! 0 = 1"
    by (auto simp: credential_decode_def split: if_splits)
  then have "v = [1] @ take 16 (drop 1 v) @ take 32 (drop 17 v) @ take 16 (drop 49 v)"
    using append_take_drop_id [of 1 v] append_take_drop_id [of 16 "drop 1 v"] append_take_drop_id [of 32 "drop 17 v"]
    by (simp add: take_Suc_conv_app_nth)
  with d len show "credential_wf m \<and> credential_encode m = v"
    by (auto simp: credential_decode_def credential_wf_def credential_encode_def)
next
  assume "credential_wf m \<and> credential_encode m = v"
  then show "credential_decode v = Inr m"
    by (auto simp: credential_decode_def credential_wf_def credential_encode_def)
qed

interpretation credential: wire_codec "\<lambda>m. Inr (credential_encode m)" credential_decode credential_wf
  by unfold_locales (auto simp: credential_decode_iff)

section \<open>The layout of a snapshot\<close>

definition state_field :: "bytes \<Rightarrow> bytes" where
  "state_field v = be32 (word_of_nat (length v)) @ v"

definition state_entry :: "bytes \<times> bytes \<Rightarrow> bytes" where
  "state_entry = (\<lambda>(key, v). state_field key @ state_field v)"

lemma put_bytes_eq: "put_bytes out v = out @ state_field v"
  by (simp add: put_bytes_def put_u32_def state_field_def)

lemma snapshot_bytes_eq:
  "snapshot_bytes signer identity gid entries = state_field signer @ state_field identity @ state_field gid @
     be32 (word_of_nat (length entries)) @ concat (map state_entry entries)"
proof -
  have "foldl (\<lambda>out (key, v). put_bytes (put_bytes out key) v) out es = out @ concat (map state_entry es)" for out es
    by (induction es arbitrary: out) (auto simp: put_bytes_eq state_entry_def)
  then show ?thesis
    by (simp add: snapshot_bytes_def put_bytes_eq put_u32_def)
qed

text \<open>A field that fits the length prefix.\<close>

definition fits :: "bytes \<Rightarrow> bool" where
  "fits v \<longleftrightarrow> length v < 2 ^ 32"

lemma take_u32_be32: "take_u32 (be32 w @ rest) = Inr (w, rest)"
  by (simp add: take_u32_def)

lemma unat_length32: "n < 2 ^ 32 \<Longrightarrow> unat (word_of_nat n :: u32) = n"
  by (simp add: unat_of_nat)

lemma take_bytes_field: "fits v \<Longrightarrow> take_bytes (state_field v @ rest) = Inr (v, rest)"
  by (simp add: take_bytes_def state_field_def take_u32_be32 fits_def unat_length32)

lemma take_entries_layout:
  assumes "\<forall>(key, v) \<in> set es. fits key \<and> fits v"
  shows "take_entries (length es) (concat (map state_entry es) @ rest) vals =
    Inr (foldl (\<lambda>vals (key, v). insert_value key v vals) vals es, rest)"
  using assms by (induction es arbitrary: vals) (auto simp: state_entry_def take_bytes_field)

lemma insert_values_distinct:
  "distinct (map fst (vals @ es)) \<Longrightarrow> foldl (\<lambda>vals (key, v). insert_value key v vals) vals es = vals @ es"
proof (induction es arbitrary: vals)
  case (Cons p es)
  then have "fst p \<notin> fst ` set vals"
    by auto
  then have "filter (\<lambda>q. fst q \<noteq> fst p) vals = vals"
    by (intro filter_True ballI) (metis imageI)
  with Cons show ?case
    by (cases p) (auto simp: insert_value_def)
qed simp

lemma map_of_sorted: "distinct (map fst xs) \<Longrightarrow> map_of (sort_key fst xs) = map_of xs"
proof (rule ext)
  fix key
  assume d: "distinct (map fst xs)"
  then have "distinct (map fst (sort_key fst xs))"
    by (simp add: distinct_map)
  with d have "map_of (sort_key fst xs) key = Some v \<longleftrightarrow> map_of xs key = Some v" for v
    by simp
  then show "map_of (sort_key fst xs) key = map_of xs key"
    by (metis option.exhaust)
qed

text \<open>The sizes that the 32-bit prefixes of a snapshot can hold; keys of a \<open>HashMap\<close> are distinct.\<close>

definition snapshot_ok :: "bytes \<Rightarrow> bytes \<Rightarrow> bytes \<Rightarrow> (bytes \<times> bytes) list \<Rightarrow> bool" where
  "snapshot_ok signer identity gid entries \<longleftrightarrow> fits signer \<and> fits identity \<and> fits gid \<and>
     length entries < 2 ^ 32 \<and> (\<forall>(key, v) \<in> set entries. fits key \<and> fits v) \<and> distinct (map fst entries)"

lemma read_snapshot_layout:
  assumes "snapshot_ok signer identity gid entries" "mls_signer_parse L signer = Some k"
  shows "read_snapshot L (snapshot_bytes signer identity gid (sort_key fst entries)) =
    Inr (k, identity, gid, sort_key fst entries)"
proof -
  let ?es = "sort_key fst entries"
  have "\<forall>(key, v) \<in> set ?es. fits key \<and> fits v" "distinct (map fst ([] @ ?es))"
    using assms(1) by (auto simp: snapshot_ok_def distinct_map)
  then have entries: "take_entries (length entries) (concat (map state_entry ?es)) [] = Inr (?es, [])"
    using take_entries_layout [of ?es "[]" "[]"] insert_values_distinct [of "[]" ?es] by simp
  have "unat (word_of_nat (length entries) :: u32) = length entries"
    using assms(1) by (simp add: snapshot_ok_def unat_length32)
  with entries assms show ?thesis
    by (simp add: read_snapshot_def snapshot_bytes_eq take_bytes_field take_u32_be32 snapshot_ok_def)
qed

lemma decrypt_encrypt_state:
  assumes "aead_correct A" "length key = 32" "length nonce = 24" "encrypt_state A nonce key plain = Inr blob"
  shows "decrypt_state A key blob = Inr plain"
proof -
  obtain c where c: "seal A key nonce STATE_AAD plain = Some c" "blob = nonce @ c"
    using assms(4) by (auto simp: encrypt_state_def result_simps)
  with assms(1-3) have "unseal A key nonce STATE_AAD c = Some plain" "length c = length plain + 16"
    unfolding aead_correct_def by blast+
  with c(2) assms(3) show ?thesis
    by (simp add: decrypt_state_def)
qed

section \<open>Operations\<close>

datatype engine_op =
    GenerateKeyPackages nat
  | CreateConversation bytes
  | JoinFromWelcome bytes
  | CommitAddMembers bytes "bytes list"
  | ProposeAddMembers bytes bytes
  | CommitRemoveMembers bytes MemberCredential
  | ProposeRemoveMembers bytes MemberCredential
  | EncryptApplicationMessage bytes bytes
  | ProcessIncomingMessage bytes bytes
  | SelfUpdate bytes
  | ImportState bytes
  | DestroyState bytes

definition engine_done :: "(CryptoError, 'a) result \<times> 'e \<Rightarrow> (CryptoError, unit) result \<times> 'e" where
  "engine_done = (\<lambda>(r, e). (and_then r (\<lambda>_. Inr ()), e))"

fun engine_run :: "('r, 'k, 'g, 'x) openmls \<Rightarrow> aead \<Rightarrow> engine_op \<Rightarrow> ('r, 'k, 'g, unit) engine_call" where
  "engine_run L A (GenerateKeyPackages n) e = engine_done (generate_key_packages L n e)"
| "engine_run L A (CreateConversation gid) e = create_conversation L gid e"
| "engine_run L A (JoinFromWelcome v) e = engine_done (join_conversation_from_welcome L v e)"
| "engine_run L A (CommitAddMembers gid vs) e = engine_done (commit_add_members L gid vs e)"
| "engine_run L A (ProposeAddMembers gid v) e = engine_done (propose_add_members L gid v e)"
| "engine_run L A (CommitRemoveMembers gid m) e = engine_done (commit_remove_members L gid m e)"
| "engine_run L A (ProposeRemoveMembers gid m) e = engine_done (propose_remove_members L gid m e)"
| "engine_run L A (EncryptApplicationMessage gid v) e = engine_done (encrypt_application_message L gid v e)"
| "engine_run L A (ProcessIncomingMessage gid v) e = engine_done (process_incoming_message L gid v e)"
| "engine_run L A (SelfUpdate gid) e = engine_done (engine_self_update L gid e)"
| "engine_run L A (ImportState v) e = engine_done (import_conversation_state L A v e)"
| "engine_run L A (DestroyState gid) e = destroy_local_conversation_state L gid e"

text \<open>The conversation an operation names.\<close>

fun addressed :: "engine_op \<Rightarrow> bytes option" where
  "addressed (CreateConversation gid) = Some gid"
| "addressed (CommitAddMembers gid vs) = Some gid"
| "addressed (ProposeAddMembers gid v) = Some gid"
| "addressed (CommitRemoveMembers gid m) = Some gid"
| "addressed (ProposeRemoveMembers gid m) = Some gid"
| "addressed (EncryptApplicationMessage gid v) = Some gid"
| "addressed (ProcessIncomingMessage gid v) = Some gid"
| "addressed (SelfUpdate gid) = Some gid"
| "addressed (DestroyState gid) = Some gid"
| "addressed _ = None"

text \<open>\<open>isolated gid e e'\<close>: signer, credential, state key and the other conversations are as before.\<close>

definition isolated :: "bytes \<Rightarrow> ('r, 'k, 'g) CryptoEngine \<Rightarrow> ('r, 'k, 'g) CryptoEngine \<Rightarrow> bool" where
  "isolated gid e e' \<longleftrightarrow> ce_signer e' = ce_signer e \<and> ce_credential e' = ce_credential e \<and>
     ce_state_key e' = ce_state_key e \<and> (\<forall>g. g \<noteq> gid \<longrightarrow> ce_groups e' g = ce_groups e g)"

lemma isolated_refl [simp]: "isolated gid e e"
  by (simp add: isolated_def)

lemma engine_done_snd [simp]: "snd (engine_done x) = snd x"
  by (simp add: engine_done_def split: prod.split)

lemma on_group_isolated [simp]: "isolated gid e (snd (on_group gid f e))"
  by (auto simp: on_group_def isolated_def split: option.split prod.split)

lemma isolated_update [simp]:
  "isolated gid e (e\<lparr>ce_provider := p\<rparr>)" "isolated gid e (e\<lparr>ce_provider := p, ce_groups := (ce_groups e)(gid := x)\<rparr>)"
  by (simp_all add: isolated_def)

lemma addressed_isolated: "addressed op = Some gid \<Longrightarrow> isolated gid e (snd (engine_run L A op e))"
  by (cases op) (auto simp: create_conversation_def commit_add_members_def propose_add_members_def
      commit_remove_members_def propose_remove_members_def encrypt_application_message_def
      process_incoming_message_def engine_self_update_def destroy_local_conversation_state_def
      split: prod.split option.split sum.split)

lemma on_group_missing [simp]: "ce_groups e gid = None \<Longrightarrow> on_group gid f e = (Inl ConversationNotFound, e)"
  by (simp add: on_group_def)

lemma engine_done_pair [simp]: "engine_done (Inl err, e) = (Inl err, e)"
  by (simp add: engine_done_def)

text \<open>Operations that need the conversation they name: all but its creation.\<close>

lemma missing_conversation:
  assumes "addressed op = Some gid" "\<nexists>g. op = CreateConversation g" "ce_groups e gid = None"
  shows "engine_run L A op e \<in> {(Inl ConversationNotFound, e), (Inl InvalidMessage, e)}"
proof -
  have "read_packages L vs = Inl err \<Longrightarrow> err = InvalidMessage" for vs err
    unfolding read_packages_def by (induction vs) (auto simp: result_simps)
  with assms show ?thesis
    by (cases op) (auto simp: commit_add_members_def propose_add_members_def
      commit_remove_members_def propose_remove_members_def encrypt_application_message_def
      process_incoming_message_def engine_self_update_def destroy_local_conversation_state_def
      split: option.split sum.split)
qed

lemma unaddressed_groups:
  assumes "addressed op = None"
  shows "\<exists>gid. \<forall>g. g \<noteq> gid \<longrightarrow> ce_groups (snd (engine_run L A op e)) g = ce_groups e g"
    and "ce_state_key (snd (engine_run L A op e)) = ce_state_key e"
  using assms
  by (cases op; auto simp: generate_key_packages_def join_conversation_from_welcome_def import_conversation_state_def
      Let_def split: prod.split option.split sum.split; blast)+

section \<open>Properties\<close>

text \<open>
  Which credentials a device accepts. A credential verifies exactly when it is the encoding of a
  member whose account identifier is that of the root key, whose device and fingerprint are those
  of the certificate, and the root key signed the certificate; it is then that member.
\<close>

theorem credential_verified:
  "verify_member_credential sha256 E v root cert = Inr m \<longleftrightarrow>
     credential_wf m \<and> v = credential_encode m \<and> mc_account_id m = account_id_from_root_public sha256 root \<and>
     mc_device_id m = dc_device_id cert \<and> mc_certificate_fingerprint m = device_certificate_fingerprint sha256 cert \<and>
     ed_check E root (device_certificate_signing_payload cert) (dc_signature cert)"
  by (auto simp: verify_member_credential_def result_simps credential_decode_iff verify_device_certificate_eq
      split: if_splits)

text \<open>
  C25: snapshots. What an engine exports, any engine with the same state key imports: it takes
  over the signature key, the identity and the whole storage, and holds the conversation when the
  library loads it from that storage. When the library does not, the import fails, but signature
  key, identity and storage of the importing engine have been replaced all the same.
\<close>

theorem snapshot_round_trip:
  assumes "aead_correct A" "length nonce = 24" "length (ce_state_key e) = 32" "ce_state_key e' = ce_state_key e"
    and "export_conversation_state L A nonce gid e = Inr blob"
    and "mls_signer_bytes L (ce_signer e) = Some signer" "mls_signer_parse L signer = Some (ce_signer e)"
    and "snapshot_ok signer (fst (ce_credential e)) gid (pv_values (ce_provider e))"
  shows "case import_conversation_state L A blob e' of (r, e'') \<Rightarrow>
    ce_signer e'' = ce_signer e \<and> fst (ce_credential e'') = fst (ce_credential e) \<and>
    map_of (pv_values (ce_provider e'')) = map_of (pv_values (ce_provider e)) \<and>
    (case mls_load L gid (map_of (pv_values (ce_provider e))) of
       Some (Some g) \<Rightarrow> r = Inr gid \<and> ce_groups e'' = (ce_groups e')(gid \<mapsto> g)
     | _ \<Rightarrow> r = Inl StateAuthentication \<and> ce_groups e'' = ce_groups e')"
proof -
  let ?vals = "pv_values (ce_provider e)"
  have "encrypt_state A nonce (ce_state_key e) (snapshot_bytes signer (fst (ce_credential e)) gid (sort_key fst ?vals)) = Inr blob"
    using assms(5,6) by (simp add: export_conversation_state_def split: if_splits)
  then have "decrypt_state A (ce_state_key e') blob = Inr (snapshot_bytes signer (fst (ce_credential e)) gid (sort_key fst ?vals))"
    using decrypt_encrypt_state assms(1-4) by simp
  then show ?thesis
    using read_snapshot_layout [OF assms(8,7)] map_of_sorted assms(8)
    by (auto simp: import_conversation_state_def Let_def snapshot_ok_def split: option.split)
qed

text \<open>
  Conversations are apart. An operation on one conversation leaves every other conversation,
  the signature key, the credential and the state key as they are, whatever the library does;
  a join or an import changes one conversation at most; and an operation on a conversation the
  engine does not hold changes nothing and fails.
\<close>

theorem conversations_isolated:
  "case (addressed op, engine_run L A op e) of
     (Some gid, (r, e')) \<Rightarrow> isolated gid e e' \<and>
       (ce_groups e gid = None \<and> op \<noteq> CreateConversation gid \<longrightarrow> e' = e \<and> r \<in> {Inl ConversationNotFound, Inl InvalidMessage})
   | (None, (r, e')) \<Rightarrow> ce_state_key e' = ce_state_key e \<and> (\<exists>gid. \<forall>g. g \<noteq> gid \<longrightarrow> ce_groups e' g = ce_groups e g)"
proof (cases "addressed op")
  case None
  then show ?thesis
    using unaddressed_groups [OF None, of L A e] by (cases "engine_run L A op e") simp
next
  case (Some gid)
  have "engine_run L A op e \<in> {(Inl ConversationNotFound, e), (Inl InvalidMessage, e)}"
    if "ce_groups e gid = None" "op \<noteq> CreateConversation gid"
    using that missing_conversation [OF Some] Some by fastforce
  then show ?thesis
    using addressed_isolated [OF Some, of e L A] Some by (auto split: prod.split)
qed

section \<open>Examples\<close>

text \<open>
  A library without cryptography: a group is its identifier and is stored under it, a message is
  its plaintext.
\<close>

definition plain_mls :: "(unit, bytes, bytes, bytes) openmls" where
  "plain_mls = \<lparr>mls_signer_new = (\<lambda>p. (Some [1], p)), mls_signer_store = (\<lambda>k p. (True, p)), mls_signer_public = (\<lambda>k. k),
     mls_signer_bytes = Some, mls_signer_parse = Some, mls_bytes = Some,
     mls_build_package = (\<lambda>k c p. (Some (fst c), p)), mls_read_package = Some,
     mls_new_group = (\<lambda>k c gid p. (Some gid, p\<lparr>pv_values := insert_value gid [] (pv_values p)\<rparr>)),
     mls_read_welcome = Some, mls_join = (\<lambda>w p. (Some w, p)), mls_group_id = (\<lambda>g. g), mls_epoch = (\<lambda>g. 0),
     mls_members = (\<lambda>g. []), mls_add_members = (\<lambda>k ps g p. (Some ([], g), g, p)),
     mls_remove_members = (\<lambda>k i g p. (Some ([], None), g, p)), mls_propose_add = (\<lambda>k x g p. (Some x, g, p)),
     mls_propose_remove = (\<lambda>k i g p. (Some [], g, p)), mls_merge_pending = (\<lambda>g p. (Some (), g, p)),
     mls_create_message = (\<lambda>k m g p. (Some m, g, p)), mls_read_message = Some,
     mls_process = (\<lambda>x g p. (Some (ApplicationMessage x), g, p)), mls_merge_staged = (\<lambda>x g p. (Some (), g, p)),
     mls_store_proposal = (\<lambda>x g p. (Some (), g, p)), mls_self_update = (\<lambda>k g p. (Some [], g, p)),
     mls_load = (\<lambda>gid vals. Some (map_option (\<lambda>_. gid) (vals gid))), mls_delete = (\<lambda>g p. (True, p))\<rparr>"

definition plain_engine :: "byte \<Rightarrow> (unit, bytes, bytes) CryptoEngine" where
  "plain_engine n = \<lparr>ce_provider = \<lparr>pv_values = [([n], [])], pv_rest = ()\<rparr>, ce_signer = [n],
     ce_credential = ([n, n], [n]), ce_groups = (\<lambda>g. if g = [n] then Some [n] else None), ce_state_key = replicate 32 7\<rparr>"

theorem snapshot_round_trip_witness:
  "\<exists>blob. export_conversation_state plain_mls tag_aead (replicate 24 0) [1] (plain_engine 1) = Inr blob \<and>
     (case import_conversation_state plain_mls tag_aead blob (plain_engine 2) of (r, e) \<Rightarrow>
        r = Inr [1] \<and> ce_signer e = [1] \<and> map_of (pv_values (ce_provider e)) = map_of [([1], [])] \<and>
        ce_groups e = (ce_groups (plain_engine 2))([1] \<mapsto> [1]))"
proof -
  have "is_ok (export_conversation_state plain_mls tag_aead (replicate 24 0) [1] (plain_engine 1))"
    by code_simp
  then obtain blob where blob: "export_conversation_state plain_mls tag_aead (replicate 24 0) [1] (plain_engine 1) = Inr blob"
    by (auto simp: is_ok_iff)
  have "snapshot_ok [1] (fst (ce_credential (plain_engine 1))) [1] (pv_values (ce_provider (plain_engine 1)))"
    by (simp add: snapshot_ok_def fits_def plain_engine_def)
  from snapshot_round_trip [OF tag_aead_correct _ _ _ blob _ _ this, of "plain_engine 2"] blob show ?thesis
    by (auto simp: plain_mls_def plain_engine_def)
qed

theorem conversations_isolated_witness:
  "case engine_run plain_mls tag_aead (EncryptApplicationMessage [9] [5]) (plain_engine 1) of (r, e) \<Rightarrow>
     e = plain_engine 1 \<and> r \<in> {Inl ConversationNotFound, Inl InvalidMessage}"
proof -
  have "ce_groups (plain_engine 1) [9] = None"
    by (simp add: plain_engine_def)
  then show ?thesis
    using conversations_isolated [where op = "EncryptApplicationMessage [9] [5]" and L = plain_mls and A = tag_aead
      and e = "plain_engine 1"]
    by (auto split: prod.splits)
qed

end
