(* ===== verification/Ffi.thy ===== *)
theory Ffi
  imports Local_Store_Correct Crypto_Correct Protocol
begin

text \<open>
  The interface for Swift and Kotlin, \<open>crates/messenger-uniffi/src/lib.rs\<close>: byte vectors of any length
  come in, arrays of fixed length go to the local store and to the MLS engine, and errors lose
  their detail. Random identifiers, nonces, times and the failures of statements are arguments,
  as in the theories of the two components.
\<close>

section \<open>Data\<close>

datatype FfiError = InvalidInput | Crypto | Storage

record FfiMemberCredential =
  fm_device_id :: bytes
  fm_account_id :: bytes
  fm_certificate_fingerprint :: bytes

record FfiDeviceCertificate =
  fd_device_id :: bytes
  fd_device_public_key :: bytes
  fd_issued_at :: u64
  fd_signature :: bytes

datatype FfiNetworkMode = FfiNormal | FfiLimited | FfiSurvival

record FfiLocalMessage =
  fl_client_message_id :: bytes
  fl_conversation_id :: bytes
  fl_plaintext :: bytes
  fl_status :: string
  fl_created_at_ms :: int

record FfiPendingUpload =
  fp_client_message_id :: bytes
  fp_conversation_id :: bytes
  fp_encrypted_payload :: bytes
  fp_attempts :: u32

record FfiNetworkDiagnostics =
  fn_mode :: FfiNetworkMode
  fn_pending_uploads :: u64
  fn_last_cursor :: u64

record FfiConversation =
  fc_conversation_id :: bytes
  fc_updated_at_ms :: int

record FfiIncomingEvent =
  fe_event_id :: bytes
  fe_conversation_id :: bytes
  fe_encrypted_event :: bytes

text \<open>\<open>value.try_into()\<close> to an array of \<open>n\<close> bytes.\<close>

definition try_into :: "nat \<Rightarrow> bytes \<Rightarrow> (FfiError, bytes) result" where
  "try_into n v = (if length v = n then Inr v else Inl InvalidInput)"

definition protocol_round_trip :: "bytes \<Rightarrow> (FfiError, bytes) result" where
  "protocol_round_trip frame =
     and_then (map_err (\<lambda>_. InvalidInput) (transport_decode frame)) (\<lambda>decoded.
     map_err (\<lambda>_. InvalidInput) (transport_encode decoded))"

definition member_try_from :: "FfiMemberCredential \<Rightarrow> (FfiError, MemberCredential) result" where
  "member_try_from v =
     and_then (try_into 16 (fm_device_id v)) (\<lambda>d.
     and_then (try_into 32 (fm_account_id v)) (\<lambda>a.
     and_then (try_into 16 (fm_certificate_fingerprint v)) (\<lambda>f.
     Inr \<lparr>mc_device_id = d, mc_account_id = a, mc_certificate_fingerprint = f\<rparr>)))"

section \<open>LocalMessenger\<close>

text \<open>
  A call on the core. \<open>storage\<close> runs an operation of the store and maps its error; \<open>checked\<close> is the \<open>?\<close>
  on the conversion of an argument, before the core is touched.
\<close>

type_synonym 'a ffi_call = "core \<Rightarrow> (FfiError, 'a) result \<times> core"

definition storage :: "'a core_db \<Rightarrow> 'a ffi_call" where
  "storage m core = (case m (db core) of (r, c) \<Rightarrow> (map_err (\<lambda>_. Storage) r, core\<lparr>db := c\<rparr>))"

definition checked :: "(FfiError, 'a) result \<Rightarrow> ('a \<Rightarrow> 's \<Rightarrow> (FfiError, 'b) result \<times> 's) \<Rightarrow> 's \<Rightarrow> (FfiError, 'b) result \<times> 's" where
  "checked r f s = (case r of Inl err \<Rightarrow> (Inl err, s) | Inr x \<Rightarrow> f x s)"

definition map_ok :: "('a \<Rightarrow> 'b) \<Rightarrow> (FfiError, 'a) result \<times> 's \<Rightarrow> (FfiError, 'b) result \<times> 's" where
  "map_ok f = (\<lambda>(r, s). (case r of Inl err \<Rightarrow> Inl err | Inr x \<Rightarrow> Inr (f x), s))"

definition ffi_open :: "store \<Rightarrow> bool list \<Rightarrow> bytes \<Rightarrow> (FfiError, core) result" where
  "ffi_open file fs key = map_err (\<lambda>_. Storage) (open_core file fs key)"

definition ffi_create_message :: "aead \<Rightarrow> bytes \<Rightarrow> bytes \<Rightarrow> int \<Rightarrow> bytes \<Rightarrow> bytes \<Rightarrow> bytes ffi_call" where
  "ffi_create_message A i nonce now conversation_id plaintext =
     checked (try_into 16 conversation_id) (\<lambda>conversation core.
     storage (create_message A (master_key core) i nonce now conversation plaintext) core)"

text \<open>\<open>format!("{:?}", status)\<close>\<close>

fun status_name :: "message_status \<Rightarrow> string" where
  "status_name Draft = ''Draft''"
| "status_name Queued = ''Queued''"
| "status_name Encrypting = ''Encrypting''"
| "status_name ReadyToUpload = ''ReadyToUpload''"
| "status_name Uploading = ''Uploading''"
| "status_name ServerAccepted = ''ServerAccepted''"
| "status_name Delivered = ''Delivered''"
| "status_name Read = ''Read''"
| "status_name RetryScheduled = ''RetryScheduled''"
| "status_name FailedPermanent = ''FailedPermanent''"
| "status_name Cancelled = ''Cancelled''"

definition ffi_message :: "local_message \<Rightarrow> FfiLocalMessage" where
  "ffi_message m = \<lparr>fl_client_message_id = lm_client_message_id m, fl_conversation_id = lm_conversation_id m,
     fl_plaintext = lm_plaintext m, fl_status = status_name (lm_status m), fl_created_at_ms = lm_created_at_ms m\<rparr>"

definition ffi_list_messages :: "aead \<Rightarrow> bytes \<Rightarrow> FfiLocalMessage list ffi_call" where
  "ffi_list_messages A conversation_id =
     checked (try_into 16 conversation_id) (\<lambda>conversation core.
     map_ok (map ffi_message) (storage (list_messages A (master_key core) conversation) core))"

definition ffi_list_conversations :: "FfiConversation list ffi_call" where
  "ffi_list_conversations core = map_ok
     (map (\<lambda>v. \<lparr>fc_conversation_id = cs_conversation_id v, fc_updated_at_ms = cs_updated_at_ms v\<rparr>))
     (storage list_conversations core)"

definition ffi_observe_conversation_changes :: "u64 \<Rightarrow> u64 ffi_call" where
  "ffi_observe_conversation_changes after_revision = storage (observe_conversation_changes after_revision)"

definition ffi_create_group :: "int \<Rightarrow> bytes \<Rightarrow> unit ffi_call" where
  "ffi_create_group now group_id = checked (try_into 16 group_id) (\<lambda>g. storage (create_group now g))"

definition ffi_add_member :: "bytes \<Rightarrow> bytes \<Rightarrow> bytes \<Rightarrow> unit ffi_call" where
  "ffi_add_member group_id device_id account =
     checked (try_into 16 group_id) (\<lambda>g.
     checked (try_into 16 device_id) (\<lambda>d.
     checked (try_into 32 account) (\<lambda>a.
     storage (add_member g d a))))"

definition ffi_remove_member :: "int \<Rightarrow> bytes \<Rightarrow> bytes \<Rightarrow> unit ffi_call" where
  "ffi_remove_member now group_id device_id =
     checked (try_into 16 group_id) (\<lambda>g.
     checked (try_into 16 device_id) (\<lambda>d.
     storage (remove_member now g d)))"

definition ffi_get_pending_uploads :: "int \<Rightarrow> FfiPendingUpload list ffi_call" where
  "ffi_get_pending_uploads now core = map_ok
     (map (\<lambda>v. \<lparr>fp_client_message_id = pu_client_message_id v, fp_conversation_id = pu_conversation_id v,
        fp_encrypted_payload = pu_encrypted_payload v, fp_attempts = pu_attempts v\<rparr>))
     (storage (get_pending_uploads now 50) core)"

definition ffi_mark_upload_accepted :: "bytes \<Rightarrow> unit ffi_call" where
  "ffi_mark_upload_accepted message_id = checked (try_into 16 message_id) (\<lambda>i. storage (mark_upload_accepted i))"

definition ffi_retry_message :: "int \<Rightarrow> bytes \<Rightarrow> unit ffi_call" where
  "ffi_retry_message now message_id = checked (try_into 16 message_id) (\<lambda>i. storage (retry_message now i))"

definition ffi_cancel_pending_message :: "bytes \<Rightarrow> unit ffi_call" where
  "ffi_cancel_pending_message message_id = checked (try_into 16 message_id) (\<lambda>i. storage (cancel_pending_message i))"

definition ffi_ingest_server_event :: "int \<Rightarrow> bytes \<Rightarrow> bytes \<Rightarrow> bytes \<Rightarrow> bool ffi_call" where
  "ffi_ingest_server_event now event_id conversation_id ciphertext =
     checked (try_into 16 event_id) (\<lambda>e.
     checked (try_into 16 conversation_id) (\<lambda>c.
     storage (ingest_server_event now e c ciphertext)))"

definition event_try_from :: "FfiIncomingEvent \<Rightarrow> (FfiError, incoming_event) result" where
  "event_try_from v =
     and_then (try_into 16 (fe_event_id v)) (\<lambda>e.
     and_then (try_into 16 (fe_conversation_id v)) (\<lambda>c.
     Inr \<lparr>in_event_id = e, in_conversation_id = c, in_encrypted_event = fe_encrypted_event v\<rparr>))"

definition ffi_ingest_server_batch :: "(nat \<Rightarrow> int) \<Rightarrow> FfiIncomingEvent list \<Rightarrow> u64 ffi_call" where
  "ffi_ingest_server_batch clock events =
     checked (collect_results event_try_from events) (\<lambda>converted core.
     map_ok word_of_nat (storage (ingest_server_batch clock converted) core))"

definition ffi_apply_delivery_receipt :: "bytes \<Rightarrow> unit ffi_call" where
  "ffi_apply_delivery_receipt message_id = checked (try_into 16 message_id) (\<lambda>i. storage (apply_delivery_receipt i))"

definition ffi_apply_read_receipt :: "bytes \<Rightarrow> unit ffi_call" where
  "ffi_apply_read_receipt message_id = checked (try_into 16 message_id) (\<lambda>i. storage (apply_read_receipt i))"

definition ffi_block_account :: "int \<Rightarrow> bytes \<Rightarrow> unit ffi_call" where
  "ffi_block_account now account = checked (try_into 32 account) (\<lambda>a. storage (block_account now a))"

definition ffi_unblock_account :: "bytes \<Rightarrow> unit ffi_call" where
  "ffi_unblock_account account = checked (try_into 32 account) (\<lambda>a. storage (unblock_account a))"

fun network_mode_of :: "FfiNetworkMode \<Rightarrow> network_mode" where
  "network_mode_of FfiNormal = Normal"
| "network_mode_of FfiLimited = Limited"
| "network_mode_of FfiSurvival = Survival"

fun ffi_mode_of :: "network_mode \<Rightarrow> FfiNetworkMode" where
  "ffi_mode_of Normal = FfiNormal"
| "ffi_mode_of Limited = FfiLimited"
| "ffi_mode_of Survival = FfiSurvival"

definition ffi_set_network_mode :: "FfiNetworkMode \<Rightarrow> unit ffi_call" where
  "ffi_set_network_mode mode = storage (set_network_mode (network_mode_of mode))"

definition ffi_get_network_diagnostics :: "FfiNetworkDiagnostics ffi_call" where
  "ffi_get_network_diagnostics core = map_ok
     (\<lambda>v. \<lparr>fn_mode = ffi_mode_of (nd_mode v), fn_pending_uploads = nd_pending_uploads v, fn_last_cursor = nd_last_cursor v\<rparr>)
     (storage get_network_diagnostics core)"

definition ffi_cache_relay_directory :: "u64 \<Rightarrow> bytes \<Rightarrow> int \<Rightarrow> unit ffi_call" where
  "ffi_cache_relay_directory version signed_directory expires_at_ms =
     storage (cache_relay_directory \<lparr>crd_version = version, crd_signed_directory = signed_directory,
       crd_expires_at_ms = expires_at_ms\<rparr>)"

definition ffi_rotate_local_master_key :: "aead \<Rightarrow> (nat \<Rightarrow> bytes) \<Rightarrow> bytes \<Rightarrow> u32 \<Rightarrow> unit ffi_call" where
  "ffi_rotate_local_master_key A nonces new_key new_version core =
     (case rotate_master_key A nonces new_key new_version core of (r, core) \<Rightarrow> (map_err (\<lambda>_. Storage) r, core))"

definition ffi_wipe_local_account :: "bool \<Rightarrow> unit ffi_call" where
  "ffi_wipe_local_account auto_rollback = storage (wipe_local_account auto_rollback)"

section \<open>MlsDevice\<close>

text \<open>
  The engine behind a \<open>Mutex\<close>, which is poisoned once a thread panicked while it held the lock. The
  calls take the lock one at a time.
\<close>

record ('r, 'k, 'g) MlsDevice =
  md_engine :: "('r, 'k, 'g) CryptoEngine"
  md_poisoned :: bool

type_synonym ('r, 'k, 'g, 'a) device_call = "('r, 'k, 'g) MlsDevice \<Rightarrow> (FfiError, 'a) result \<times> ('r, 'k, 'g) MlsDevice"

definition device_initialize :: "('r, 'k, 'g, 'x) openmls \<Rightarrow> 'r provider \<Rightarrow> FfiMemberCredential \<Rightarrow> bytes \<Rightarrow>
    (FfiError, ('r, 'k, 'g) MlsDevice) result" where
  "device_initialize L fresh member state_key =
     and_then (try_into 32 state_key) (\<lambda>key.
     and_then (member_try_from member) (\<lambda>m.
     and_then (map_err (\<lambda>_. Crypto) (initialize_crypto_store L fresh m key)) (\<lambda>engine.
     Inr \<lparr>md_engine = engine, md_poisoned = False\<rparr>)))"

text \<open>\<open>self.engine.lock().map_err(|_| FfiError::Crypto)?\<close>, then the call and its error.\<close>

definition lock :: "('r, 'k, 'g, 'a) device_call \<Rightarrow> ('r, 'k, 'g, 'a) device_call" where
  "lock f d = (if md_poisoned d then (Inl Crypto, d) else f d)"

definition engine :: "('r, 'k, 'g, 'a) engine_call \<Rightarrow> ('r, 'k, 'g, 'a) device_call" where
  "engine f d = (case f (md_engine d) of (r, e) \<Rightarrow> (map_err (\<lambda>_. Crypto) r, d\<lparr>md_engine := e\<rparr>))"

definition engine_read :: "(('r, 'k, 'g) CryptoEngine \<Rightarrow> (CryptoError, 'a) result) \<Rightarrow> ('r, 'k, 'g, 'a) device_call" where
  "engine_read f d = (map_err (\<lambda>_. Crypto) (f (md_engine d)), d)"

definition device_generate_key_packages :: "('r, 'k, 'g, 'x) openmls \<Rightarrow> u32 \<Rightarrow> ('r, 'k, 'g, bytes list) device_call" where
  "device_generate_key_packages L n = lock (engine (generate_key_packages L (unat n)))"

definition device_export_public_key_packages :: "('r, 'k, 'g, 'x) openmls \<Rightarrow> u32 \<Rightarrow> ('r, 'k, 'g, bytes list) device_call" where
  "device_export_public_key_packages L n = lock (engine (export_public_key_packages L (unat n)))"

definition device_create_conversation :: "('r, 'k, 'g, 'x) openmls \<Rightarrow> bytes \<Rightarrow> ('r, 'k, 'g, unit) device_call" where
  "device_create_conversation L group_id = lock (engine (create_conversation L group_id))"

text \<open>\<open>vec![change.commit, change.welcome.unwrap_or_default()]\<close>\<close>

definition change_list :: "GroupChange \<Rightarrow> bytes list" where
  "change_list change = [gh_commit change, case gh_welcome change of None \<Rightarrow> [] | Some w \<Rightarrow> w]"

definition device_commit_add_member :: "('r, 'k, 'g, 'x) openmls \<Rightarrow> bytes \<Rightarrow> bytes \<Rightarrow> ('r, 'k, 'g, bytes list) device_call" where
  "device_commit_add_member L group_id key_package d =
     map_ok change_list (lock (engine (commit_add_members L group_id [key_package])) d)"

definition device_propose_add_member :: "('r, 'k, 'g, 'x) openmls \<Rightarrow> bytes \<Rightarrow> bytes \<Rightarrow> ('r, 'k, 'g, bytes) device_call" where
  "device_propose_add_member L group_id key_package = lock (engine (propose_add_members L group_id key_package))"

definition device_commit_remove_member :: "('r, 'k, 'g, 'x) openmls \<Rightarrow> bytes \<Rightarrow> FfiMemberCredential \<Rightarrow>
    ('r, 'k, 'g, bytes list) device_call" where
  "device_commit_remove_member L group_id member d =
     map_ok change_list (lock (checked (member_try_from member) (\<lambda>m. engine (commit_remove_members L group_id m))) d)"

definition device_propose_remove_member :: "('r, 'k, 'g, 'x) openmls \<Rightarrow> bytes \<Rightarrow> FfiMemberCredential \<Rightarrow>
    ('r, 'k, 'g, bytes) device_call" where
  "device_propose_remove_member L group_id member =
     lock (checked (member_try_from member) (\<lambda>m. engine (propose_remove_members L group_id m)))"

definition device_join_conversation_from_welcome :: "('r, 'k, 'g, 'x) openmls \<Rightarrow> bytes \<Rightarrow> ('r, 'k, 'g, bytes) device_call" where
  "device_join_conversation_from_welcome L welcome = lock (engine (join_conversation_from_welcome L welcome))"

definition device_encrypt_application_message :: "('r, 'k, 'g, 'x) openmls \<Rightarrow> bytes \<Rightarrow> bytes \<Rightarrow> ('r, 'k, 'g, bytes) device_call" where
  "device_encrypt_application_message L group_id plaintext = lock (engine (encrypt_application_message L group_id plaintext))"

fun application_bytes :: "IncomingMessage \<Rightarrow> bytes" where
  "application_bytes (Application v) = v"
| "application_bytes _ = []"

definition device_process_incoming_message :: "('r, 'k, 'g, 'x) openmls \<Rightarrow> bytes \<Rightarrow> bytes \<Rightarrow> ('r, 'k, 'g, bytes) device_call" where
  "device_process_incoming_message L group_id ciphertext d =
     map_ok application_bytes (lock (engine (process_incoming_message L group_id ciphertext)) d)"

definition device_export_conversation_state :: "('r, 'k, 'g, 'x) openmls \<Rightarrow> aead \<Rightarrow> bytes \<Rightarrow> bytes \<Rightarrow>
    ('r, 'k, 'g, bytes) device_call" where
  "device_export_conversation_state L A nonce group_id = lock (engine_read (export_conversation_state L A nonce group_id))"

definition device_import_conversation_state :: "('r, 'k, 'g, 'x) openmls \<Rightarrow> aead \<Rightarrow> bytes \<Rightarrow> ('r, 'k, 'g, bytes) device_call" where
  "device_import_conversation_state L A snapshot = lock (engine (import_conversation_state L A snapshot))"

definition device_get_conversation_epoch :: "('r, 'k, 'g, 'x) openmls \<Rightarrow> bytes \<Rightarrow> ('r, 'k, 'g, u64) device_call" where
  "device_get_conversation_epoch L group_id = lock (engine_read (get_conversation_epoch L group_id))"

definition device_self_update :: "('r, 'k, 'g, 'x) openmls \<Rightarrow> bytes \<Rightarrow> ('r, 'k, 'g, bytes) device_call" where
  "device_self_update L group_id = lock (engine (engine_self_update L group_id))"

definition certificate_try_from :: "FfiDeviceCertificate \<Rightarrow> (FfiError, DeviceCertificate) result" where
  "certificate_try_from v =
     and_then (try_into 16 (fd_device_id v)) (\<lambda>d.
     and_then (try_into 32 (fd_device_public_key v)) (\<lambda>k.
     and_then (try_into 64 (fd_signature v)) (\<lambda>s.
     Inr \<lparr>dc_device_id = d, dc_device_public_key = k, dc_issued_at = fd_issued_at v, dc_signature = s\<rparr>)))"

definition ffi_member :: "MemberCredential \<Rightarrow> FfiMemberCredential" where
  "ffi_member m = \<lparr>fm_device_id = mc_device_id m, fm_account_id = mc_account_id m,
     fm_certificate_fingerprint = mc_certificate_fingerprint m\<rparr>"

definition device_verify_member_credential :: "hash \<Rightarrow> ed25519 \<Rightarrow> bytes \<Rightarrow> bytes \<Rightarrow> FfiDeviceCertificate \<Rightarrow>
    ('r, 'k, 'g, FfiMemberCredential) device_call" where
  "device_verify_member_credential sha256 E encoded root_public_key certificate =
     checked (try_into 32 root_public_key) (\<lambda>root.
     checked (certificate_try_from certificate) (\<lambda>cert d.
     map_ok ffi_member (lock (engine_read (\<lambda>_. verify_member_credential sha256 E encoded root cert)) d)))"

definition device_destroy_local_conversation_state :: "('r, 'k, 'g, 'x) openmls \<Rightarrow> bytes \<Rightarrow> ('r, 'k, 'g, unit) device_call" where
  "device_destroy_local_conversation_state L group_id = lock (engine (destroy_local_conversation_state L group_id))"

end
