(* ===== verification/Ffi_Correct.thy ===== *)
theory Ffi_Correct
  imports Ffi
begin

text \<open>
  What the interface for Swift and Kotlin promises: arguments of the wrong length never reach the
  store, every other call is the operation of the store with the same arguments, and so whatever
  the app passes in, the rows on disk keep their invariant and every conversation can be listed.
  Calls on the MLS engine in the same way, and that conversations are apart over any sequence.
\<close>

section \<open>Conversions\<close>

lemma try_into_iff: "try_into n v = Inr x \<longleftrightarrow> length v = n \<and> x = v"
  by (auto simp: try_into_def)

lemma map_err_const: "map_err (\<lambda>_. err) r = Inl err \<or> (\<exists>x. map_err (\<lambda>_. err) r = Inr x)"
  by (cases r) simp_all

lemma member_try_from_iff: "member_try_from v = Inr m \<longleftrightarrow> credential_wf m \<and> v = ffi_member m"
  by (cases v; cases m) (auto simp: member_try_from_def try_into_iff result_simps credential_wf_def ffi_member_def)

lemma mode_round_trip: "network_mode_of (ffi_mode_of m) = m" "ffi_mode_of (network_mode_of n) = n"
  by (cases m; simp) (cases n; simp)

lemma status_name_inj: "inj status_name"
proof (rule injI)
  fix a b
  show "status_name a = status_name b \<Longrightarrow> a = b"
    by (cases a; cases b) simp_all
qed

lemma protocol_round_trip_exact:
  "protocol_round_trip frame = (case transport_decode frame of Inl _ \<Rightarrow> Inl InvalidInput | Inr _ \<Rightarrow> Inr frame)"
  by (cases "transport_decode frame") (simp_all add: protocol_round_trip_def, simp add: transport_decode_iff)

section \<open>Calls on the store\<close>

text \<open>
  The calls of \<open>LocalMessenger\<close> that change the store, with what they draw, and \<open>Restart\<close>: the process
  is killed and the app opens the database again with the same key.
\<close>

datatype ffi_request =
  FfiCreateMessage bytes bytes int bytes bytes
| FfiCreateGroup int bytes
| FfiAddMember bytes bytes bytes
| FfiRemoveMember int bytes bytes
| FfiMarkUploadAccepted bytes
| FfiRetryMessage int bytes
| FfiCancelPendingMessage bytes
| FfiIngestServerEvent int bytes bytes bytes
| FfiIngestServerBatch "nat \<Rightarrow> int" "FfiIncomingEvent list"
| FfiApplyDeliveryReceipt bytes
| FfiApplyReadReceipt bytes
| FfiBlockAccount int bytes
| FfiUnblockAccount bytes
| FfiSetNetworkMode FfiNetworkMode
| FfiCacheRelayDirectory u64 bytes int
| FfiRotateMasterKey "nat \<Rightarrow> bytes" bytes u32
| FfiWipeLocalAccount bool
| Restart

definition ffi_done :: "(FfiError, 'a) result \<times> core \<Rightarrow> (FfiError, unit) result \<times> core" where
  "ffi_done = map_ok (\<lambda>_. ())"

fun ffi_exec :: "aead \<Rightarrow> ffi_request \<Rightarrow> unit ffi_call" where
  "ffi_exec A (FfiCreateMessage i n t c p) core = ffi_done (ffi_create_message A i n t c p core)"
| "ffi_exec A (FfiCreateGroup t g) core = ffi_create_group t g core"
| "ffi_exec A (FfiAddMember g d a) core = ffi_add_member g d a core"
| "ffi_exec A (FfiRemoveMember t g d) core = ffi_remove_member t g d core"
| "ffi_exec A (FfiMarkUploadAccepted i) core = ffi_mark_upload_accepted i core"
| "ffi_exec A (FfiRetryMessage t i) core = ffi_retry_message t i core"
| "ffi_exec A (FfiCancelPendingMessage i) core = ffi_cancel_pending_message i core"
| "ffi_exec A (FfiIngestServerEvent t e c b) core = ffi_done (ffi_ingest_server_event t e c b core)"
| "ffi_exec A (FfiIngestServerBatch k es) core = ffi_done (ffi_ingest_server_batch k es core)"
| "ffi_exec A (FfiApplyDeliveryReceipt i) core = ffi_apply_delivery_receipt i core"
| "ffi_exec A (FfiApplyReadReceipt i) core = ffi_apply_read_receipt i core"
| "ffi_exec A (FfiBlockAccount t a) core = ffi_block_account t a core"
| "ffi_exec A (FfiUnblockAccount a) core = ffi_unblock_account a core"
| "ffi_exec A (FfiSetNetworkMode m) core = ffi_set_network_mode m core"
| "ffi_exec A (FfiCacheRelayDirectory v d e) core = ffi_cache_relay_directory v d e core"
| "ffi_exec A (FfiRotateMasterKey ns k v) core = ffi_rotate_local_master_key A ns k v core"
| "ffi_exec A (FfiWipeLocalAccount b) core = ffi_wipe_local_account b core"
| "ffi_exec A Restart core = (Inr (), reopen core)"

definition ffi_step :: "aead \<Rightarrow> core \<Rightarrow> bool list \<times> ffi_request \<Rightarrow> core" where
  "ffi_step A core = (\<lambda>(fs, q). snd (ffi_exec A q (core\<lparr>db := (db core)\<lparr>faults := fs\<rparr>\<rparr>)))"

text \<open>The operation of the store a call stands for, if its arguments have the right lengths.\<close>

definition sized :: "(nat \<times> bytes) list \<Rightarrow> core_op \<Rightarrow> core_op option" where
  "sized args op = (if list_all (\<lambda>(n, v). length v = n) args then Some op else None)"

definition plain_event :: "FfiIncomingEvent \<Rightarrow> incoming_event" where
  "plain_event v = \<lparr>in_event_id = fe_event_id v, in_conversation_id = fe_conversation_id v,
     in_encrypted_event = fe_encrypted_event v\<rparr>"

fun core_request :: "ffi_request \<Rightarrow> core_op option" where
  "core_request (FfiCreateMessage i n t c p) = sized [(16, c)] (CreateMessage i n t c p)"
| "core_request (FfiCreateGroup t g) = sized [(16, g)] (CreateGroup t g)"
| "core_request (FfiAddMember g d a) = sized [(16, g), (16, d), (32, a)] (AddMember g d a)"
| "core_request (FfiRemoveMember t g d) = sized [(16, g), (16, d)] (RemoveMember t g d)"
| "core_request (FfiMarkUploadAccepted i) = sized [(16, i)] (MarkUploadAccepted i)"
| "core_request (FfiRetryMessage t i) = sized [(16, i)] (RetryMessage t i)"
| "core_request (FfiCancelPendingMessage i) = sized [(16, i)] (CancelPendingMessage i)"
| "core_request (FfiIngestServerEvent t e c b) = sized [(16, e), (16, c)] (IngestServerEvent t e c b)"
| "core_request (FfiIngestServerBatch k es) =
     sized (concat (map (\<lambda>v. [(16, fe_event_id v), (16, fe_conversation_id v)]) es)) (IngestServerBatch k (map plain_event es))"
| "core_request (FfiApplyDeliveryReceipt i) = sized [(16, i)] (ApplyDeliveryReceipt i)"
| "core_request (FfiApplyReadReceipt i) = sized [(16, i)] (ApplyReadReceipt i)"
| "core_request (FfiBlockAccount t a) = sized [(32, a)] (BlockAccount t a)"
| "core_request (FfiUnblockAccount a) = sized [(32, a)] (UnblockAccount a)"
| "core_request (FfiSetNetworkMode m) = Some (SetNetworkMode (network_mode_of m))"
| "core_request (FfiCacheRelayDirectory v d e) =
     Some (CacheRelayDirectory \<lparr>crd_version = v, crd_signed_directory = d, crd_expires_at_ms = e\<rparr>)"
| "core_request (FfiRotateMasterKey ns k v) = Some (RotateMasterKey ns k v)"
| "core_request (FfiWipeLocalAccount b) = Some (WipeLocalAccount b)"
| "core_request Restart = Some Reopen"

text \<open>What a call makes of the store: its operation, and no other error than \<open>Storage\<close>; or nothing.\<close>

definition performs :: "aead \<Rightarrow> core_op option \<Rightarrow> core \<Rightarrow> (FfiError, unit) result \<times> core \<Rightarrow> bool" where
  "performs A op core out \<longleftrightarrow>
     (case op of None \<Rightarrow> out = (Inl InvalidInput, core)
      | Some op \<Rightarrow> fst out \<in> {Inr (), Inl Storage} \<and> snd out = exec_op A op core)"

lemma storage_snd [simp]: "snd (storage m core) = on_db m core"
  by (simp add: storage_def on_db_def split: prod.split)

lemma storage_fst: "fst (storage m core) = Inl Storage \<or> (\<exists>x. fst (storage m core) = Inr x)"
  using map_err_const [of Storage "fst (m (db core))"] by (simp add: storage_def case_prod_beta)

lemma storage_unit: "fst (storage m core) = Inr () \<or> fst (storage m core) = Inl Storage"
  using storage_fst [of m core] by auto

lemma done_storage:
  "fst (ffi_done (storage m core)) = Inr () \<or> fst (ffi_done (storage m core)) = Inl Storage"
  "snd (ffi_done (storage m core)) = on_db m core"
  using storage_fst [of m core] storage_snd [of m core]
  by (auto simp: ffi_done_def map_ok_def simp del: storage_snd split: prod.splits sum.splits)

lemma done_map_ok: "ffi_done (map_ok f x) = ffi_done x"
  by (auto simp: ffi_done_def map_ok_def split: prod.splits sum.splits)

lemma done_Inl [simp]: "ffi_done (Inl e, core) = (Inl e, core)"
  by (simp add: ffi_done_def map_ok_def)

lemma convert_events:
  "collect_results event_try_from es =
     (if list_all (\<lambda>v. length (fe_event_id v) = 16 \<and> length (fe_conversation_id v) = 16) es
      then Inr (map plain_event es) else Inl InvalidInput)"
  by (induction es) (auto simp: event_try_from_def try_into_def plain_event_def)

lemmas ffi_defs = ffi_create_message_def ffi_create_group_def ffi_add_member_def ffi_remove_member_def
  ffi_mark_upload_accepted_def ffi_retry_message_def ffi_cancel_pending_message_def ffi_ingest_server_event_def
  ffi_ingest_server_batch_def ffi_apply_delivery_receipt_def ffi_apply_read_receipt_def ffi_block_account_def
  ffi_unblock_account_def ffi_set_network_mode_def ffi_cache_relay_directory_def ffi_wipe_local_account_def

lemma ffi_exec_performs: "performs A (core_request q) core (ffi_exec A q core)"
proof (cases q)
  case (FfiRotateMasterKey ns k v)
  then show ?thesis
    using map_err_const [of Storage "fst (rotate_master_key A ns k v core)"]
    by (auto simp: performs_def ffi_rotate_local_master_key_def split: prod.split)
next
  case (FfiIngestServerBatch k es)
  have "list_all (\<lambda>(n, v). length v = n) (concat (map (\<lambda>v. [(16, fe_event_id v), (16, fe_conversation_id v)]) es)) \<longleftrightarrow>
      list_all (\<lambda>v. length (fe_event_id v) = 16 \<and> length (fe_conversation_id v) = 16) es"
    by (induction es) auto
  with FfiIngestServerBatch show ?thesis
    by (simp add: performs_def ffi_ingest_server_batch_def convert_events checked_def sized_def done_map_ok done_storage)
qed (auto simp: performs_def ffi_defs checked_def try_into_def sized_def storage_unit done_storage)

section \<open>Calls on the engine\<close>

text \<open>The calls of \<open>MlsDevice\<close> that change the engine, and the operation of the engine each stands for.\<close>

datatype device_request =
  DeviceGenerateKeyPackages u32
| DeviceExportPublicKeyPackages u32
| DeviceCreateConversation bytes
| DeviceCommitAddMember bytes bytes
| DeviceProposeAddMember bytes bytes
| DeviceCommitRemoveMember bytes FfiMemberCredential
| DeviceProposeRemoveMember bytes FfiMemberCredential
| DeviceJoinFromWelcome bytes
| DeviceEncryptApplicationMessage bytes bytes
| DeviceProcessIncomingMessage bytes bytes
| DeviceImportState bytes
| DeviceSelfUpdate bytes
| DeviceDestroyState bytes

definition device_done :: "(FfiError, 'a) result \<times> 'd \<Rightarrow> (FfiError, unit) result \<times> 'd" where
  "device_done = map_ok (\<lambda>_. ())"

fun device_exec :: "('r, 'k, 'g, 'x) openmls \<Rightarrow> aead \<Rightarrow> device_request \<Rightarrow> ('r, 'k, 'g, unit) device_call" where
  "device_exec L A (DeviceGenerateKeyPackages n) d = device_done (device_generate_key_packages L n d)"
| "device_exec L A (DeviceExportPublicKeyPackages n) d = device_done (device_export_public_key_packages L n d)"
| "device_exec L A (DeviceCreateConversation g) d = device_create_conversation L g d"
| "device_exec L A (DeviceCommitAddMember g v) d = device_done (device_commit_add_member L g v d)"
| "device_exec L A (DeviceProposeAddMember g v) d = device_done (device_propose_add_member L g v d)"
| "device_exec L A (DeviceCommitRemoveMember g m) d = device_done (device_commit_remove_member L g m d)"
| "device_exec L A (DeviceProposeRemoveMember g m) d = device_done (device_propose_remove_member L g m d)"
| "device_exec L A (DeviceJoinFromWelcome v) d = device_done (device_join_conversation_from_welcome L v d)"
| "device_exec L A (DeviceEncryptApplicationMessage g v) d = device_done (device_encrypt_application_message L g v d)"
| "device_exec L A (DeviceProcessIncomingMessage g v) d = device_done (device_process_incoming_message L g v d)"
| "device_exec L A (DeviceImportState v) d = device_done (device_import_conversation_state L A v d)"
| "device_exec L A (DeviceSelfUpdate g) d = device_done (device_self_update L g d)"
| "device_exec L A (DeviceDestroyState g) d = device_destroy_local_conversation_state L g d"

fun engine_request :: "device_request \<Rightarrow> (FfiError, engine_op) result" where
  "engine_request (DeviceGenerateKeyPackages n) = Inr (GenerateKeyPackages (unat n))"
| "engine_request (DeviceExportPublicKeyPackages n) = Inr (GenerateKeyPackages (unat n))"
| "engine_request (DeviceCreateConversation g) = Inr (CreateConversation g)"
| "engine_request (DeviceCommitAddMember g v) = Inr (CommitAddMembers g [v])"
| "engine_request (DeviceProposeAddMember g v) = Inr (ProposeAddMembers g v)"
| "engine_request (DeviceCommitRemoveMember g m) = and_then (member_try_from m) (\<lambda>c. Inr (CommitRemoveMembers g c))"
| "engine_request (DeviceProposeRemoveMember g m) = and_then (member_try_from m) (\<lambda>c. Inr (ProposeRemoveMembers g c))"
| "engine_request (DeviceJoinFromWelcome v) = Inr (JoinFromWelcome v)"
| "engine_request (DeviceEncryptApplicationMessage g v) = Inr (EncryptApplicationMessage g v)"
| "engine_request (DeviceProcessIncomingMessage g v) = Inr (ProcessIncomingMessage g v)"
| "engine_request (DeviceImportState v) = Inr (ImportState v)"
| "engine_request (DeviceSelfUpdate g) = Inr (SelfUpdate g)"
| "engine_request (DeviceDestroyState g) = Inr (DestroyState g)"

definition device_performs :: "('r, 'k, 'g, 'x) openmls \<Rightarrow> aead \<Rightarrow> device_request \<Rightarrow> ('r, 'k, 'g, unit) device_call" where
  "device_performs L A q d =
     (if md_poisoned d then (Inl Crypto, d)
      else case engine_request q of
        Inl err \<Rightarrow> (Inl err, d)
      | Inr op \<Rightarrow> (case engine_run L A op (md_engine d) of
          (r, e) \<Rightarrow> (map_err (\<lambda>_. Crypto) r, d\<lparr>md_engine := e\<rparr>)))"

lemma device_done_map_ok [simp]: "device_done (map_ok f x) = device_done x"
  by (auto simp: device_done_def map_ok_def split: prod.splits sum.splits)

lemma device_done_engine:
  "device_done (engine f d) = (case engine_done (f (md_engine d)) of (r, e) \<Rightarrow> (map_err (\<lambda>_. Crypto) r, d\<lparr>md_engine := e\<rparr>))"
  by (auto simp: device_done_def map_ok_def engine_def engine_done_def result_simps split: prod.splits sum.splits)

lemma device_done_Inl [simp]: "device_done (Inl err, d) = (Inl err, d)"
  by (simp add: device_done_def map_ok_def)

lemmas device_defs = device_generate_key_packages_def device_export_public_key_packages_def device_create_conversation_def
  device_commit_add_member_def device_propose_add_member_def device_commit_remove_member_def
  device_propose_remove_member_def device_join_conversation_from_welcome_def device_encrypt_application_message_def
  device_process_incoming_message_def device_import_conversation_state_def device_self_update_def
  device_destroy_local_conversation_state_def

lemma export_is_generate: "export_public_key_packages L n = generate_key_packages L n"
  by (simp add: fun_eq_iff export_public_key_packages_def)

lemmas device_performs_simps = device_performs_def device_defs lock_def checked_def export_is_generate

lemma device_exec_performs: "device_exec L A q d = device_performs L A q d"
proof (cases q)
  case (DeviceCreateConversation g)
  then show ?thesis by (simp add: device_performs_simps engine_def)
next
  case (DeviceDestroyState g)
  then show ?thesis by (simp add: device_performs_simps engine_def)
next
  case (DeviceCommitRemoveMember g m)
  then show ?thesis by (cases "member_try_from m") (simp_all add: device_performs_simps device_done_engine)
next
  case (DeviceProposeRemoveMember g m)
  then show ?thesis by (cases "member_try_from m") (simp_all add: device_performs_simps device_done_engine)
qed (simp_all add: device_performs_simps device_done_engine)

text \<open>Calls that name another conversation or none, and the part of a device they leave alone.\<close>

definition spares :: "bytes \<Rightarrow> device_request \<Rightarrow> bool" where
  "spares gid q \<longleftrightarrow>
     (case engine_request q of
        Inl _ \<Rightarrow> True
      | Inr (JoinFromWelcome _) \<Rightarrow> False
      | Inr (ImportState _) \<Rightarrow> False
      | Inr op \<Rightarrow> addressed op \<noteq> Some gid)"

definition same_conversation :: "bytes \<Rightarrow> ('r, 'k, 'g) MlsDevice \<Rightarrow> ('r, 'k, 'g) MlsDevice \<Rightarrow> bool" where
  "same_conversation gid d d' \<longleftrightarrow> ce_groups (md_engine d') gid = ce_groups (md_engine d) gid \<and>
     ce_signer (md_engine d') = ce_signer (md_engine d) \<and> ce_credential (md_engine d') = ce_credential (md_engine d) \<and>
     ce_state_key (md_engine d') = ce_state_key (md_engine d) \<and> md_poisoned d' = md_poisoned d"

definition device_step :: "('r, 'k, 'g, 'x) openmls \<Rightarrow> aead \<Rightarrow> ('r, 'k, 'g) MlsDevice \<Rightarrow> device_request \<Rightarrow> ('r, 'k, 'g) MlsDevice" where
  "device_step L A d q = snd (device_exec L A q d)"

lemma generate_isolated: "isolated gid e (snd (generate_key_packages L n e))"
  by (simp add: generate_key_packages_def split: prod.split)

lemma spared_isolated:
  assumes "spares gid q" "engine_request q = Inr op"
  shows "\<exists>g. g \<noteq> gid \<and> isolated g e (snd (engine_run L A op e))"
proof (cases "addressed op")
  case (Some g)
  with assms have "g \<noteq> gid"
    by (auto simp: spares_def split: engine_op.splits)
  with addressed_isolated [OF Some] show ?thesis by blast
next
  case None
  with assms obtain n where "op = GenerateKeyPackages n"
    by (cases op) (auto simp: spares_def)
  moreover have "\<exists>g. g \<noteq> gid"
    by (metis list.discI)
  ultimately show ?thesis
    by (auto intro: generate_isolated)
qed

lemma device_step_spares:
  assumes "spares gid q" "same_conversation gid d0 d"
  shows "same_conversation gid d0 (device_step L A d q)"
  using assms spared_isolated [OF assms(1), where e = "md_engine d" and L = L and A = A]
  by (auto simp: device_step_def device_exec_performs device_performs_def same_conversation_def isolated_def
      split: sum.split prod.split)

interpretation device_runs: transition_system "device_step L A" "spares gid" "same_conversation gid d0" for L A gid d0
  by unfold_locales (rule device_step_spares)

section \<open>Properties\<close>

text \<open>What the types of the interface say: nonces have 24 bytes, a \<open>String\<close> is valid UTF-8.\<close>

fun request_typed :: "ffi_request \<Rightarrow> bool" where
  "request_typed (FfiCreateMessage i n t c p) = (length n = 24 \<and> utf8_valid p)"
| "request_typed (FfiRotateMasterKey ns k v) = (\<forall>i. length (ns i) = 24)"
| "request_typed _ = True"

lemma core_request_typed: "core_request q = Some op \<Longrightarrow> request_typed q \<Longrightarrow> op_typed op"
  by (cases q) (auto simp: sized_def split: if_splits)

lemma ffi_step_core:
  "ffi_step A core (fs, q) = (case core_request q of None \<Rightarrow> core\<lparr>db := (db core)\<lparr>faults := fs\<rparr>\<rparr> | Some op \<Rightarrow> core_step A core (fs, op))"
  using ffi_exec_performs [of A q "core\<lparr>db := (db core)\<lparr>faults := fs\<rparr>\<rparr>"]
  by (auto simp: ffi_step_def core_step_def performs_def split: option.splits)

lemma ffi_step_inv:
  assumes "aead_correct A" "core_inv A core" "request_typed (snd q)"
  shows "core_inv A (ffi_step A core q)"
proof (cases "core_request (snd q)")
  case None
  with assms(2) show ?thesis
    by (cases q) (simp add: ffi_step_core core_inv_def)
next
  case (Some op)
  with core_step_inv [OF assms(1,2), of "(fst q, op)"] core_request_typed [OF Some assms(3)] show ?thesis
    by (cases q) (simp add: ffi_step_core)
qed

interpretation ffi_runs: transition_system "ffi_step A" "\<lambda>q. request_typed (snd q)"
    "\<lambda>core. aead_correct A \<and> core_inv A core" for A
  by unfold_locales (auto intro: ffi_step_inv)

lemma ffi_open_iff: "ffi_open file fs key = Inr core \<longleftrightarrow> open_core file fs key = Inr core"
  by (cases "open_core file fs key") (simp_all add: ffi_open_def)

lemma ffi_open_again:
  assumes "core_inv A core"
  shows "ffi_open (durable (db core)) [] (master_key core) =
    Inr \<lparr>db = quiet (durable (db core)), master_key = master_key core\<rparr>"
proof -
  have "migrate (quiet (durable (db core))) = (Inr (), quiet (durable (db core)))"
    using assms create_schema_idem [of "durable (db core)"]
    by (simp add: migrate_quiet core_inv_def store_inv_def singletons_ok_iff)
  then show ?thesis
    using assms by (simp add: ffi_open_iff open_core_def core_inv_def flip: quiet_def)
qed

lemma ffi_list_messages_rows:
  assumes "store_inv s" "readable A key s"
  shows "if length conv = 16
    then \<exists>lms. fst (ffi_list_messages A conv \<lparr>db = quiet s, master_key = key\<rparr>) = Inr (map ffi_message lms) \<and>
      list_all2 (\<lambda>m lm. read_message A key m = Inr lm)
        (sort_key ms_created (filter (\<lambda>r. ms_conversation r = conv) (messages s))) lms
    else fst (ffi_list_messages A conv \<lparr>db = quiet s, master_key = key\<rparr>) = Inl InvalidInput"
  using list_messages_rows [OF assms, of conv]
  by (auto simp: ffi_list_messages_def checked_def try_into_def storage_def map_ok_def)

text \<open>
  C6: the interface is safe for any input. Whatever calls an app makes on a database it created,
  with byte vectors of whatever length, whichever statements fail and wherever the process is
  killed: a call with an argument of the wrong length is refused and changes nothing, every other
  call is the operation of the store on the same arguments and has no other error than \<open>Storage\<close>;
  the rows on disk keep their invariant; and once the database is opened again, every conversation
  is listed in full, in order of creation, with every text decrypted.
\<close>

theorem ffi_run_safe:
  assumes "aead_correct A" "ffi_open empty_store fs key = Inr core" "list_all (\<lambda>q. request_typed (snd q)) qs"
    and "final = foldl (ffi_step A) core qs"
  shows "core_inv A final \<and> performs A (core_request q) final (ffi_exec A q final) \<and>
    (\<exists>again. ffi_open (durable (db final)) [] (master_key final) = Inr again \<and>
      (if length conv = 16
       then \<exists>lms. fst (ffi_list_messages A conv again) = Inr (map ffi_message lms) \<and>
         list_all2 (\<lambda>m lm. read_message A (master_key final) m = Inr lm)
           (sort_key ms_created (filter (\<lambda>r. ms_conversation r = conv) (messages (durable (db final))))) lms
       else fst (ffi_list_messages A conv again) = Inl InvalidInput))"
proof -
  have "core_inv A core"
    using assms(2) open_in_memory_inv by (simp add: ffi_open_iff open_in_memory_def)
  with ffi_runs.run_inv [of A core qs] assms have "core_inv A final"
    by simp
  with ffi_exec_performs ffi_open_again [OF this] ffi_list_messages_rows show ?thesis
    by (simp add: core_inv_def)
qed

text \<open>
  C23: conversations are apart across the interface. Whatever calls an app makes on a device that
  name other conversations or none (joining from a welcome and importing a snapshot, whose
  conversation the bytes determine, excepted), the group of a conversation, the signature key, the
  credential and the state key are as before. When the device does not hold the conversation, each
  call that names it, except its creation, then fails and changes nothing; once the lock is
  poisoned, every call does.
\<close>

theorem device_run_isolated:
  assumes "list_all (spares gid) qs" "final = foldl (device_step L A) d qs"
  shows "same_conversation gid d final \<and>
    (if md_poisoned d then device_exec L A q final = (Inl Crypto, final)
     else if ce_groups (md_engine d) gid = None
     then (case engine_request q of
         Inl err \<Rightarrow> device_exec L A q final = (Inl err, final)
       | Inr op \<Rightarrow> addressed op \<noteq> Some gid \<or> op = CreateConversation gid \<or>
           device_exec L A q final = (Inl Crypto, final))
     else True)"
proof -
  have same: "same_conversation gid d final"
    using device_runs.run_inv [of gid d d qs L A] assms by (simp add: same_conversation_def)
  have "device_exec L A q final = (Inl Crypto, final)"
    if "\<not> md_poisoned final" "engine_request q = Inr op" "addressed op = Some gid" "op \<noteq> CreateConversation gid"
      "ce_groups (md_engine final) gid = None" for op
  proof -
    have "engine_run L A op (md_engine final) \<in> {(Inl ConversationNotFound, md_engine final), (Inl InvalidMessage, md_engine final)}"
      using that missing_conversation [of op gid "md_engine final" L A] by fastforce
    with that show ?thesis
      by (auto simp: device_exec_performs device_performs_def)
  qed
  with same show ?thesis
    by (auto simp: same_conversation_def device_exec_performs device_performs_def split: sum.split)
qed

section \<open>A run\<close>

definition demo_calls :: "(bool list \<times> ffi_request) list" where
  "demo_calls = [([], FfiCreateMessage demo_id demo_nonce 5 demo_conv demo_text), ([], FfiCreateGroup 6 [1, 2, 3]),
     ([False, False, True], FfiWipeLocalAccount False), ([], Restart)]"

theorem ffi_run_safe_witness:
  "core_inv tag_aead (foldl (ffi_step tag_aead) demo_core demo_calls) \<and>
   ffi_exec tag_aead (FfiCreateGroup 6 [1, 2, 3]) (foldl (ffi_step tag_aead) demo_core demo_calls) =
     (Inl InvalidInput, foldl (ffi_step tag_aead) demo_core demo_calls)"
proof -
  have "ffi_open empty_store [] demo_key = Inr demo_core"
    using demo_open by (simp add: ffi_open_iff open_in_memory_def)
  moreover have "list_all (\<lambda>q. request_typed (snd q)) demo_calls"
    by (simp add: demo_calls_def demo_lengths)
  ultimately show ?thesis
    using ffi_run_safe [OF tag_aead_correct _ _ refl, of "[]" demo_key demo_core demo_calls "FfiCreateGroup 6 [1, 2, 3]"]
    by (simp add: performs_def sized_def)
qed

definition demo_device :: "(unit, bytes, bytes) MlsDevice" where
  "demo_device = \<lparr>md_engine = plain_engine 1, md_poisoned = False\<rparr>"

theorem device_run_isolated_witness:
  "device_exec plain_mls tag_aead (DeviceEncryptApplicationMessage [9] [5])
     (foldl (device_step plain_mls tag_aead) demo_device [DeviceSelfUpdate [1], DeviceCreateConversation [4]]) =
   (Inl Crypto, foldl (device_step plain_mls tag_aead) demo_device [DeviceSelfUpdate [1], DeviceCreateConversation [4]])"
proof -
  have "list_all (spares [9]) [DeviceSelfUpdate [1], DeviceCreateConversation [4]]"
    by (simp add: spares_def)
  from device_run_isolated [OF this refl, where L = plain_mls and A = tag_aead and d = demo_device and
      q = "DeviceEncryptApplicationMessage [9] [5]"]
  show ?thesis
    by (simp add: demo_device_def plain_engine_def)
qed

end
