(* ===== verification/Http.thy ===== *)
theory Http
  imports Prelude
begin

text \<open>
  What the two services share of HTTP: methods, requests, answers, a table of routes as
  \<open>axum::Router\<close> keeps one, the limit on bodies, and how a process that starts a service ends up.
  How axum answers a request that reaches no handler is an argument (\<open>reject\<close>).
\<close>

text \<open>A status is its number, as in \<open>http::StatusCode\<close>.\<close>

type_synonym status = nat

definition is_success :: "status \<Rightarrow> bool" where
  "is_success n \<longleftrightarrow> 200 \<le> n \<and> n < 300"

datatype http_method = GET | HEAD | POST | OtherMethod

record http_request =
  hq_method :: http_method
  hq_path :: string
  hq_body :: bytes

record http_answer =
  ha_status :: status
  ha_content_type :: string
  ha_body :: bytes

text \<open>\<open>StatusCode::into_response\<close>: no body and no content type.\<close>

definition status_answer :: "status \<Rightarrow> http_answer" where
  "status_answer n = \<lparr>ha_status = n, ha_content_type = '''', ha_body = []\<rparr>"

datatype rejection = NotFound | MethodNotAllowed | PayloadTooLarge

text \<open>A handler under \<open>get\<close> also serves \<open>HEAD\<close>, whose answer has no body.\<close>

fun accepts :: "http_method \<Rightarrow> http_method \<Rightarrow> bool" where
  "accepts GET m = (m = GET \<or> m = HEAD)"
| "accepts m' m = (m = m')"

definition answer_for :: "http_method \<Rightarrow> http_answer \<Rightarrow> http_answer" where
  "answer_for m p = (if m = HEAD then p\<lparr>ha_body := []\<rparr> else p)"

text \<open>A route: its path, its method, whether the handler extracts the body, and the handler.\<close>

type_synonym 'h routes = "(string \<times> http_method \<times> bool \<times> 'h) list"

definition route_request :: "'h routes \<Rightarrow> nat \<Rightarrow> http_request \<Rightarrow> rejection + 'h" where
  "route_request routes limit q =
     (case map_of routes (hq_path q) of
        None \<Rightarrow> Inl NotFound
      | Some (m, reads_body, h) \<Rightarrow>
          if \<not> accepts m (hq_method q) then Inl MethodNotAllowed
          else if reads_body \<and> length (hq_body q) > limit then Inl PayloadTooLarge
          else Inr h)"

section \<open>Processes\<close>

text \<open>
  What a process is started with, and what the libraries make of it: whether a database address is
  well formed, how a socket address is read, whether a listener can be bound to it and whether an
  HTTP client can be built.
\<close>

record launch =
  la_env :: "string \<Rightarrow> string option"
  la_args :: "string list"

record 'a platform =
  pf_database_url :: "string \<Rightarrow> bool"
  pf_socket_addr :: "string \<Rightarrow> 'a option"
  pf_bind :: "'a \<Rightarrow> bool"
  pf_http_client :: bool

text \<open>\<open>expect\<close> panics with its message; \<open>Serving\<close> is the process that accepts requests.\<close>

datatype ('a, 's) process = Exited nat | Panicked string | Finished | Serving 'a 's

definition env_or :: "string \<Rightarrow> launch \<Rightarrow> string \<Rightarrow> string" where
  "env_or name l d = (case la_env l name of None \<Rightarrow> d | Some v \<Rightarrow> v)"

end
