(* ===== verification/Core_Service.thy ===== *)
theory Core_Service
  imports Core_Api_Correct Http
begin

text \<open>
  The process of the delivery service, \<open>main\<close> of \<open>services/core-api/src/main.rs\<close>: its start, the
  migration command, its routes with the limit on bodies, and what the database goes through over
  any number of starts.
\<close>

section \<open>Routes\<close>

fun status_number :: "StatusCode \<Rightarrow> status" where
  "status_number OK = 200"
| "status_number BAD_REQUEST = 400"
| "status_number UNAUTHORIZED = 401"
| "status_number CONFLICT = 409"
| "status_number TOO_MANY_REQUESTS = 429"
| "status_number INTERNAL_SERVER_ERROR = 500"
| "status_number SERVICE_UNAVAILABLE = 503"

definition core_answer :: "http_response \<Rightarrow> http_answer" where
  "core_answer p = \<lparr>ha_status = status_number (hr_status p), ha_content_type = hr_content_type p, ha_body = hr_body p\<rparr>"

datatype core_handler = CoreHealthz | CoreReadyz | CoreMetrics | CoreBinaryApi | CoreBinaryLongPoll

definition core_routes :: "core_handler routes" where
  "core_routes =
     [(''/healthz'', GET, False, CoreHealthz), (''/readyz'', GET, False, CoreReadyz), (''/metrics'', GET, False, CoreMetrics),
      (''/v1/sync'', POST, True, CoreBinaryApi), (''/v1/long-poll'', POST, True, CoreBinaryLongPoll)]"

definition CORE_BODY_LIMIT :: nat where "CORE_BODY_LIMIT = 64 * 1024"

text \<open>
  One request: what its handler meets (\<open>exchange\<close> for the frames, failing statements for the
  readiness query) is an argument. A \<open>String\<close> is answered as plain text.
\<close>

definition core_service ::
    "(rejection \<Rightarrow> http_answer) \<Rightarrow> crypto \<Rightarrow> exchange \<times> bool list \<Rightarrow> http_request \<Rightarrow> App \<Rightarrow> http_answer \<times> App" where
  "core_service reject K = (\<lambda>(x, fs) q app.
     (case route_request core_routes CORE_BODY_LIMIT q of
        Inl r \<Rightarrow> (reject r, app)
      | Inr CoreHealthz \<Rightarrow> (status_answer 200, app)
      | Inr CoreReadyz \<Rightarrow> (answer_for (hq_method q) (core_answer (readyz fs app)), app)
      | Inr CoreMetrics \<Rightarrow> (answer_for (hq_method q) \<lparr>ha_status = 200,
          ha_content_type = ''text/plain; charset=utf-8'', ha_body = ascii (api_metrics app)\<rparr>, app)
      | Inr CoreBinaryApi \<Rightarrow> map_prod core_answer id (binary_api K x app (hq_body q))
      | Inr CoreBinaryLongPoll \<Rightarrow> map_prod core_answer id (binary_long_poll K x app (hq_body q))))"

section \<open>The process\<close>

text \<open>\<open>checksum\<close> is that of the embedded migration, \<open>fs\<close> which of its statements fail.\<close>

definition core_main ::
    "bytes \<Rightarrow> 'a platform \<Rightarrow> launch \<Rightarrow> bool list \<Rightarrow> backend \<Rightarrow> ('a, App) process \<times> backend" where
  "core_main checksum P l fs s =
     (case la_env l ''DATABASE_URL'' of
        None \<Rightarrow> (Exited 2, s)
      | Some url \<Rightarrow>
          if \<not> pf_database_url P url then (Panicked ''database url'', s)
          else if length (la_args l) > 1 \<and> la_args l ! 1 = ''migrate'' then
            (case pg_migrate checksum (on_pool s fs) of
               (Inr _, c) \<Rightarrow> (Finished, live c)
             | (Inl _, c) \<Rightarrow> (Panicked ''migration failed'', live c))
          else
            let app = \<lparr>app_db = s, app_requests = 0, app_errors = 0\<rparr> in
            (case pf_socket_addr P (env_or ''BIND_ADDR'' l ''0.0.0.0:8080'') of
               None \<Rightarrow> (Panicked ''bind address'', s)
             | Some addr \<Rightarrow> if pf_bind P addr then (Serving addr app, s) else (Panicked ''bind'', s)))"

text \<open>
  The whole life of a process, from its start to whenever it stops: what the database is at the
  end, when it was \<open>s\<close> at the start.
\<close>

definition core_step ::
    "(rejection \<Rightarrow> http_answer) \<Rightarrow> crypto \<Rightarrow> App \<Rightarrow> (exchange \<times> bool list) \<times> http_request \<Rightarrow> App" where
  "core_step reject K app = (\<lambda>(env, q). snd (core_service reject K env q app))"

definition core_lifetime ::
    "(rejection \<Rightarrow> http_answer) \<Rightarrow> crypto \<Rightarrow> bytes \<Rightarrow> 'a platform \<Rightarrow> backend \<Rightarrow>
     launch \<times> bool list \<times> ((exchange \<times> bool list) \<times> http_request) list \<Rightarrow> backend" where
  "core_lifetime reject K checksum P s = (\<lambda>(l, fs, reqs).
     (case core_main checksum P l fs s of
        (Serving _ app, _) \<Rightarrow> app_db (foldl (core_step reject K) app reqs)
      | (_, s) \<Rightarrow> s))"

section \<open>Lemmas\<close>

text \<open>The requests that reach one of the two handlers of frames.\<close>

definition frame_route :: "http_request \<Rightarrow> bool" where
  "frame_route q \<longleftrightarrow> hq_method q = POST \<and> (hq_path q = ''/v1/sync'' \<or> hq_path q = ''/v1/long-poll'') \<and>
     length (hq_body q) \<le> CORE_BODY_LIMIT"

lemma core_service_frame:
  assumes "frame_route q"
  shows "core_service reject K (x, fs) q app =
    map_prod core_answer id (handle_binary K x app (hq_body q) (hq_path q = ''/v1/long-poll''))"
  using assms
  by (auto simp: core_service_def frame_route_def route_request_def core_routes_def binary_api_def binary_long_poll_def)

lemma core_service_other: "\<not> frame_route q \<Longrightarrow> snd (core_service reject K env q app) = app"
  by (auto simp: core_service_def frame_route_def route_request_def core_routes_def
      split: prod.split option.split if_split core_handler.split)

lemma core_step_eq:
  "core_step reject K app ((x, fs), q) =
     (if frame_route q then service_step K app (x, hq_body q, hq_path q = ''/v1/long-poll'') else app)"
  by (simp add: core_step_def core_service_frame core_service_other service_step_def)

lemma core_run:
  "foldl (core_step reject K) app reqs = foldl (service_step K) app
     (map (\<lambda>((x, fs), q). (x, hq_body q, hq_path q = ''/v1/long-poll'')) (filter (frame_route \<circ> snd) reqs))"
  by (induction reqs arbitrary: app) (auto simp: core_step_eq)

lemma core_main_serving:
  assumes "core_main checksum P l fs s = (Serving addr app, s')"
  shows "s' = s" "app = \<lparr>app_db = s, app_requests = 0, app_errors = 0\<rparr>"
  using assms by (auto simp: core_main_def Let_def split: option.splits if_splits prod.splits sum.splits)

lemma core_main_db:
  assumes "core_main checksum P l fs s = (p, s')"
  shows "keeps_schema s s' \<and> evolves s s'"
proof (cases "s' = s")
  case True
  then show ?thesis
    by (simp add: schema.refl progress.refl)
next
  case False
  with assms obtain r c where "pg_migrate checksum (on_pool s fs) = (r, c)" "s' = live c"
    by (auto simp: core_main_def Let_def split: option.splits if_splits prod.splits sum.splits)
  then show ?thesis
    using schema_api.pool [OF pg_migrate_schema] progress_api.pool [OF other_tables_progress(1)] by blast
qed

text \<open>A migration is recorded with its checksum, or leaves no trace.\<close>

lemma pg_migrate_ensures:
  "ensures (pg_migrate checksum) s (\<lambda>r s'. case r of
     Inl _ \<Rightarrow> s' = s
   | Inr _ \<Rightarrow> map_of (unwrap_or [] (schema_migrations s')) 1 = Some checksum)"
  unfolding pg_migrate_def pg_query_def
  by (auto simp: unwrap_or_def map_add_def split: option.splits)

lemma core_main_outcome:
  "case core_main checksum P l fs s of
     (Serving addr app, s') \<Rightarrow> s' = s \<and> app = \<lparr>app_db = s, app_requests = 0, app_errors = 0\<rparr>
   | (Finished, s') \<Rightarrow> map_of (unwrap_or [] (schema_migrations s')) 1 = Some checksum
   | (_, s') \<Rightarrow> s' = s"
proof (cases "pg_migrate checksum (on_pool s fs)")
  case (Pair r c)
  from ensures_run [OF pg_migrate_ensures this] show ?thesis
    using Pair by (auto simp: core_main_def Let_def split: option.splits if_splits sum.splits)
qed

lemma core_lifetime_keeps: "keeps_schema s (core_lifetime reject K checksum P s life) \<and> evolves s (core_lifetime reject K checksum P s life)"
proof -
  obtain l fs reqs where life: "life = (l, fs, reqs)"
    by (metis prod_cases3)
  obtain p s' where main: "core_main checksum P l fs s = (p, s')"
    by fastforce
  note db = core_main_db [OF main]
  show ?thesis
  proof (cases p)
    case (Serving addr app)
    note app = core_main_serving [OF main [unfolded Serving]]
    have "schema_ok s \<Longrightarrow> schema_ok (app_db (foldl (core_step reject K) app reqs))"
      unfolding core_run by (rule service.run_inv) (simp_all add: app list_all_iff)
    then show ?thesis
      using main Serving app service_run(1) [of app] by (simp add: life core_lifetime_def core_run keeps_schema_def)
  qed (use main db in \<open>simp_all add: life core_lifetime_def\<close>)
qed

interpretation lifetimes: transition_system "core_lifetime reject K checksum P" "\<lambda>_. True" schema_ok
  by unfold_locales (metis core_lifetime_keeps keeps_schema_def)

lemma lifetimes_evolve: "evolves s (foldl (core_lifetime reject K checksum P) s lives)"
  by (induction lives rule: rev_induct) (auto simp: progress.refl intro: progress.trans core_lifetime_keeps [THEN conjunct2])

section \<open>Property\<close>

text \<open>
  C4: the service stays consistent. From an empty database, over any number of processes that are
  started, migrate, fail to start or serve any requests at all on any route, whichever statements
  fail and whatever other connections do during a long poll, the tables satisfy the constraints of
  the schema and nothing spent is given back. A start that fails leaves the database as it was, a
  migration that finishes is recorded with its checksum, and a process that serves starts from what
  the database holds and counts exactly the requests that reach one of the two handlers of frames.
\<close>

theorem lifetimes_consistent:
  "let run = foldl (core_lifetime reject K checksum P) empty_backend
   in schema_ok (run us) \<and> evolves (run us) (run (us @ vs)) \<and>
      (case core_main checksum P l fs (run us) of
         (Serving addr app, s) \<Rightarrow> s = run us \<and> app_db app = s \<and>
           app_requests (foldl (core_step reject K) app reqs) = word_of_nat (length (filter (frame_route \<circ> snd) reqs))
       | (Finished, s) \<Rightarrow> map_of (unwrap_or [] (schema_migrations s)) 1 = Some checksum
       | (_, s) \<Rightarrow> s = run us)"
proof -
  let ?run = "foldl (core_lifetime reject K checksum P) empty_backend"
  obtain p s where main: "core_main checksum P l fs (?run us) = (p, s)"
    by fastforce
  have "schema_ok (?run us)" "evolves (?run us) (?run (us @ vs))"
    using lifetimes_evolve by (simp_all add: lifetimes.run_inv empty_schema_ok list_all_iff)
  moreover have "case (p, s) of
      (Serving addr app, s) \<Rightarrow> s = ?run us \<and> app = \<lparr>app_db = s, app_requests = 0, app_errors = 0\<rparr>
    | (Finished, s) \<Rightarrow> map_of (unwrap_or [] (schema_migrations s)) 1 = Some checksum
    | (_, s) \<Rightarrow> s = ?run us"
    using core_main_outcome [where P = P and l = l and fs = fs and s = "?run us" and checksum = checksum]
    by (auto simp: main split: process.splits)
  ultimately show ?thesis
    unfolding Let_def main by (cases p) (auto simp: core_run service_run(2))
qed

end
