(* ===== verification/Relay.thy ===== *)
theory Relay
  imports Core_Service
begin

text \<open>
  The opaque relay, \<open>services/relay/src/main.rs\<close>: its start, its routes, and forwarding of frames
  to the delivery service over HTTPS and over a WebSocket. The HTTP client is an argument: a
  function of the URL, the body and a world, which answers with a status and a body or does not.
  Then the delivery service itself in the place of that argument.
\<close>

section \<open>The relay\<close>

record RelayState =
  rl_core_sync_url :: string
  rl_core_long_poll_url :: string
  rl_core_health_url :: string

text \<open>\<open>trim_end_matches('/')\<close> of the configured address, and the URLs built on it.\<close>

definition trim_slashes :: "string \<Rightarrow> string" where
  "trim_slashes s = rev (dropWhile (\<lambda>c. c = CHR ''/'') (rev s))"

definition relay_state :: "string \<Rightarrow> RelayState" where
  "relay_state core_api_url =
     (let core = trim_slashes core_api_url in
      \<lparr>rl_core_sync_url = core @ ''/v1/sync'', rl_core_long_poll_url = core @ ''/v1/long-poll'',
       rl_core_health_url = core @ ''/healthz''\<rparr>)"

text \<open>
  A request to the delivery service: no answer within the time limit, or a status and the body,
  which may fail to arrive.
\<close>

datatype upstream = Unreachable | Answered status "bytes option"

type_synonym 'w http_client = "string \<Rightarrow> bytes \<Rightarrow> 'w \<Rightarrow> upstream \<times> 'w"

definition relay_cbor_response :: "status \<Rightarrow> bytes \<Rightarrow> http_answer" where
  "relay_cbor_response n v = \<lparr>ha_status = n, ha_content_type = ''application/cbor'', ha_body = v\<rparr>"

text \<open>\<open>status.as_u16().min(255) as u8\<close>\<close>

definition cbor_error :: "status \<Rightarrow> http_answer" where
  "cbor_error n = relay_cbor_response n [0x82, 0x01, word_of_nat (min n 255)]"

definition forward :: "'w http_client \<Rightarrow> RelayState \<Rightarrow> bytes \<Rightarrow> bool \<Rightarrow> 'w \<Rightarrow> (status, bytes) result \<times> 'w" where
  "forward post st body long_poll w =
     (case transport_decode body of
        Inl _ \<Rightarrow> (Inl 400, w)
      | Inr frame \<Rightarrow>
          (case post (if long_poll then rl_core_long_poll_url st else rl_core_sync_url st) body w of
             (Unreachable, w) \<Rightarrow> (Inl 502, w)
           | (Answered n v, w) \<Rightarrow>
               (if \<not> is_success n then Inl 502
                else case v of
                  None \<Rightarrow> Inl 502
                | Some b \<Rightarrow> (case transport_decode b of Inl _ \<Rightarrow> Inl 502 | Inr _ \<Rightarrow> Inr b), w)))"

definition relay_https :: "'w http_client \<Rightarrow> RelayState \<Rightarrow> bytes \<Rightarrow> 'w \<Rightarrow> http_answer \<times> 'w" where
  "relay_https post st body w =
     (case forward post st body False w of
        (Inr v, w) \<Rightarrow> (relay_cbor_response 200 v, w)
      | (Inl n, w) \<Rightarrow> (cbor_error n, w))"

definition relay_ready :: "(string \<Rightarrow> 'w \<Rightarrow> upstream \<times> 'w) \<Rightarrow> RelayState \<Rightarrow> 'w \<Rightarrow> status \<times> 'w" where
  "relay_ready get st w =
     (case get (rl_core_health_url st) w of
        (Answered n _, w) \<Rightarrow> (if is_success n then 200 else 503, w)
      | (Unreachable, w) \<Rightarrow> (503, w))"

subsection \<open>The WebSocket\<close>

text \<open>
  What arrives on the socket (\<open>None\<close> is an error), what is sent, and for each attempt to send
  whether it fails. The list of what arrives ends with the stream.
\<close>

datatype ws_message = WsBinary bytes | WsText bytes | WsPing bytes | WsPong bytes | WsClose

definition wants_long_poll :: "bytes \<Rightarrow> bool" where
  "wants_long_poll v = (case transport_decode v of Inl _ \<Rightarrow> False | Inr frame \<Rightarrow> tf_kind frame = SyncRequest)"

definition send_fails :: "bool list \<Rightarrow> bool" where
  "send_fails fs \<longleftrightarrow> fs \<noteq> [] \<and> hd fs"

fun websocket_loop :: "'w http_client \<Rightarrow> RelayState \<Rightarrow> ws_message option list \<Rightarrow> bool list \<Rightarrow> 'w \<Rightarrow> ws_message list \<times> 'w" where
  "websocket_loop post st [] fs w = ([], w)"
| "websocket_loop post st (m # ms) fs w =
     (case m of
        Some (WsBinary v) \<Rightarrow>
          (case forward post st v (wants_long_poll v) w of
             (Inr response, w) \<Rightarrow>
               if send_fails fs then ([], w)
               else (case websocket_loop post st ms (tl fs) w of (sent, w) \<Rightarrow> (WsBinary response # sent, w))
           | (Inl _, w) \<Rightarrow> (if send_fails fs then [] else [WsClose], w))
      | Some (WsPing v) \<Rightarrow>
          if send_fails fs then ([], w)
          else (case websocket_loop post st ms (tl fs) w of (sent, w) \<Rightarrow> (WsPong v # sent, w))
      | Some WsClose \<Rightarrow> ([], w)
      | None \<Rightarrow> ([], w)
      | Some _ \<Rightarrow> websocket_loop post st ms fs w)"

subsection \<open>Routes and start\<close>

datatype relay_handler = RelayHealthz | RelayReadyz | RelayHttps | RelayWebSocket

definition relay_routes :: "relay_handler routes" where
  "relay_routes =
     [(''/healthz'', GET, False, RelayHealthz), (''/readyz'', GET, False, RelayReadyz),
      (''/v1/relay'', POST, True, RelayHttps), (''/v1/ws'', GET, False, RelayWebSocket)]"

text \<open>
  One request. Whether a request for a WebSocket is granted is up to axum (\<open>upgrade\<close>); on the
  socket then runs \<open>websocket_loop\<close>, to which a message over the size limit arrives as an error.
\<close>

definition relay_service ::
    "(rejection \<Rightarrow> http_answer) \<Rightarrow> (http_request \<Rightarrow> http_answer) \<Rightarrow> 'w http_client \<Rightarrow>
     (string \<Rightarrow> 'w \<Rightarrow> upstream \<times> 'w) \<Rightarrow> RelayState \<Rightarrow> http_request \<Rightarrow> 'w \<Rightarrow> http_answer \<times> 'w" where
  "relay_service reject upgrade post get st q w =
     (case route_request relay_routes MAX_FRAME_SIZE q of
        Inl r \<Rightarrow> (reject r, w)
      | Inr RelayHealthz \<Rightarrow> (status_answer 200, w)
      | Inr RelayReadyz \<Rightarrow> map_prod status_answer id (relay_ready get st w)
      | Inr RelayHttps \<Rightarrow> relay_https post st (hq_body q) w
      | Inr RelayWebSocket \<Rightarrow> (upgrade q, w))"

definition relay_main :: "'a platform \<Rightarrow> launch \<Rightarrow> ('a, RelayState) process" where
  "relay_main P l =
     (let state = relay_state (env_or ''CORE_API_URL'' l ''http://core-api:8080'') in
      if \<not> pf_http_client P then Panicked ''HTTP client''
      else case pf_socket_addr P (env_or ''BIND_ADDR'' l ''0.0.0.0:8081'') of
        None \<Rightarrow> Panicked ''BIND_ADDR''
      | Some addr \<Rightarrow> if pf_bind P addr then Serving addr state else Panicked ''relay bind'')"

section \<open>The delivery service behind the relay\<close>

text \<open>
  The HTTP client when the delivery service is at the address \<open>base\<close>. The world is the service and
  what its next requests meet; without one the service does not answer.
\<close>

definition core_http ::
    "(rejection \<Rightarrow> http_answer) \<Rightarrow> crypto \<Rightarrow> string \<Rightarrow> http_method \<Rightarrow> (App \<times> exchange list) http_client" where
  "core_http reject K base m url body =
     (\<lambda>(app, xs). case xs of
        [] \<Rightarrow> (Unreachable, (app, []))
      | x # xs \<Rightarrow>
          if take (length base) url \<noteq> base then (Unreachable, (app, x # xs))
          else case core_service reject K (x, [])
                 \<lparr>hq_method = m, hq_path = drop (length base) url, hq_body = body\<rparr> app of
            (p, app) \<Rightarrow> (Answered (ha_status p) (Some (ha_body p)), (app, xs)))"

definition core_client :: "(rejection \<Rightarrow> http_answer) \<Rightarrow> crypto \<Rightarrow> string \<Rightarrow> (App \<times> exchange list) http_client" where
  "core_client reject K base = core_http reject K base POST"

definition core_get ::
    "(rejection \<Rightarrow> http_answer) \<Rightarrow> crypto \<Rightarrow> string \<Rightarrow> string \<Rightarrow> App \<times> exchange list \<Rightarrow> upstream \<times> (App \<times> exchange list)" where
  "core_get reject K base url = core_http reject K base GET url []"

section \<open>Lemmas\<close>

lemma success_OK: "is_success (status_number c) \<longleftrightarrow> c = OK"
  by (cases c) (auto simp: is_success_def)

text \<open>What the relay makes of an answer of the service.\<close>

definition relayed :: "http_response \<Rightarrow> (status, bytes) result" where
  "relayed p = (if hr_status p = OK \<and> hr_body p \<noteq> [] then Inr (hr_body p) else Inl 502)"

lemma decoded_fits: "transport_decode body = Inr frame \<Longrightarrow> length body \<le> MAX_FRAME_SIZE"
  by (auto simp: transport_decode_def split: if_splits)

lemma decode_empty: "transport_decode [] = Inl Truncated"
  by (simp add: transport_decode_def dec_array_len_def dec_head_def MAX_FRAME_SIZE_def)

lemma answer_relayed:
  assumes "answered_well body p"
  shows "\<not> is_success (status_number (hr_status p)) \<Longrightarrow> relayed p = Inl 502"
    and "is_success (status_number (hr_status p)) \<Longrightarrow>
      relayed p = (case transport_decode (hr_body p) of Inl _ \<Rightarrow> Inl 502 | Inr _ \<Rightarrow> Inr (hr_body p))"
  using assms
  by (auto simp: relayed_def success_OK answered_well_def decode_empty split: sum.splits if_splits)

lemma forward_core:
  assumes "transport_decode body = Inr frame"
  shows "forward (core_client reject K (trim_slashes url)) (relay_state url) body long_poll (app, x # xs) =
    (case handle_binary K x app body long_poll of (p, app') \<Rightarrow> (relayed p, (app', xs)))"
proof -
  obtain p app' where run: "handle_binary K x app body long_poll = (p, app')"
    by fastforce
  then have "answered_well body p"
    using handle_binary_outcome [where K = K and x = x and app = app and body = body and long_poll = long_poll] by simp
  note [simp] = answer_relayed [OF this]
  have "length body \<le> CORE_BODY_LIMIT"
    using decoded_fits [OF assms] by (simp add: CORE_BODY_LIMIT_def MAX_FRAME_SIZE_def)
  then have route: "frame_route \<lparr>hq_method = POST, hq_path = (if long_poll then ''/v1/long-poll'' else ''/v1/sync''), hq_body = body\<rparr>"
    by (simp add: frame_route_def)
  show ?thesis
    using run core_service_frame [OF route] by (cases long_poll)
      (simp_all add: forward_def assms core_client_def core_http_def relay_state_def Let_def core_answer_def)
qed

lemma forward_malformed: "transport_decode body = Inl e \<Longrightarrow> forward post st body long_poll w = (Inl 400, w)"
  by (simp add: forward_def)

section \<open>Property\<close>

text \<open>
  C15: the relay is transparent. A body that is no frame never reaches the delivery service. Any
  other is handled by the service exactly as if it had been posted there directly, and the client
  gets byte for byte the frame that the service answered with; answers that are errors or empty
  become a 502, after the service has handled the request. On a WebSocket, sync requests go to the
  long-poll route, everything else to the sync route, and each answer is sent as it is.
\<close>

theorem relay_transparent:
  "case transport_decode body of
     Inl _ \<Rightarrow> relay_https (core_client reject K (trim_slashes url)) (relay_state url) body (app, x # xs) = (cbor_error 400, (app, x # xs)) \<and>
       websocket_loop (core_client reject K (trim_slashes url)) (relay_state url) (Some (WsBinary body) # ms) [] (app, x # xs) =
         ([WsClose], (app, x # xs))
   | Inr frame \<Rightarrow>
       relay_https (core_client reject K (trim_slashes url)) (relay_state url) body (app, x # xs) =
         (case binary_api K x app body of (p, app') \<Rightarrow>
            (if hr_status p = OK \<and> hr_body p \<noteq> [] then relay_cbor_response 200 (hr_body p) else cbor_error 502, (app', xs))) \<and>
       websocket_loop (core_client reject K (trim_slashes url)) (relay_state url) (Some (WsBinary body) # ms) [] (app, x # xs) =
         (case handle_binary K x app body (tf_kind frame = SyncRequest) of (p, app') \<Rightarrow>
            if hr_status p = OK \<and> hr_body p \<noteq> []
            then (case websocket_loop (core_client reject K (trim_slashes url)) (relay_state url) ms [] (app', xs) of
                    (sent, w) \<Rightarrow> (WsBinary (hr_body p) # sent, w))
            else ([WsClose], (app', xs)))"
  by (auto simp: relay_https_def forward_core forward_malformed binary_api_def wants_long_poll_def relayed_def
      send_fails_def split: sum.split prod.split)

end
