(* ===== verification/Transport_Manager.thy ===== *)
theory Transport_Manager
  imports Relay_Directory Tables
begin

text \<open>
  \<open>NetworkSender\<close> and \<open>TransportManager\<close>, the second part of
  \<open>crates/messenger-transport/src/lib.rs\<close>: the queue of frames, the health of each relay, and
  \<open>flush\<close>, which sends each frame to the relays in order, by WebSocket and then by HTTPS. What
  the sockets do is an interface (a record of functions over the state of the outside world).
\<close>

section \<open>Senders\<close>

text \<open>The trait \<open>EndpointSender\<close>; \<open>'w\<close> is the outside world that the calls change.\<close>

record 'w EndpointSender =
  send_websocket :: "RelayEndpoint \<Rightarrow> bytes \<Rightarrow> 'w \<Rightarrow> (TransportError, bytes) result \<times> 'w"
  send_https :: "RelayEndpoint \<Rightarrow> bytes \<Rightarrow> 'w \<Rightarrow> (TransportError, bytes) result \<times> 'w"

text \<open>
  What \<open>tokio_tungstenite\<close> and \<open>reqwest\<close> report: whether the connection was made within the
  timeout, whether the message was sent, what the next message of the socket is (\<open>WsTimeout\<close>
  when none comes in time, \<open>WsOther\<close> for an error, the end of the stream or a message that is
  not binary), and how a POST ends (\<open>HttpFailed\<close> when no response comes, \<open>HttpRefused\<close> when its
  status is not 2xx, \<open>HttpBroken\<close> when reading the body fails).
\<close>

datatype ws_reply = WsTimeout | WsBinary bytes | WsOther

datatype http_reply = HttpFailed | HttpRefused | HttpBroken | HttpBody bytes

record 'w network =
  net_connect :: "bytes \<Rightarrow> 'w \<Rightarrow> bool \<times> 'w"
  net_send :: "bytes \<Rightarrow> bytes \<Rightarrow> 'w \<Rightarrow> bool \<times> 'w"
  net_next :: "bytes \<Rightarrow> 'w \<Rightarrow> ws_reply \<times> 'w"
  net_post :: "bytes \<Rightarrow> bytes \<Rightarrow> 'w \<Rightarrow> http_reply \<times> 'w"

definition network_send_websocket ::
    "'w network \<Rightarrow> RelayEndpoint \<Rightarrow> bytes \<Rightarrow> 'w \<Rightarrow> (TransportError, bytes) result \<times> 'w" where
  "network_send_websocket N e frame w =
     (let (connected, w) = net_connect N (re_websocket_url e) w in
      if \<not> connected then (Inl Unavailable, w)
      else let (sent, w) = net_send N (re_websocket_url e) frame w in
        if \<not> sent then (Inl Unavailable, w)
        else case net_next N (re_websocket_url e) w of
          (WsTimeout, w) \<Rightarrow> (Inl Unavailable, w)
        | (WsBinary v, w) \<Rightarrow> (if length v \<le> MAX_FRAME_SIZE then Inr v else Inl InvalidResponse, w)
        | (WsOther, w) \<Rightarrow> (Inl InvalidResponse, w))"

definition network_send_https ::
    "'w network \<Rightarrow> RelayEndpoint \<Rightarrow> bytes \<Rightarrow> 'w \<Rightarrow> (TransportError, bytes) result \<times> 'w" where
  "network_send_https N e frame w =
     (case net_post N (re_https_url e) frame w of
        (HttpFailed, w) \<Rightarrow> (Inl Unavailable, w)
      | (HttpRefused, w) \<Rightarrow> (Inl Unavailable, w)
      | (HttpBroken, w) \<Rightarrow> (Inl InvalidResponse, w)
      | (HttpBody v, w) \<Rightarrow> (if length v > MAX_FRAME_SIZE then Inl FrameTooLarge else Inr v, w))"

definition NetworkSender :: "'w network \<Rightarrow> 'w EndpointSender" where
  "NetworkSender N = \<lparr>send_websocket = network_send_websocket N, send_https = network_send_https N\<rparr>"

section \<open>The manager\<close>

record QueuedFrame =
  qf_client_message_id :: bytes
  qf_bytes :: bytes

record Health =
  he_failures :: u32
  he_retry_after :: u64

record ByteCounters =
  bc_sent :: u64
  bc_received :: u64
  bc_attempts :: u64
  bc_websocket_failures :: u64
  bc_https_failures :: u64
  bc_relay_switches :: u64

text \<open>The hash map of the relays' health is an association list, one entry per endpoint.\<close>

record TransportManager =
  tm_directory :: SignedRelayDirectory
  tm_verification_key :: bytes
  tm_outbox :: "QueuedFrame list"
  tm_health :: "(bytes \<times> Health) list"
  tm_counters :: ByteCounters
  tm_preferred_endpoint :: "bytes option"

definition health_default :: Health where
  "health_default = \<lparr>he_failures = 0, he_retry_after = 0\<rparr>"

definition counters_default :: ByteCounters where
  "counters_default = \<lparr>bc_sent = 0, bc_received = 0, bc_attempts = 0, bc_websocket_failures = 0,
     bc_https_failures = 0, bc_relay_switches = 0\<rparr>"

definition manager_new ::
    "ed25519 \<Rightarrow> SignedRelayDirectory \<Rightarrow> bytes \<Rightarrow> u64 \<Rightarrow> (TransportError, TransportManager) result" where
  "manager_new E directory verification_key now =
     and_then (directory_verify E verification_key now 0 directory) (\<lambda>_.
     Inr \<lparr>tm_directory = directory, tm_verification_key = verification_key, tm_outbox = [],
          tm_health = [], tm_counters = counters_default, tm_preferred_endpoint = None\<rparr>)"

definition update_directory ::
    "ed25519 \<Rightarrow> SignedRelayDirectory \<Rightarrow> u64 \<Rightarrow> TransportManager \<Rightarrow>
     (TransportError, unit) result \<times> TransportManager" where
  "update_directory E nxt now m =
     (case directory_verify E (tm_verification_key m) now (rd_version (tm_directory m)) nxt of
        Inl e \<Rightarrow> (Inl e, m)
      | Inr _ \<Rightarrow> (Inr (), m\<lparr>tm_directory := nxt\<rparr>))"

definition enqueue :: "TransportFrame \<Rightarrow> TransportManager \<Rightarrow> (TransportError, unit) result \<times> TransportManager" where
  "enqueue frame m =
     (case transport_encode frame of
        Inl _ \<Rightarrow> (Inl FrameTooLarge, m)
      | Inr b \<Rightarrow>
          if list_ex (\<lambda>q. qf_client_message_id q = tf_client_message_id frame) (tm_outbox m) then (Inr (), m)
          else (Inr (), m\<lparr>tm_outbox := tm_outbox m @
             [\<lparr>qf_client_message_id = tf_client_message_id frame, qf_bytes = b\<rparr>]\<rparr>))"

definition pending_count :: "TransportManager \<Rightarrow> nat" where
  "pending_count m = length (tm_outbox m)"

definition notify_network_change :: "TransportManager \<Rightarrow> TransportManager" where
  "notify_network_change m =
     m\<lparr>tm_health := map (\<lambda>(i, h). (i, h\<lparr>he_retry_after := 0\<rparr>)) (tm_health m)\<rparr>"

definition next_retry_at :: "TransportManager \<Rightarrow> u64 option" where
  "next_retry_at m =
     (case map (he_retry_after \<circ> snd) (filter (\<lambda>(_, h). he_retry_after h > 0) (tm_health m)) of
        [] \<Rightarrow> None
      | t # ts \<Rightarrow> Some (fold min ts t))"

subsection \<open>Flushing the queue\<close>

text \<open>\<open>self.health.entry(id).or_default()\<close> and the update of the entry.\<close>

definition health_of :: "bytes \<Rightarrow> TransportManager \<Rightarrow> Health" where
  "health_of i m = (case map_of (tm_health m) i of None \<Rightarrow> health_default | Some h \<Rightarrow> h)"

definition set_health :: "bytes \<Rightarrow> Health \<Rightarrow> TransportManager \<Rightarrow> TransportManager" where
  "set_health i h m = m\<lparr>tm_health :=
     (if map_of (tm_health m) i = None then tm_health m @ [(i, h)]
      else map (\<lambda>(j, g). if j = i then (j, h) else (j, g)) (tm_health m))\<rparr>"

text \<open>The counters are \<open>u64\<close>; \<open>+=\<close> wraps in a release build.\<close>

definition count_attempt :: "nat \<Rightarrow> TransportManager \<Rightarrow> TransportManager" where
  "count_attempt n m = m\<lparr>tm_counters := (tm_counters m)\<lparr>
     bc_attempts := bc_attempts (tm_counters m) + 1,
     bc_sent := bc_sent (tm_counters m) + word_of_nat n\<rparr>\<rparr>"

definition count_websocket_failure :: "TransportManager \<Rightarrow> TransportManager" where
  "count_websocket_failure m = m\<lparr>tm_counters := (tm_counters m)\<lparr>
     bc_websocket_failures := bc_websocket_failures (tm_counters m) + 1\<rparr>\<rparr>"

text \<open>Send one frame to one endpoint: by WebSocket, and when that fails by HTTPS.\<close>

definition send_endpoint ::
    "'w EndpointSender \<Rightarrow> RelayEndpoint \<Rightarrow> bytes \<Rightarrow> TransportManager \<Rightarrow> 'w \<Rightarrow>
     (TransportError, bytes) result \<times> TransportManager \<times> 'w" where
  "send_endpoint S e frame m w =
     (let m = count_attempt (length frame) m in
      case send_websocket S e frame w of
        (Inr v, w) \<Rightarrow> (Inr v, m, w)
      | (Inl _, w) \<Rightarrow>
          let m = count_attempt (length frame) (count_websocket_failure m);
              (r, w) = send_https S e frame w
          in (r, m, w))"

text \<open>
  \<open>retry_after = now.saturating_add(base + jitter)\<close> with \<open>base = 1 << min(failures, 8)\<close> and
  \<open>jitter = endpoint_id[0] % max(base, 1)\<close>. Indexing an empty identifier would panic; the Rust
  type is \<open>[u8; 16]\<close>.
\<close>

definition retry_after :: "u64 \<Rightarrow> u32 \<Rightarrow> bytes \<Rightarrow> u64" where
  "retry_after now failures endpoint_id =
     (let base = push_bit (unat (min failures 8)) 1 :: u64;
          jitter = ucast (hd endpoint_id) mod max base 1
      in saturating_add64 now (base + jitter))"

definition saturating_inc32 :: "u32 \<Rightarrow> u32" where
  "saturating_inc32 n = (if n = - 1 then n else n + 1)"

definition note_success :: "RelayEndpoint \<Rightarrow> bytes option \<Rightarrow> nat \<Rightarrow> TransportManager \<Rightarrow> TransportManager" where
  "note_success e highest n m =
     (let m = set_health (re_endpoint_id e) \<lparr>he_failures = 0, he_retry_after = 0\<rparr> m;
          m = m\<lparr>tm_counters := (tm_counters m)\<lparr>bc_received := bc_received (tm_counters m) + word_of_nat n\<rparr>\<rparr>;
          m = (if tm_preferred_endpoint m \<noteq> Some (re_endpoint_id e) \<and>
                  (tm_preferred_endpoint m \<noteq> None \<or> highest \<noteq> Some (re_endpoint_id e))
               then m\<lparr>tm_counters := (tm_counters m)\<lparr>
                      bc_relay_switches := bc_relay_switches (tm_counters m) + 1\<rparr>\<rparr>
               else m)
      in m\<lparr>tm_preferred_endpoint := Some (re_endpoint_id e)\<rparr>)"

definition note_failure :: "u64 \<Rightarrow> RelayEndpoint \<Rightarrow> TransportManager \<Rightarrow> TransportManager" where
  "note_failure now e m =
     (let m = m\<lparr>tm_counters := (tm_counters m)\<lparr>
                  bc_https_failures := bc_https_failures (tm_counters m) + 1\<rparr>\<rparr>;
          failures = saturating_inc32 (he_failures (health_of (re_endpoint_id e) m))
      in set_health (re_endpoint_id e)
           \<lparr>he_failures = failures, he_retry_after = retry_after now failures (re_endpoint_id e)\<rparr> m)"

text \<open>The \<open>for\<close> loop over the endpoints; it stops at the first response.\<close>

fun try_endpoints ::
    "'w EndpointSender \<Rightarrow> u64 \<Rightarrow> bytes \<Rightarrow> bytes option \<Rightarrow> RelayEndpoint list \<Rightarrow> TransportManager \<Rightarrow> 'w \<Rightarrow>
     bytes option \<times> TransportManager \<times> 'w" where
  "try_endpoints S now frame highest [] m w = (None, m, w)"
| "try_endpoints S now frame highest (e # es) m w =
     (let health = health_of (re_endpoint_id e) m;
          m = set_health (re_endpoint_id e) health m
      in if he_retry_after health > now then try_endpoints S now frame highest es m w
         else case send_endpoint S e frame m w of
           (Inr v, m, w) \<Rightarrow> (Some v, note_success e highest (length v) m, w)
         | (Inl _, m, w) \<Rightarrow> try_endpoints S now frame highest es (note_failure now e m) w)"

text \<open>The preferred endpoint first, then by priority, then in the order of the directory.\<close>

definition route :: "TransportManager \<Rightarrow> RelayEndpoint list" where
  "route m = sort_key (\<lambda>e. (tm_preferred_endpoint m \<noteq> Some (re_endpoint_id e), re_priority e))
     (rd_endpoints (tm_directory m))"

definition send_frame ::
    "'w EndpointSender \<Rightarrow> u64 \<Rightarrow> bytes \<Rightarrow> TransportManager \<Rightarrow> 'w \<Rightarrow> bytes option \<times> TransportManager \<times> 'w" where
  "send_frame S now frame m w =
     (let endpoints = route m;
          highest = (case endpoints of [] \<Rightarrow> None | e # _ \<Rightarrow> Some (re_endpoint_id e))
      in try_endpoints S now frame highest endpoints m w)"

text \<open>
  The \<open>while let\<close> loop: a frame leaves the queue once a relay has answered; the first frame
  that no relay answers ends the loop with \<open>Unavailable\<close>.
\<close>

fun flush_loop ::
    "'w EndpointSender \<Rightarrow> u64 \<Rightarrow> QueuedFrame list \<Rightarrow> bytes list \<Rightarrow> TransportManager \<Rightarrow> 'w \<Rightarrow>
     (TransportError, bytes list) result \<times> TransportManager \<times> 'w" where
  "flush_loop S now [] responses m w = (Inr responses, m, w)"
| "flush_loop S now (q # qs) responses m w =
     (case send_frame S now (qf_bytes q) m w of
        (Some v, m, w) \<Rightarrow> flush_loop S now qs (responses @ [v]) (m\<lparr>tm_outbox := qs\<rparr>) w
      | (None, m, w) \<Rightarrow> (Inl Unavailable, m, w))"

definition flush ::
    "'w EndpointSender \<Rightarrow> u64 \<Rightarrow> TransportManager \<Rightarrow> 'w \<Rightarrow>
     (TransportError, bytes list) result \<times> TransportManager \<times> 'w" where
  "flush S now m w = flush_loop S now (tm_outbox m) [] m w"

end
