(* ===== verification/Transport_Correct.thy ===== *)
theory Transport_Correct
  imports Transport_Manager
begin

text \<open>
  What the relay directory and the transport manager promise: the codec of the directory, what
  a signature covers, that an accepted directory never goes back, that \<open>flush\<close> answers every
  frame in order or keeps the rest of the queue, which relays it contacts, its backoff, and
  that it delivers as soon as one relay answers.
\<close>

section \<open>The health table\<close>

lemma map_of_update: "map_of (map (\<lambda>(j, g). if j = i then (j, h) else (j, g)) xs) k =
    (if k = i then map_option (\<lambda>_. h) (map_of xs i) else map_of xs k)"
  by (induction xs) auto

lemma health_of_set_health [simp]:
  "health_of j (set_health i h m) = (if j = i then h else health_of j m)"
  by (auto simp: health_of_def set_health_def map_of_update map_add_def split: option.splits)

lemma set_health_frame [simp]:
  "tm_directory (set_health i h m) = tm_directory m"
  "tm_verification_key (set_health i h m) = tm_verification_key m"
  "tm_outbox (set_health i h m) = tm_outbox m"
  "tm_counters (set_health i h m) = tm_counters m"
  "tm_preferred_endpoint (set_health i h m) = tm_preferred_endpoint m"
  by (simp_all add: set_health_def)

lemma health_of_frame [simp]:
  "health_of i (m\<lparr>tm_counters := c\<rparr>) = health_of i m"
  "health_of i (m\<lparr>tm_preferred_endpoint := p\<rparr>) = health_of i m"
  "health_of i (m\<lparr>tm_outbox := q\<rparr>) = health_of i m"
  "health_of i (m\<lparr>tm_directory := d\<rparr>) = health_of i m"
  by (simp_all add: health_of_def)

lemma note_success_frame [simp]:
  "tm_directory (note_success e h n m) = tm_directory m"
  "tm_verification_key (note_success e h n m) = tm_verification_key m"
  "tm_outbox (note_success e h n m) = tm_outbox m"
  "tm_preferred_endpoint (note_success e h n m) = Some (re_endpoint_id e)"
  "health_of i (note_success e h n m) = (if i = re_endpoint_id e then health_default else health_of i m)"
  by (simp_all add: note_success_def Let_def health_default_def)

lemma note_failure_frame [simp]:
  "tm_directory (note_failure now e m) = tm_directory m"
  "tm_verification_key (note_failure now e m) = tm_verification_key m"
  "tm_outbox (note_failure now e m) = tm_outbox m"
  "tm_preferred_endpoint (note_failure now e m) = tm_preferred_endpoint m"
  "he_retry_after (health_of i (note_failure now e m)) =
     (if i = re_endpoint_id e
      then retry_after now (saturating_inc32 (he_failures (health_of (re_endpoint_id e) m))) (re_endpoint_id e)
      else he_retry_after (health_of i m))"
  by (simp_all add: note_failure_def Let_def)

section \<open>One endpoint\<close>

text \<open>What a relay does with a frame: by WebSocket, else by HTTPS.\<close>

definition relay_answer :: "'w EndpointSender \<Rightarrow> RelayEndpoint \<Rightarrow> bytes \<Rightarrow> 'w \<Rightarrow> bytes option \<times> 'w" where
  "relay_answer S e frame w =
     (case send_websocket S e frame w of
        (Inr v, w) \<Rightarrow> (Some v, w)
      | (Inl _, w) \<Rightarrow> (case send_https S e frame w of (Inr v, w) \<Rightarrow> (Some v, w) | (Inl _, w) \<Rightarrow> (None, w)))"

definition counted :: "TransportManager \<Rightarrow> TransportManager \<Rightarrow> bool" where
  "counted m m' \<longleftrightarrow> (\<exists>c. m' = m\<lparr>tm_counters := c\<rparr>)"

lemma counted_frame:
  assumes "counted m m'"
  shows "tm_directory m' = tm_directory m" "tm_verification_key m' = tm_verification_key m"
    "tm_outbox m' = tm_outbox m" "tm_preferred_endpoint m' = tm_preferred_endpoint m"
    "health_of i m' = health_of i m"
  using assms by (auto simp: counted_def)

lemma send_endpoint_answer:
  assumes "send_endpoint S e frame m w = (r, m', w')"
  shows "counted m m'"
    "relay_answer S e frame w = (case r of Inr v \<Rightarrow> (Some v, w') | Inl _ \<Rightarrow> (None, w'))"
  using assms
  by (auto simp: send_endpoint_def relay_answer_def Let_def counted_def count_attempt_def
      count_websocket_failure_def split: prod.splits sum.splits)

section \<open>The view of the relays, and the abstract flush\<close>

text \<open>
  The abstract state of a flush at a fixed time: the relays not to contact, the preferred one
  and the queue. A relay that does not answer is not contacted again in the same flush.
\<close>

record relay_view =
  rv_blocked :: "bytes set"
  rv_preferred :: "bytes option"
  rv_queue :: "QueuedFrame list"

definition view :: "u64 \<Rightarrow> TransportManager \<Rightarrow> relay_view" where
  "view now m = \<lparr>rv_blocked = {i. he_retry_after (health_of i m) > now},
     rv_preferred = tm_preferred_endpoint m, rv_queue = tm_outbox m\<rparr>"

fun ask_in_order :: "'w EndpointSender \<Rightarrow> bytes \<Rightarrow> RelayEndpoint list \<Rightarrow> relay_view \<Rightarrow> 'w \<Rightarrow>
    bytes option \<times> relay_view \<times> 'w" where
  "ask_in_order S frame [] rv w = (None, rv, w)"
| "ask_in_order S frame (e # es) rv w =
     (if re_endpoint_id e \<in> rv_blocked rv then ask_in_order S frame es rv w
      else case relay_answer S e frame w of
        (Some v, w) \<Rightarrow> (Some v, rv\<lparr>rv_preferred := Some (re_endpoint_id e)\<rparr>, w)
      | (None, w) \<Rightarrow>
          ask_in_order S frame es (rv\<lparr>rv_blocked := insert (re_endpoint_id e) (rv_blocked rv)\<rparr>) w)"

definition preference :: "RelayEndpoint list \<Rightarrow> relay_view \<Rightarrow> RelayEndpoint list" where
  "preference es rv = sort_key re_priority (filter (\<lambda>e. rv_preferred rv = Some (re_endpoint_id e)) es) @
     sort_key re_priority (filter (\<lambda>e. rv_preferred rv \<noteq> Some (re_endpoint_id e)) es)"

fun drain :: "'w EndpointSender \<Rightarrow> RelayEndpoint list \<Rightarrow> QueuedFrame list \<Rightarrow> bytes list \<Rightarrow> relay_view \<Rightarrow> 'w \<Rightarrow>
    (TransportError, bytes list) result \<times> relay_view \<times> 'w" where
  "drain S es [] responses rv w = (Inr responses, rv, w)"
| "drain S es (q # qs) responses rv w =
     (case ask_in_order S (qf_bytes q) (preference es rv) rv w of
        (Some v, rv, w) \<Rightarrow> drain S es qs (responses @ [v]) (rv\<lparr>rv_queue := qs\<rparr>) w
      | (None, rv, w) \<Rightarrow> (Inl Unavailable, rv, w))"

lemma sort_key_split:
  "sort_key (\<lambda>e. (p e, f e)) xs =
     sort_key f (filter (\<lambda>e. \<not> p e) xs) @ sort_key f (filter p xs)" (is "_ = ?ys")
proof (rule properties_for_sort_key)
  show "mset ?ys = mset xs"
    by (induction xs) auto
next
  fix k
  have "sort_key f (filter (\<lambda>x. Q x \<and> c = f x) xs) = filter (\<lambda>x. Q x \<and> c = f x) xs" for Q c
    by (rule sort_key_id_if_sorted) (induction xs, auto)
  then show "filter (\<lambda>x. (p k, f k) = (p x, f x)) ?ys = filter (\<lambda>x. (p k, f k) = (p x, f x)) xs"
    by (cases "p k") (auto simp: filter_sort filter_empty_conv conj_commute)
next
  have "sorted (map (\<lambda>e. (p e, f e)) (sort_key f ys))" if "\<forall>y \<in> set ys. p y = c" for ys c
    using sorted_sort_key [of f ys] that unfolding sorted_map
    by (elim sorted_wrt_mono_rel [rotated]) simp
  from this [of "filter p xs" True] this [of "filter (\<lambda>e. \<not> p e) xs" False]
  show "sorted (map (\<lambda>e. (p e, f e)) ?ys)"
    by (auto simp: sorted_append)
qed

lemma preference_route: "preference (rd_endpoints (tm_directory m)) (view now m) = route m"
  by (simp add: preference_def route_def sort_key_split view_def)

lemma backoff_delay:
  assumes "base = (push_bit (unat (min (n :: u32) 8)) 1 :: u64)" "j = (ucast (b :: byte) mod max base 1 :: u64)"
  shows "0 < unat (base + j)" "unat (base + j) \<le> 511"
proof -
  have k: "unat (min n 8) \<le> 8"
    using min.cobounded2 [of n 8] by (simp add: word_le_nat_alt)
  then have "unat (min n 8) < 64"
    by simp
  then have "take_bit 64 ((2 :: nat) ^ unat (min n 8)) = 2 ^ unat (min n 8)"
    by (simp add: take_bit_nat_eq_self_iff)
  moreover have "base = word_of_nat (2 ^ unat (min n 8))"
    using assms(1) by simp
  ultimately have "unat base = 2 ^ unat (min n 8)"
    by (simp only: unsigned_of_nat) simp
  then have base: "1 \<le> unat base" "unat base \<le> 256"
    using power_increasing [OF k, of "2 :: nat"] by simp_all
  then have "max base 1 = base"
    by (metis max.absorb1 unat_1 word_le_nat_alt)
  then have "unat j < unat base"
    using assms(2) base by (simp add: unat_mod) 
  moreover from this base have "unat (base + j) = unat base + unat j"
    by (simp add: unat_word_ariths)
  ultimately show "0 < unat (base + j)" "unat (base + j) \<le> 511"
    using base by simp_all
qed

lemma retry_after_bounds:
  "unat (retry_after now n i) \<le> unat now + 511"
  "now < - 1 \<Longrightarrow> now < retry_after now n i"
proof -
  define base j where "base = (push_bit (unat (min n 8)) 1 :: u64)" "j = (ucast (hd i) mod max base 1 :: u64)"
  note d = backoff_delay [OF this]
  have r: "unat (retry_after now n i) = min (unat now + unat (base + j)) (2 ^ 64 - 1)"
    by (simp only: retry_after_def Let_def unat_saturating_add64 base_j_def)
  show "unat (retry_after now n i) \<le> unat now + 511"
    using d(2) by (simp add: r)
  assume "now < - 1"
  then have "unat now < 2 ^ 64 - 1"
    by (simp add: word_less_nat_alt unsigned_minus_1_eq_mask mask_eq_exp_minus_1)
  then show "now < retry_after now n i"
    using d(1) by (simp add: word_less_nat_alt r)
qed

lemma view_simps [simp]:
  "rv_preferred (view now m) = tm_preferred_endpoint m" "rv_queue (view now m) = tm_outbox m"
  "i \<in> rv_blocked (view now m) \<longleftrightarrow> he_retry_after (health_of i m) > now"
  by (simp_all add: view_def)

lemma view_set_default: "view now (set_health i (health_of i m) m) = view now m"
  by (auto simp: view_def)

lemma try_endpoints_view:
  assumes "now < - 1"
  shows "try_endpoints S now frame highest es m w = (v, m', w') \<Longrightarrow>
    ask_in_order S frame es (view now m) w = (v, view now m', w')"
proof (induction es arbitrary: m w)
  case Nil
  then show ?case by simp
next
  case (Cons e es)
  let ?i = "re_endpoint_id e"
  let ?m1 = "set_health ?i (health_of ?i m) m"
  show ?case
  proof (cases "he_retry_after (health_of ?i m) > now")
    case True
    with Cons.prems have "try_endpoints S now frame highest es ?m1 w = (v, m', w')"
      by (simp add: Let_def)
    with Cons.IH True show ?thesis
      by (simp flip: view_set_default [of now ?i m])
  next
    case False
    obtain r m2 w2 where send: "send_endpoint S e frame ?m1 w = (r, m2, w2)"
      by (metis prod_cases3)
    note ans = send_endpoint_answer [OF send]
    show ?thesis
    proof (cases r)
      case (Inl x)
      then have "try_endpoints S now frame highest es (note_failure now e m2) w2 = (v, m', w')"
        using Cons.prems False send by (simp add: Let_def)
      moreover have "view now (note_failure now e m2) = (view now m)\<lparr>rv_blocked := insert ?i (rv_blocked (view now m))\<rparr>"
        using counted_frame [OF ans(1)] assms
        by (auto simp: view_def retry_after_bounds(2))
      ultimately show ?thesis
        using Cons.IH [of "note_failure now e m2" w2] ans Inl False by simp
    next
      case (Inr x)
      then have "v = Some x" "m' = note_success e highest (length x) m2" "w' = w2"
        using Cons.prems False send by (simp_all add: Let_def)
      moreover have "view now (note_success e highest (length x) m2) = (view now m)\<lparr>rv_preferred := Some ?i\<rparr>"
        using counted_frame [OF ans(1)] False by (auto simp: view_def health_default_def)
      ultimately show ?thesis
        using ans Inr False by simp
    qed
  qed
qed

lemma send_frame_view:
  assumes "now < - 1" "send_frame S now frame m w = (v, m', w')"
  shows "ask_in_order S frame (preference (rd_endpoints (tm_directory m)) (view now m)) (view now m) w =
    (v, view now m', w')"
  using try_endpoints_view [OF assms(1)] assms(2) by (simp add: send_frame_def Let_def preference_route)

lemma try_endpoints_frame:
  "try_endpoints S now frame highest es m w = (v, m', w') \<Longrightarrow>
   tm_directory m' = tm_directory m \<and> tm_verification_key m' = tm_verification_key m \<and> tm_outbox m' = tm_outbox m"
proof (induction es arbitrary: m w)
  case Nil
  then show ?case by simp
next
  case (Cons e es)
  let ?m1 = "set_health (re_endpoint_id e) (health_of (re_endpoint_id e) m) m"
  obtain r m2 w2 where send: "send_endpoint S e frame ?m1 w = (r, m2, w2)"
    by (metis prod_cases3)
  note fr = counted_frame [OF send_endpoint_answer(1) [OF send]]
  show ?case
    using Cons.prems send fr Cons.IH
    by (auto simp: Let_def split: if_splits sum.splits)
qed

lemma send_frame_frame:
  "send_frame S now frame m w = (v, m', w') \<Longrightarrow>
   tm_directory m' = tm_directory m \<and> tm_verification_key m' = tm_verification_key m \<and> tm_outbox m' = tm_outbox m"
  by (simp add: send_frame_def Let_def try_endpoints_frame)

lemma view_outbox [simp]: "view now (m\<lparr>tm_outbox := q\<rparr>) = (view now m)\<lparr>rv_queue := q\<rparr>"
  by (simp add: view_def)

lemma flush_loop_view:
  assumes "now < - 1"
  shows "flush_loop S now qs rs m w = (r, m', w') \<Longrightarrow>
    drain S (rd_endpoints (tm_directory m)) qs rs (view now m) w = (r, view now m', w')"
proof (induction qs arbitrary: rs m w)
  case Nil
  then show ?case by simp
next
  case (Cons q qs)
  obtain v m1 w1 where send: "send_frame S now (qf_bytes q) m w = (v, m1, w1)"
    by (metis prod_cases3)
  note ask = send_frame_view [OF assms send] and fr = send_frame_frame [OF send]
  show ?case
  proof (cases v)
    case None
    with Cons.prems send ask show ?thesis by simp
  next
    case (Some x)
    with Cons.prems send have "flush_loop S now qs (rs @ [x]) (m1\<lparr>tm_outbox := qs\<rparr>) w1 = (r, m', w')"
      by simp
    from Cons.IH [OF this] fr ask Some show ?thesis by simp
  qed
qed

lemma flush_refines:
  assumes "now < - 1" "flush S now m w = (r, m', w')"
  shows "drain S (rd_endpoints (tm_directory m)) (tm_outbox m) [] (view now m) w = (r, view now m', w')"
  using flush_loop_view [OF assms(1)] assms(2) by (simp add: flush_def)

section \<open>What a flush does to the queue\<close>

definition answered_by :: "'w EndpointSender \<Rightarrow> RelayEndpoint list \<Rightarrow> QueuedFrame \<Rightarrow> bytes \<Rightarrow> bool" where
  "answered_by S es q v \<longleftrightarrow> (\<exists>e \<in> set es. \<exists>w w'. relay_answer S e (qf_bytes q) w = (Some v, w'))"

lemma try_endpoints_answered:
  "try_endpoints S now frame highest es m w = (Some v, m', w') \<Longrightarrow>
   \<exists>e \<in> set es. \<exists>w w'. relay_answer S e frame w = (Some v, w')"
proof (induction es arbitrary: m w)
  case Nil
  then show ?case by simp
next
  case (Cons e es)
  let ?m1 = "set_health (re_endpoint_id e) (health_of (re_endpoint_id e) m) m"
  obtain r m2 w2 where send: "send_endpoint S e frame ?m1 w = (r, m2, w2)"
    by (metis prod_cases3)
  show ?case
    using Cons.prems send Cons.IH send_endpoint_answer(2) [OF send]
    by (auto simp: Let_def split: if_splits sum.splits; blast)
qed

lemma send_frame_answered:
  "send_frame S now (qf_bytes q) m w = (Some v, m', w') \<Longrightarrow> answered_by S (rd_endpoints (tm_directory m)) q v"
  using try_endpoints_answered by (fastforce simp: send_frame_def Let_def answered_by_def route_def)

lemma flush_loop_queue:
  "flush_loop S now qs rs m w = (r, m', w') \<Longrightarrow> tm_outbox m = qs \<Longrightarrow>
   \<exists>done rest ans. qs = done @ rest \<and> tm_outbox m' = rest \<and>
     list_all2 (answered_by S (rd_endpoints (tm_directory m))) done ans \<and>
     (case r of Inr out \<Rightarrow> rest = [] \<and> out = rs @ ans | Inl e \<Rightarrow> rest \<noteq> [] \<and> e = Unavailable)"
proof (induction qs arbitrary: rs m w)
  case Nil
  then show ?case by auto
next
  case (Cons q qs)
  obtain v m1 w1 where send: "send_frame S now (qf_bytes q) m w = (v, m1, w1)"
    by (metis prod_cases3)
  note fr = send_frame_frame [OF send]
  show ?case
  proof (cases v)
    case None
    with Cons.prems send fr show ?thesis by (intro exI [of _ "[]"] exI [of _ "q # qs"]) auto
  next
    case (Some x)
    have "flush_loop S now qs (rs @ [x]) (m1\<lparr>tm_outbox := qs\<rparr>) w1 = (r, m', w')"
      using Cons.prems send Some by simp
    from Cons.IH [OF this] fr obtain dn rest ans where
      "qs = dn @ rest" "tm_outbox m' = rest" "list_all2 (answered_by S (rd_endpoints (tm_directory m))) dn ans"
      "case r of Inr out \<Rightarrow> rest = [] \<and> out = (rs @ [x]) @ ans | Inl e \<Rightarrow> rest \<noteq> [] \<and> e = Unavailable"
      by auto
    then show ?thesis
      using send_frame_answered [OF send [unfolded Some]]
      by (intro exI [of _ "q # dn"] exI [of _ rest] exI [of _ "x # ans"]) (auto split: sum.splits)
  qed
qed

section \<open>Backoff\<close>

text \<open>Relays not due at the time \<open>t\<close>.\<close>

definition resting :: "u64 \<Rightarrow> RelayEndpoint list \<Rightarrow> TransportManager \<Rightarrow> bool" where
  "resting t es m \<longleftrightarrow> (\<forall>e \<in> set es. t < he_retry_after (health_of (re_endpoint_id e) m))"

lemma try_endpoints_resting:
  "resting t es m \<Longrightarrow> \<exists>m'. try_endpoints S t frame highest es m w = (None, m', w) \<and>
     tm_counters m' = tm_counters m \<and> tm_outbox m' = tm_outbox m"
proof (induction es arbitrary: m)
  case Nil
  then show ?case by simp
next
  case (Cons e es)
  let ?m1 = "set_health (re_endpoint_id e) (health_of (re_endpoint_id e) m) m"
  have "resting t es ?m1"
    using Cons.prems by (auto simp: resting_def)
  with Cons.IH [of ?m1] Cons.prems show ?case
    by (auto simp: resting_def Let_def)
qed

lemma flush_resting:
  assumes "resting t (rd_endpoints (tm_directory m)) m" "tm_outbox m \<noteq> []"
  shows "\<exists>m'. flush S t m w = (Inl Unavailable, m', w) \<and> tm_counters m' = tm_counters m \<and>
    tm_outbox m' = tm_outbox m"
proof -
  have "resting t (route m) m"
    using assms(1) by (simp add: resting_def route_def)
  note rest = try_endpoints_resting [OF this]
  obtain q qs where q: "tm_outbox m = q # qs"
    using assms(2) by (cases "tm_outbox m") auto
  let ?highest = "case route m of [] \<Rightarrow> None | e # _ \<Rightarrow> Some (re_endpoint_id e)"
  obtain m' where "try_endpoints S t (qf_bytes q) ?highest (route m) m w = (None, m', w)"
    "tm_counters m' = tm_counters m" "tm_outbox m' = tm_outbox m"
    using rest [of S "qf_bytes q" ?highest w] by auto
  then show ?thesis
    by (simp add: flush_def q send_frame_def Let_def)
qed

lemma try_endpoints_retry:
  assumes "now < - 1"
  shows "try_endpoints S now frame highest es m w = (v, m', w') \<Longrightarrow>
   he_retry_after (health_of i m') = 0 \<or>
   he_retry_after (health_of i m') = he_retry_after (health_of i m) \<or>
   (now < he_retry_after (health_of i m') \<and> unat (he_retry_after (health_of i m')) \<le> unat now + 511)"
proof (induction es arbitrary: m w)
  case Nil
  then show ?case by simp
next
  case (Cons e es)
  let ?m1 = "set_health (re_endpoint_id e) (health_of (re_endpoint_id e) m) m"
  obtain r m2 w2 where send: "send_endpoint S e frame ?m1 w = (r, m2, w2)"
    by (metis prod_cases3)
  note fr = counted_frame [OF send_endpoint_answer(1) [OF send]]
  show ?case
  proof (cases "now < he_retry_after (health_of (re_endpoint_id e) m)")
    case True
    with Cons.prems Cons.IH [of ?m1 w] show ?thesis
      by (auto simp: Let_def split: if_splits)
  next
    case False
    show ?thesis
    proof (cases r)
      case (Inl x)
      then show ?thesis
        using Cons.prems send False fr Cons.IH [of "note_failure now e m2" w2] retry_after_bounds assms
        by (auto simp: Let_def split: if_splits)
    next
      case (Inr x)
      then show ?thesis
        using Cons.prems send False fr
        by (auto simp: Let_def health_default_def split: if_splits)
    qed
  qed
qed

lemma ask_none_blocks:
  "ask_in_order S frame es rv w = (None, rv', w') \<Longrightarrow>
   rv_blocked rv' = rv_blocked rv \<union> re_endpoint_id ` set es"
proof (induction es arbitrary: rv w)
  case (Cons e es)
  show ?case
  proof (cases "re_endpoint_id e \<in> rv_blocked rv")
    case True
    with Cons.prems Cons.IH [of rv w] show ?thesis by auto
  next
    case False
    with Cons.prems Cons.IH show ?thesis
      by (auto split: prod.splits option.splits)
  qed
qed simp

lemma flush_loop_retry:
  assumes "now < - 1"
  shows "flush_loop S now qs rs m w = (r, m', w') \<Longrightarrow>
   he_retry_after (health_of i m') = 0 \<or>
   he_retry_after (health_of i m') = he_retry_after (health_of i m) \<or>
   (now < he_retry_after (health_of i m') \<and> unat (he_retry_after (health_of i m')) \<le> unat now + 511)"
proof (induction qs arbitrary: rs m w)
  case Nil
  then show ?case by simp
next
  case (Cons q qs)
  obtain v m1 w1 where send: "send_frame S now (qf_bytes q) m w = (v, m1, w1)"
    by (metis prod_cases3)
  then have "he_retry_after (health_of i m1) = 0 \<or>
     he_retry_after (health_of i m1) = he_retry_after (health_of i m) \<or>
     (now < he_retry_after (health_of i m1) \<and> unat (he_retry_after (health_of i m1)) \<le> unat now + 511)"
    using try_endpoints_retry [OF assms] by (simp add: send_frame_def Let_def)
  then show ?case
    using Cons.prems send Cons.IH by (cases v) (auto, fastforce+)
qed

lemma flush_failed_resting:
  assumes "now < - 1" "flush_loop S now qs rs m w = (Inl e, m', w')"
  shows "resting now (rd_endpoints (tm_directory m)) m'"
  using assms(2)
proof (induction qs arbitrary: rs m w)
  case Nil
  then show ?case by simp
next
  case (Cons q qs)
  obtain v m1 w1 where send: "send_frame S now (qf_bytes q) m w = (v, m1, w1)"
    by (metis prod_cases3)
  note fr = send_frame_frame [OF send] and ask = send_frame_view [OF assms(1) send]
  show ?case
  proof (cases v)
    case None
    with Cons.prems send have m': "m' = m1" by simp
    have "re_endpoint_id x \<in> rv_blocked (view now m1)" if "x \<in> set (rd_endpoints (tm_directory m))" for x
      using ask_none_blocks [OF ask [unfolded None]] that by (auto simp: preference_def)
    then show ?thesis
      by (simp add: resting_def m')
  next
    case (Some x)
    with Cons.prems send have "flush_loop S now qs (rs @ [x]) (m1\<lparr>tm_outbox := qs\<rparr>) w1 = (Inl e, m', w')"
      by simp
    from Cons.IH [OF this] fr show ?thesis by simp
  qed
qed

section \<open>Delivery when a relay answers\<close>

definition reliable :: "'w EndpointSender \<Rightarrow> RelayEndpoint \<Rightarrow> bool" where
  "reliable S e \<longleftrightarrow> (\<forall>frame w. fst (relay_answer S e frame w) \<noteq> None)"

definition due :: "u64 \<Rightarrow> RelayEndpoint \<Rightarrow> TransportManager \<Rightarrow> bool" where
  "due now e m \<longleftrightarrow> he_retry_after (health_of (re_endpoint_id e) m) \<le> now"

text \<open>
  A relay \<open>e\<close> that answers while the world is as \<open>I\<close> says, which relates it to the frames still to
  send and the responses so far; what other relays do keeps \<open>I\<close>. Then a flush delivers everything.
\<close>

locale answering_relay =
  fixes S :: "'w EndpointSender"
    and e :: RelayEndpoint
    and I :: "QueuedFrame list \<Rightarrow> bytes list \<Rightarrow> 'w \<Rightarrow> bool"
  assumes relay_step: "I (q # qs) rs w \<Longrightarrow>
    (case relay_answer S x (qf_bytes q) w of
       (Some v, w') \<Rightarrow> I qs (rs @ [v]) w'
     | (None, w') \<Rightarrow> x \<noteq> e \<and> I (q # qs) rs w')"
begin

lemma try_endpoints_live:
  "e \<in> set es \<Longrightarrow> inj_on re_endpoint_id (set es) \<Longrightarrow> due now e m \<Longrightarrow> I (q # qs) rs w \<Longrightarrow>
   \<exists>v m' w'. try_endpoints S now (qf_bytes q) highest es m w = (Some v, m', w') \<and> due now e m' \<and> I qs (rs @ [v]) w'"
proof (induction es arbitrary: m w)
  case (Cons x es)
  let ?m1 = "set_health (re_endpoint_id x) (health_of (re_endpoint_id x) m) m"
  obtain r m2 w2 where send: "send_endpoint S x (qf_bytes q) ?m1 w = (r, m2, w2)"
    by (metis prod_cases3)
  note ans = send_endpoint_answer [OF send] and fr = counted_frame [OF send_endpoint_answer(1) [OF send]]
  note step = relay_step [OF Cons.prems(4), of x]
  have m1: "due now e ?m1" and m2: "due now e m2"
    using Cons.prems fr by (auto simp: due_def)
  show ?case
  proof (cases "x = e")
    case True
    obtain v where "r = Inr v"
      using ans(2) step True by (cases r) auto
    then show ?thesis
      using Cons.prems send step ans(2) True by (auto simp: Let_def due_def health_default_def)
  next
    case False
    then have e: "e \<in> set es" "inj_on re_endpoint_id (set es)" "re_endpoint_id x \<noteq> re_endpoint_id e"
      using Cons.prems by (auto simp: inj_on_def)
    then have m3: "due now e (note_failure now x m2)" "due now e (note_success x highest n m2)" for n
      using m2 by (auto simp: due_def)
    note skip = Cons.IH [OF e(1,2) m1 Cons.prems(4)]
    show ?thesis
    proof (cases r)
      case (Inl y)
      then have "I (q # qs) rs w2"
        using ans(2) step by simp
      from skip Cons.IH [OF e(1,2) m3(1) this] Inl send show ?thesis by (auto simp: Let_def)
    next
      case (Inr v)
      then show ?thesis
        using skip m3(2) send step ans(2) by (auto simp: Let_def)
    qed
  qed
qed simp

lemma flush_loop_live:
  "e \<in> set (rd_endpoints (tm_directory m)) \<Longrightarrow> inj_on re_endpoint_id (set (rd_endpoints (tm_directory m))) \<Longrightarrow>
   due now e m \<Longrightarrow> I qs rs w \<Longrightarrow> tm_outbox m = qs \<Longrightarrow>
   \<exists>out m' w'. flush_loop S now qs rs m w = (Inr out, m', w') \<and> tm_outbox m' = [] \<and> I [] out w'"
proof (induction qs arbitrary: rs m w)
  case (Cons q qs)
  have r: "set (route m) = set (rd_endpoints (tm_directory m))"
    by (simp add: route_def)
  obtain v m1 w1 where send: "send_frame S now (qf_bytes q) m w = (Some v, m1, w1)" and d: "due now e m1"
      and w1: "I qs (rs @ [v]) w1"
    using try_endpoints_live [of "route m" now m q qs rs w] Cons.prems
    unfolding send_frame_def Let_def r by blast
  note fr = send_frame_frame [OF send]
  have "due now e (m1\<lparr>tm_outbox := qs\<rparr>)"
    using d by (simp add: due_def)
  with Cons.IH [of "m1\<lparr>tm_outbox := qs\<rparr>" "rs @ [v]" w1] Cons.prems fr send w1 show ?case by simp
qed simp

end

interpretation reliable_relay: answering_relay S e "\<lambda>_ _ _. reliable S e" for S e
  by unfold_locales (auto simp: reliable_def split: prod.splits option.splits, metis fst_conv option.distinct(1))

lemma due_after_network_change: "due now e (notify_network_change m)"
proof -
  have "map_of (map (\<lambda>(i, h). (i, h\<lparr>he_retry_after := 0\<rparr>)) xs) k = map_option (\<lambda>h. h\<lparr>he_retry_after := 0\<rparr>) (map_of xs k)"
    for xs :: "(bytes \<times> Health) list" and k
    by (induction xs) auto
  then show ?thesis
    by (auto simp: due_def notify_network_change_def health_of_def health_default_def split: option.splits)
qed

section \<open>Responses of the network sender are bounded\<close>

locale bounded_sender =
  fixes S :: "'w EndpointSender"
  assumes websocket_bound: "send_websocket S e frame w = (Inr v, w') \<Longrightarrow> length v \<le> MAX_FRAME_SIZE"
    and https_bound: "send_https S e frame w = (Inr v, w') \<Longrightarrow> length v \<le> MAX_FRAME_SIZE"
begin

lemma answer_bound: "relay_answer S e frame w = (Some v, w') \<Longrightarrow> length v \<le> MAX_FRAME_SIZE"
  by (auto simp: relay_answer_def dest: websocket_bound https_bound split: prod.splits sum.splits)

lemma flush_bound:
  assumes "flush S now m w = (Inr rs, m', w')"
  shows "list_all (\<lambda>v. length v \<le> MAX_FRAME_SIZE) rs"
proof -
  obtain qs where "list_all2 (answered_by S (rd_endpoints (tm_directory m))) qs rs"
    using flush_loop_queue [OF assms [unfolded flush_def]] by auto
  then show ?thesis
    by (induction rule: list_all2_induct) (auto simp: answered_by_def dest: answer_bound)
qed

end

interpretation net: bounded_sender "NetworkSender N"
  by unfold_locales
    (auto simp: NetworkSender_def network_send_websocket_def network_send_https_def Let_def
      split: prod.splits ws_reply.splits http_reply.splits if_splits)

section \<open>Runs of a manager\<close>

datatype manager_op =
    UpdateDirectory SignedRelayDirectory u64
  | Enqueue TransportFrame
  | NetworkChanged
  | Flush u64

fun manager_step :: "ed25519 \<Rightarrow> 'w EndpointSender \<Rightarrow> TransportManager \<times> 'w \<Rightarrow> manager_op \<Rightarrow> TransportManager \<times> 'w" where
  "manager_step E S (m, w) (UpdateDirectory d now) = (snd (update_directory E d now m), w)"
| "manager_step E S (m, w) (Enqueue f) = (snd (enqueue f m), w)"
| "manager_step E S (m, w) NetworkChanged = (notify_network_change m, w)"
| "manager_step E S (m, w) (Flush now) = snd (flush S now m w)"

text \<open>
  The directory in use was accepted under the pinned key at some time, and the queue holds one
  encoded frame for each identifier in it.
\<close>

definition directory_authentic :: "ed25519 \<Rightarrow> TransportManager \<Rightarrow> bool" where
  "directory_authentic E m \<longleftrightarrow> (\<exists>now. directory_verify E (tm_verification_key m) now 0 (tm_directory m) = Inr ())"

definition queued_frame :: "QueuedFrame \<Rightarrow> bool" where
  "queued_frame q \<longleftrightarrow> (\<exists>f. transport_encode f = Inr (qf_bytes q) \<and> tf_client_message_id f = qf_client_message_id q)"

definition queue_ok :: "TransportManager \<Rightarrow> bool" where
  "queue_ok m \<longleftrightarrow> distinct (map qf_client_message_id (tm_outbox m)) \<and> list_all queued_frame (tm_outbox m)"

definition manager_inv :: "ed25519 \<Rightarrow> bytes \<Rightarrow> TransportManager \<times> 'w \<Rightarrow> bool" where
  "manager_inv E key s \<longleftrightarrow> tm_verification_key (fst s) = key \<and> directory_authentic E (fst s) \<and> queue_ok (fst s)"

lemma directory_verify_lower:
  "directory_verify E k now v d = Inr () \<Longrightarrow> v \<le> rd_version d \<and> directory_verify E k now 0 d = Inr ()"
  by (auto simp: directory_verify_def split: if_splits)

lemma enqueue_queue_ok: "queue_ok m \<Longrightarrow> queue_ok (snd (enqueue f m))"
  by (auto simp: enqueue_def queue_ok_def queued_frame_def list_ex_iff split: sum.splits)

lemma enqueue_frame [simp]:
  "tm_directory (snd (enqueue f m)) = tm_directory m"
  "tm_verification_key (snd (enqueue f m)) = tm_verification_key m"
  by (auto simp: enqueue_def split: sum.splits)

lemma flush_loop_frame:
  "flush_loop S now qs rs m w = (r, m', w') \<Longrightarrow>
   tm_directory m' = tm_directory m \<and> tm_verification_key m' = tm_verification_key m"
proof (induction qs arbitrary: rs m w)
  case (Cons q qs)
  obtain v m1 w1 where send: "send_frame S now (qf_bytes q) m w = (v, m1, w1)"
    by (metis prod_cases3)
  with Cons.prems send_frame_frame [OF send] Cons.IH [of "rs @ [the v]" "m1\<lparr>tm_outbox := qs\<rparr>" w1]
  show ?case by (cases v) auto
qed simp

lemma flush_queue_ok:
  assumes "queue_ok m" "flush S now m w = (r, m', w')"
  shows "queue_ok m'"
  using flush_loop_queue [OF assms(2) [unfolded flush_def]] assms(1)
  by (auto simp: queue_ok_def)

lemma manager_step_inv:
  assumes "manager_inv E key s"
  shows "manager_inv E key (manager_step E S s op)"
    and "rd_version (tm_directory (fst s)) \<le> rd_version (tm_directory (fst (manager_step E S s op)))"
proof -
  obtain m w where s: "s = (m, w)" by fastforce
  have "manager_inv E key (manager_step E S s op) \<and>
     rd_version (tm_directory (fst s)) \<le> rd_version (tm_directory (fst (manager_step E S s op)))"
  proof (cases op)
    case (UpdateDirectory d now)
    with assms s show ?thesis
      by (auto simp: manager_inv_def update_directory_def directory_authentic_def queue_ok_def
          dest: directory_verify_lower split: sum.splits)
  next
    case (Enqueue f)
    with assms s enqueue_queue_ok [of m f] show ?thesis
      by (auto simp: manager_inv_def directory_authentic_def)
  next
    case NetworkChanged
    with assms s show ?thesis
      by (auto simp: manager_inv_def notify_network_change_def directory_authentic_def queue_ok_def)
  next
    case (Flush now)
    obtain r m' w' where f: "flush S now m w = (r, m', w')"
      by (metis prod_cases3)
    with Flush assms s flush_queue_ok [OF _ f] flush_loop_frame [OF f [unfolded flush_def]] show ?thesis
      by (auto simp: manager_inv_def directory_authentic_def)
  qed
  then show "manager_inv E key (manager_step E S s op)"
    "rd_version (tm_directory (fst s)) \<le> rd_version (tm_directory (fst (manager_step E S s op)))"
    by auto
qed

interpretation manager_runs: monotone_system "manager_step E S" "\<lambda>_. True" "manager_inv E key"
    "\<lambda>s. rd_version (tm_directory (fst s))"
  by unfold_locales (rule manager_step_inv; assumption)+

lemma manager_new_inv: "manager_new E d key t = Inr m \<Longrightarrow> manager_inv E key (m, w)"
  by (auto simp: manager_new_def result_simps manager_inv_def directory_authentic_def queue_ok_def)

section \<open>Properties\<close>

text \<open>
  C32: the directory codec. Decoding accepts exactly the byte strings that lay out a directory
  of at most 32 endpoints with well-formed URLs, in the order of its endpoints; encoding writes
  the endpoints sorted by priority and identifier, never fails on such a directory, and decodes
  to it with the endpoints in that order.
\<close>

theorem directory_codec:
  "(directory_decode bs = Inr d) = (directory_ok d \<and> bs = directory_bytes d) \<and>
   (directory_ok d \<longrightarrow> (\<exists>out. directory_encode d = Inr out \<and> length out \<le> 131894 \<and>
     directory_decode out = Inr (sorted_directory d)))"
  using length_directory_bytes [of "sorted_directory d"]
  by (auto simp: directory_decode_iff directory_encode_eq directory_ok_short) (simp add: directory_ok_def)

text \<open>
  What a directory signature covers. Two well-formed directories with the same signed
  bytes have the same version and the same dates, and the same endpoints up to their order.
\<close>

theorem directory_signature_binds:
  assumes "directory_ok d" "directory_ok e" "signing_bytes d = Inr msg" "signing_bytes e = Inr msg"
  shows "rd_version d = rd_version e \<and> rd_issued_at d = rd_issued_at e \<and>
    rd_expires_at d = rd_expires_at e \<and> mset (rd_endpoints d) = mset (rd_endpoints e)"
proof -
  have parts: "signed_part (sorted_directory d) = signed_part (sorted_directory e)"
    using assms(3,4) by (simp add: signing_bytes_eq split: if_splits)
  have "directory_decode (directory_bytes (sorted_directory d)) = Inr (sorted_directory d)"
    using assms(1) by (simp add: directory_decode_iff)
  moreover have "directory_bytes (sorted_directory d) =
      directory_bytes ((sorted_directory e)\<lparr>rd_signature := rd_signature d\<rparr>)"
    using parts by (simp add: directory_bytes_def signed_part_def sorted_directory_def)
  moreover have "directory_ok ((sorted_directory e)\<lparr>rd_signature := rd_signature d\<rparr>)"
    using assms(1) sorted_directory_ok [of e] assms(2) by (simp add: directory_ok_def)
  ultimately have "sorted_directory d = (sorted_directory e)\<lparr>rd_signature := rd_signature d\<rparr>"
    by (metis directory_decode_iff sum.inject(2))
  then have "rd_version d = rd_version e" "rd_issued_at d = rd_issued_at e" "rd_expires_at d = rd_expires_at e"
    and "sort_key endpoint_key (rd_endpoints d) = sort_key endpoint_key (rd_endpoints e)"
    by (auto simp: sorted_directory_def dest: arg_cong [of _ _ rd_version] arg_cong [of _ _ rd_issued_at]
        arg_cong [of _ _ rd_expires_at] arg_cong [of _ _ rd_endpoints])
  then show ?thesis
    by (metis mset_sort)
qed

text \<open>
  C16: no operation of a manager replaces its directory by one that does not verify under the
  key it was created with, or by an older one; and the queue holds one encoded frame for each
  identifier in it. For every sequence of updates, enqueues, network changes and flushes.
\<close>

theorem manager_run_safe:
  assumes "manager_new E d key t = Inr m"
  shows "(case foldl (manager_step E S) (m, w) (us @ vs) of (m', w') \<Rightarrow>
      (\<exists>now. directory_verify E key now 0 (tm_directory m') = Inr ()) \<and>
      distinct (map qf_client_message_id (tm_outbox m')) \<and> list_all queued_frame (tm_outbox m')) \<and>
    rd_version (tm_directory (fst (foldl (manager_step E S) (m, w) us)))
       \<le> rd_version (tm_directory (fst (foldl (manager_step E S) (m, w) (us @ vs))))"
proof -
  note start = manager_new_inv [OF assms]
  have "manager_inv E key (foldl (manager_step E S) (m, w) (us @ vs))"
    using start by (rule manager_runs.run_inv) (simp add: list_all_iff)
  moreover have "rd_version (tm_directory (fst (foldl (manager_step E S) (m, w) us)))
       \<le> rd_version (tm_directory (fst (foldl (manager_step E S) (m, w) (us @ vs))))"
    using start by (rule manager_runs.run_mono_prefix) (simp add: list_all_iff)
  ultimately show ?thesis
    by (auto simp: manager_inv_def directory_authentic_def queue_ok_def simp del: foldl_append split: prod.splits)
qed

text \<open>
  C29: the outcome of a flush. The frames are taken from the front of the queue in order; those
  that left it were answered by a relay of the directory. \<open>Ok\<close> means that the queue is empty and
  holds one answer per frame; the only error is \<open>Unavailable\<close>, and the queue then keeps the
  frame that no relay answered and all that follow.
\<close>

theorem flush_outcome:
  "case flush S now m w of (r, m', w') \<Rightarrow>
     \<exists>sent answers. tm_outbox m = sent @ tm_outbox m' \<and>
       list_all2 (answered_by S (rd_endpoints (tm_directory m))) sent answers \<and>
       (r = Inr answers \<and> tm_outbox m' = [] \<or> r = Inl Unavailable \<and> tm_outbox m' \<noteq> [])"
proof -
  obtain r m' w' where f: "flush S now m w = (r, m', w')"
    by (metis prod_cases3)
  from flush_loop_queue [OF f [unfolded flush_def]] show ?thesis
    by (cases r) (fastforce simp: f)+
qed

text \<open>
  C17: \<open>flush\<close> refines the abstract \<open>drain\<close>, in which the relays are asked in the order of
  preference, those not due are passed over, one that does not answer is not asked again, and
  the one that answered is preferred for the next frame. Counters and backoff times are
  abstracted to the set of relays that are not due.
\<close>

theorem flush_refines_drain:
  assumes "now \<noteq> - 1"
  shows "drain S (rd_endpoints (tm_directory m)) (tm_outbox m) [] (view now m) w =
    (case flush S now m w of (r, m', w') \<Rightarrow> (r, view now m', w'))"
proof -
  have "now < - 1"
    using assms by (simp add: order_neq_le_trans)
  then show ?thesis
    by (auto simp: flush_refines split: prod.splits)
qed

text \<open>
  C31: backoff. After a flush that failed, each relay of the directory waits: its retry time is
  later than now, by at most 511 seconds unless it was set by an earlier flush. Until a relay
  is due again, a flush contacts no relay, leaves the outside world and the counters as they
  are, and keeps the queue.
\<close>

theorem flush_backs_off:
  assumes "now \<noteq> - 1" "flush S now m w = (Inl e, m', w')"
  shows "(\<forall>x \<in> set (rd_endpoints (tm_directory m)).
      now < he_retry_after (health_of (re_endpoint_id x) m') \<and>
      (unat (he_retry_after (health_of (re_endpoint_id x) m')) \<le> unat now + 511 \<or>
       he_retry_after (health_of (re_endpoint_id x) m') = he_retry_after (health_of (re_endpoint_id x) m))) \<and>
    ((\<forall>x \<in> set (rd_endpoints (tm_directory m)). later < he_retry_after (health_of (re_endpoint_id x) m')) \<longrightarrow>
      (\<exists>m''. flush S later m' w' = (Inl Unavailable, m'', w') \<and> tm_counters m'' = tm_counters m' \<and>
        tm_outbox m'' = tm_outbox m'))"
proof -
  have t: "now < - 1"
    using assms(1) by (simp add: order_neq_le_trans)
  note f = assms(2) [unfolded flush_def]
  have rest: "resting now (rd_endpoints (tm_directory m)) m'"
    using t f by (rule flush_failed_resting)
  have "unat (he_retry_after (health_of (re_endpoint_id x) m')) \<le> unat now + 511 \<or>
       he_retry_after (health_of (re_endpoint_id x) m') = he_retry_after (health_of (re_endpoint_id x) m)" for x
    using flush_loop_retry [OF t f, of "re_endpoint_id x"] by auto
  moreover have "tm_outbox m' \<noteq> []" "tm_directory m' = tm_directory m"
    using flush_loop_queue [OF f] flush_loop_frame [OF f] by auto
  ultimately show ?thesis
    using flush_resting [of later m' S w'] rest unfolding resting_def by auto
qed

text \<open>
  C18: delivery. When the endpoints of the directory have different identifiers and one of them
  answers every frame by WebSocket or by HTTPS, a flush after a change of the network path
  delivers the whole queue, whatever failed before and however the other relays behave.
\<close>

theorem flush_delivers:
  assumes "x \<in> set (rd_endpoints (tm_directory m))" "inj_on re_endpoint_id (set (rd_endpoints (tm_directory m)))"
    and "\<forall>frame w. fst (relay_answer S x frame w) \<noteq> None"
  shows "\<exists>answers m' w'. flush S now (notify_network_change m) w = (Inr answers, m', w') \<and>
    length answers = pending_count m \<and> pending_count m' = 0"
proof -
  let ?m = "notify_network_change m"
  have same: "tm_directory ?m = tm_directory m" "tm_outbox ?m = tm_outbox m"
    by (simp_all add: notify_network_change_def)
  obtain answers m' w' where f: "flush_loop S now (tm_outbox ?m) [] ?m w = (Inr answers, m', w')"
    using reliable_relay.flush_loop_live [of x ?m now S "tm_outbox ?m" "[]" w] assms due_after_network_change
    unfolding reliable_def same by blast
  from flush_loop_queue [OF f] have "length answers = pending_count m" "pending_count m' = 0"
    by (auto simp: same pending_count_def dest: list_all2_lengthD)
  with f show ?thesis
    by (auto simp: flush_def)
qed

section \<open>Examples\<close>

text \<open>
  Two relays; the first answers nothing, the second answers by HTTPS with its first byte and the
  length of the frame. The world counts the calls.
\<close>

definition demo_relay :: "byte \<Rightarrow> u16 \<Rightarrow> RelayEndpoint" where
  "demo_relay b p = \<lparr>re_endpoint_id = replicate 16 b, re_websocket_url = ascii ''wss://a'',
     re_https_url = ascii ''https://a'', re_priority = p\<rparr>"

definition demo_directory :: "u64 \<Rightarrow> SignedRelayDirectory" where
  "demo_directory v = \<lparr>rd_version = v, rd_issued_at = 100, rd_expires_at = 2000,
     rd_endpoints = [demo_relay 9 2, demo_relay 7 1], rd_signature = replicate 64 5\<rparr>"

definition demo_ed25519 :: ed25519 where
  "demo_ed25519 = \<lparr>ed_valid_key = (\<lambda>k. length k = 32), ed_verify = (\<lambda>k m s. s = replicate 64 5),
     ed_public = (\<lambda>s. s), ed_sign = (\<lambda>s m. replicate 64 5)\<rparr>"

definition demo_sender :: "nat EndpointSender" where
  "demo_sender = \<lparr>send_websocket = (\<lambda>e f w. (Inl Unavailable, w + 1)),
     send_https = (\<lambda>e f w. (if re_priority e = 1 then Inl InvalidResponse
       else Inr [hd (re_endpoint_id e), word_of_nat (length f)], w + 1))\<rparr>"

definition silent_sender :: "nat EndpointSender" where
  "silent_sender = \<lparr>send_websocket = (\<lambda>e f w. (Inl Unavailable, w + 1)),
     send_https = (\<lambda>e f w. (Inl Unavailable, w + 1))\<rparr>"

definition demo_manager :: TransportManager where
  "demo_manager = \<lparr>tm_directory = demo_directory 3, tm_verification_key = replicate 32 1,
     tm_outbox = [\<lparr>qf_client_message_id = [1], qf_bytes = [1, 2, 3]\<rparr>, \<lparr>qf_client_message_id = [2], qf_bytes = [4]\<rparr>],
     tm_health = [], tm_counters = counters_default, tm_preferred_endpoint = None\<rparr>"

theorem directory_codec_witness:
  "directory_ok (demo_directory 3) \<and>
   (\<exists>out. directory_encode (demo_directory 3) = Inr out \<and>
      directory_decode out = Inr ((demo_directory 3)\<lparr>rd_endpoints := [demo_relay 7 1, demo_relay 9 2]\<rparr>))"
proof -
  have ok: "directory_ok (demo_directory 3)"
    by code_simp
  have "sorted_directory (demo_directory 3) = (demo_directory 3)\<lparr>rd_endpoints := [demo_relay 7 1, demo_relay 9 2]\<rparr>"
    by code_simp
  with ok directory_codec [of "[]" "demo_directory 3"] show ?thesis by auto
qed

definition demo_sorted :: SignedRelayDirectory where
  "demo_sorted = (demo_directory 3)\<lparr>rd_endpoints := [demo_relay 7 1, demo_relay 9 2]\<rparr>"

theorem directory_signature_binds_witness:
  "\<exists>m. signing_bytes (demo_directory 3) = Inr m \<and> signing_bytes demo_sorted = Inr m \<and>
     demo_directory 3 \<noteq> demo_sorted \<and> mset (rd_endpoints (demo_directory 3)) = mset (rd_endpoints demo_sorted)"
proof -
  have ok: "directory_ok (demo_directory 3)" "directory_ok demo_sorted" and "demo_directory 3 \<noteq> demo_sorted"
    by code_simp+
  moreover have msg: "signing_bytes (demo_directory 3) = Inr (signed_part demo_sorted)"
    "signing_bytes demo_sorted = Inr (signed_part demo_sorted)"
    by code_simp+
  ultimately show ?thesis
    using directory_signature_binds [OF ok msg] by blast
qed

theorem manager_run_safe_witness:
  "\<exists>m. manager_new demo_ed25519 (demo_directory 3) (replicate 32 1) 1000 = Inr m \<and>
     3 \<le> rd_version (tm_directory (fst (foldl (manager_step demo_ed25519 demo_sender) (m, 0)
       [UpdateDirectory (demo_directory 2) 1000, UpdateDirectory (demo_directory 4) 1000])))"
proof -
  let ?m = "demo_manager\<lparr>tm_outbox := []\<rparr>"
  have new: "manager_new demo_ed25519 (demo_directory 3) (replicate 32 1) 1000 = Inr ?m"
    by code_simp
  moreover have "rd_version (tm_directory ?m) = 3"
    by code_simp
  ultimately show ?thesis
    using manager_run_safe [OF new, where S = demo_sender and w = 0 and us = "[]" and
        vs = "[UpdateDirectory (demo_directory 2) 1000, UpdateDirectory (demo_directory 4) 1000]"]
    by auto
qed

theorem flush_refines_drain_witness:
  "\<exists>m'. flush demo_sender 1000 demo_manager 0 = (Inr [[9, 3], [9, 1]], m', 6) \<and>
     drain demo_sender [demo_relay 9 2, demo_relay 7 1] (tm_outbox demo_manager) [] (view 1000 demo_manager) 0 =
       (Inr [[9, 3], [9, 1]], view 1000 m', 6)"
proof -
  have "map_prod id snd (flush demo_sender 1000 demo_manager 0) = (Inr [[9, 3], [9, 1]], 6)"
    by code_simp
  then obtain m' where "flush demo_sender 1000 demo_manager 0 = (Inr [[9, 3], [9, 1]], m', 6)"
    by (cases "flush demo_sender 1000 demo_manager 0") auto
  moreover have "rd_endpoints (tm_directory demo_manager) = [demo_relay 9 2, demo_relay 7 1]"
    by code_simp
  ultimately show ?thesis
    using flush_refines_drain [of 1000 demo_sender demo_manager 0] by simp
qed

theorem flush_backs_off_witness:
  "\<exists>m' m''. flush silent_sender 1000 demo_manager 0 = (Inl Unavailable, m', 4) \<and>
     flush silent_sender 1001 m' 4 = (Inl Unavailable, m'', 4) \<and> tm_outbox m'' = tm_outbox m'"
proof -
  define m' where "m' = fst (snd (flush silent_sender 1000 demo_manager 0))"
  have "map_prod id snd (flush silent_sender 1000 demo_manager 0) = (Inl Unavailable, 4)"
    by code_simp
  then have f: "flush silent_sender 1000 demo_manager 0 = (Inl Unavailable, m', 4)"
    by (cases "flush silent_sender 1000 demo_manager 0") (auto simp: m'_def)
  have "list_all (\<lambda>x. 1001 < he_retry_after (health_of (re_endpoint_id x) m')) (rd_endpoints (tm_directory demo_manager))"
    unfolding m'_def by code_simp
  then have "\<forall>x \<in> set (rd_endpoints (tm_directory demo_manager)). 1001 < he_retry_after (health_of (re_endpoint_id x) m')"
    by (simp add: list_all_iff)
  with flush_backs_off [OF _ f, of 1001] f show ?thesis by auto
qed

theorem flush_delivers_witness:
  "\<exists>answers m' w'. flush demo_sender 1000 (notify_network_change demo_manager) 0 = (Inr answers, m', w') \<and>
    length answers = 2 \<and> pending_count m' = 0"
proof -
  have "demo_relay 9 2 \<in> set (rd_endpoints (tm_directory demo_manager))"
    by (simp add: demo_manager_def demo_directory_def)
  moreover have "inj_on re_endpoint_id (set (rd_endpoints (tm_directory demo_manager)))"
    by (simp add: demo_manager_def demo_directory_def demo_relay_def)
  moreover have "\<forall>frame w. fst (relay_answer demo_sender (demo_relay 9 2) frame w) \<noteq> None"
    by (simp add: relay_answer_def demo_sender_def demo_relay_def)
  moreover have "pending_count demo_manager = 2"
    by code_simp
  ultimately show ?thesis
    using flush_delivers [of "demo_relay 9 2" demo_manager demo_sender 1000 0] by simp
qed

end
