(* ===== verification/Message_Path.thy ===== *)
theory Message_Path
  imports Relay Transport_Correct
begin

text \<open>
  The whole way of a frame: the transport manager and \<open>NetworkSender\<close> of a client, over a relay and
  its WebSocket or HTTPS route, to the delivery service and back. The network between them is the
  composition of the models of the two services.
\<close>

section \<open>The network\<close>

text \<open>
  The world of a client: the service, what its next requests meet, and what was sent on the socket
  that is open.
\<close>

record path_world =
  pw_app :: App
  pw_exchanges :: "exchange list"
  pw_socket :: "ws_message option list"

text \<open>
  Relays whose delivery service is at \<open>core\<close>. \<open>reach url\<close> is the path at a relay that the URL leads
  to, or \<open>None\<close> when it cannot be reached; \<open>reject\<close> and \<open>upgrade\<close> are what axum answers itself.
\<close>

definition served_through :: "path_world \<Rightarrow> 'r \<times> (App \<times> exchange list) \<Rightarrow> 'r \<times> path_world" where
  "served_through w = (\<lambda>(r, (app, xs)). (r, w\<lparr>pw_app := app, pw_exchanges := xs\<rparr>))"

definition relay_network ::
    "(rejection \<Rightarrow> http_answer) \<Rightarrow> (http_request \<Rightarrow> http_answer) \<Rightarrow> crypto \<Rightarrow> string \<Rightarrow> (bytes \<Rightarrow> string option) \<Rightarrow>
     path_world network" where
  "relay_network reject upgrade K core reach =
     (let post = core_client reject K (trim_slashes core); get = core_get reject K (trim_slashes core);
          st = relay_state core in
      \<lparr>net_connect = (\<lambda>url w. (reach url = Some ''/v1/ws'', w\<lparr>pw_socket := []\<rparr>)),
       net_send = (\<lambda>url frame w. (True, w\<lparr>pw_socket := pw_socket w @ [Some (ws_message.WsBinary frame)]\<rparr>)),
       net_next = (\<lambda>url w.
         case served_through w (websocket_loop post st (pw_socket w) [] (pw_app w, pw_exchanges w)) of
           (sent, w) \<Rightarrow> (case sent of ws_message.WsBinary v # _ \<Rightarrow> ws_reply.WsBinary v | _ \<Rightarrow> WsOther, w\<lparr>pw_socket := []\<rparr>)),
       net_post = (\<lambda>url body w.
         case reach url of
           None \<Rightarrow> (HttpFailed, w)
         | Some path \<Rightarrow>
             (case served_through w (relay_service reject upgrade post get st
                \<lparr>hq_method = POST, hq_path = path, hq_body = body\<rparr> (pw_app w, pw_exchanges w)) of
              (p, w) \<Rightarrow> (if is_success (ha_status p) then HttpBody (ha_body p) else HttpRefused, w)))\<rparr>)"

text \<open>What a client gets that posts the frames to the service itself, one after the other.\<close>

fun post_in_order :: "crypto \<Rightarrow> bytes list \<Rightarrow> App \<times> exchange list \<Rightarrow> (bytes list \<times> App \<times> exchange list) option" where
  "post_in_order K [] w = Some ([], w)"
| "post_in_order K (b # bs) (app, []) = None"
| "post_in_order K (b # bs) (app, x # xs) =
     (case binary_api K x app b of (p, app) \<Rightarrow>
        if hr_status p = OK \<and> hr_body p \<noteq> []
        then map_option (\<lambda>(vs, w). (hr_body p # vs, w)) (post_in_order K bs (app, xs))
        else None)"

section \<open>Lemmas\<close>

definition plain_frame :: "bytes \<Rightarrow> bool" where
  "plain_frame b \<longleftrightarrow> (\<exists>f. transport_decode b = Inr f \<and> tf_kind f \<noteq> SyncRequest)"

lemma ok_answer_fits:
  assumes "binary_api K x app b = (p, app')" "hr_status p = OK" "hr_body p \<noteq> []"
  shows "length (hr_body p) \<le> MAX_FRAME_SIZE"
proof -
  have "answered_well b p"
    using handle_binary_outcome [where K = K and x = x and app = app and body = b and long_poll = False] assms(1)
    by (simp add: binary_api_def)
  with assms(2,3) obtain g where "transport_decode (hr_body p) = Inr g"
    by (auto simp: answered_well_def split: if_splits)
  then show ?thesis
    by (rule decoded_fits)
qed

text \<open>The first request of the world, posted directly, is answered with a frame.\<close>

definition answers_next :: "crypto \<Rightarrow> bytes \<Rightarrow> path_world \<Rightarrow> bytes \<Rightarrow> App \<Rightarrow> exchange list \<Rightarrow> bool" where
  "answers_next K b w v app xs \<longleftrightarrow> (\<exists>x p. pw_exchanges w = x # xs \<and> binary_api K x (pw_app w) b = (p, app) \<and>
     hr_status p = OK \<and> hr_body p = v \<and> v \<noteq> [])"

lemma forward_next:
  assumes "plain_frame b" "answers_next K b w v app xs"
  shows "forward (core_client reject K (trim_slashes core)) (relay_state core) b False (pw_app w, pw_exchanges w) = (Inr v, (app, xs))"
    "wants_long_poll b = False" "length v \<le> MAX_FRAME_SIZE" "length b \<le> MAX_FRAME_SIZE"
  using assms ok_answer_fits
  by (auto simp: plain_frame_def answers_next_def forward_core binary_api_def relayed_def wants_long_poll_def decoded_fits)

lemma websocket_next:
  assumes "plain_frame b" "answers_next K b w v app xs" "reach (re_websocket_url e) = Some ''/v1/ws''"
  shows "network_send_websocket (relay_network reject upgrade K core reach) e b w =
    (Inr v, w\<lparr>pw_app := app, pw_exchanges := xs, pw_socket := []\<rparr>)"
  using forward_next [OF assms(1,2)] assms(3)
  by (simp add: network_send_websocket_def relay_network_def Let_def served_through_def send_fails_def)

lemma websocket_blocked:
  assumes "reach (re_websocket_url e) \<noteq> Some ''/v1/ws''"
  shows "network_send_websocket (relay_network reject upgrade K core reach) e b w = (Inl Unavailable, w\<lparr>pw_socket := []\<rparr>)"
  using assms by (simp add: network_send_websocket_def relay_network_def Let_def)

lemma https_next:
  assumes "plain_frame b" "answers_next K b w v app xs" "reach (re_https_url e) = Some ''/v1/relay''"
  shows "network_send_https (relay_network reject upgrade K core reach) e b w =
    (Inr v, w\<lparr>pw_app := app, pw_exchanges := xs\<rparr>)"
  using forward_next [OF assms(1,2)] assms(3)
  by (simp add: network_send_https_def relay_network_def Let_def served_through_def relay_service_def route_request_def
      relay_routes_def relay_https_def relay_cbor_response_def is_success_def)

lemma https_blocked:
  assumes "\<forall>r. \<not> is_success (ha_status (reject r))" "reach (re_https_url e) \<noteq> Some ''/v1/relay''"
  shows "network_send_https (relay_network reject upgrade K core reach) e b w = (Inl Unavailable, w)"
  using assms
  by (cases "reach (re_https_url e)") (auto simp: network_send_https_def relay_network_def Let_def served_through_def
      relay_service_def route_request_def relay_routes_def)

definition reachable :: "(bytes \<Rightarrow> string option) \<Rightarrow> RelayEndpoint \<Rightarrow> bool" where
  "reachable reach e \<longleftrightarrow> reach (re_websocket_url e) = Some ''/v1/ws'' \<or> reach (re_https_url e) = Some ''/v1/relay''"

lemma relay_answer_next:
  assumes "\<forall>r. \<not> is_success (ha_status (reject r))" "plain_frame b" "answers_next K b w v app xs"
  shows "relay_answer (NetworkSender (relay_network reject upgrade K core reach)) e b w =
    (if reachable reach e then (Some v, w\<lparr>pw_app := app, pw_exchanges := xs, pw_socket := []\<rparr>)
     else (None, w\<lparr>pw_socket := []\<rparr>))"
proof -
  have "answers_next K b (w\<lparr>pw_socket := []\<rparr>) v app xs"
    using assms(3) by (simp add: answers_next_def)
  from websocket_next [OF assms(2,3)] websocket_blocked https_next [OF assms(2) this] https_blocked [OF assms(1)] show ?thesis
    by (cases "reach (re_websocket_url e) = Some ''/v1/ws''"; cases "reach (re_https_url e) = Some ''/v1/relay''")
      (simp_all add: relay_answer_def NetworkSender_def reachable_def)
qed

text \<open>
  What a flush keeps: posting the frames left directly would give the answers left and end in the
  same state of the service.
\<close>

definition on_course :: "crypto \<Rightarrow> bytes list \<Rightarrow> App \<times> exchange list \<Rightarrow> QueuedFrame list \<Rightarrow> bytes list \<Rightarrow> path_world \<Rightarrow> bool" where
  "on_course K replies goal qs rs w \<longleftrightarrow> list_all (plain_frame \<circ> qf_bytes) qs \<and>
     (\<exists>vs. post_in_order K (map qf_bytes qs) (pw_app w, pw_exchanges w) = Some (vs, goal) \<and> rs @ vs = replies)"

lemma on_course_next:
  assumes "on_course K replies goal (q # qs) rs w"
  obtains v app xs where "plain_frame (qf_bytes q)" "answers_next K (qf_bytes q) w v app xs"
    "\<And>w'. pw_app w' = app \<Longrightarrow> pw_exchanges w' = xs \<Longrightarrow> on_course K replies goal qs (rs @ [v]) w'"
  using assms
  by (cases "pw_exchanges w") (auto simp: on_course_def answers_next_def split: prod.splits if_splits)

lemma relay_path:
  assumes "\<forall>r. \<not> is_success (ha_status (reject r))" "reachable reach e"
  shows "answering_relay (NetworkSender (relay_network reject upgrade K core reach)) e (on_course K replies goal)"
proof
  fix q qs rs w x
  assume here: "on_course K replies goal (q # qs) rs w"
  obtain v app xs where b: "plain_frame (qf_bytes q)" "answers_next K (qf_bytes q) w v app xs"
    and go: "\<And>w'. pw_app w' = app \<Longrightarrow> pw_exchanges w' = xs \<Longrightarrow> on_course K replies goal qs (rs @ [v]) w'"
    by (rule on_course_next [OF here]) (rule that)
  have "on_course K replies goal (q # qs) rs (w\<lparr>pw_socket := []\<rparr>)"
    using here by (simp add: on_course_def)
  with go assms(2) show "case relay_answer (NetworkSender (relay_network reject upgrade K core reach)) x (qf_bytes q) w of
      (Some v, w') \<Rightarrow> on_course K replies goal qs (rs @ [v]) w'
    | (None, w') \<Rightarrow> x \<noteq> e \<and> on_course K replies goal (q # qs) rs w'"
    by (auto simp: relay_answer_next [OF assms(1) b])
qed

text \<open>
  A frame that the service refuses whatever it holds: an error answer, or one that does not fit a
  frame. The kinds of frame that only the service sends are refused.
\<close>

definition always_refused :: "crypto \<Rightarrow> bytes \<Rightarrow> bool" where
  "always_refused K b \<longleftrightarrow> (\<forall>x app long_poll. case handle_binary K x app b long_poll of
     (p, _) \<Rightarrow> hr_status p \<noteq> OK \<or> hr_body p = [])"

lemma service_kinds_refused:
  assumes "transport_decode b = Inr f" "tf_kind f \<in> {ServerHello, AuthAccepted, UploadAccepted, SyncBatch, RelayDirectoryResponse, Pong, RateLimit, ErrorFrame}"
  shows "always_refused K b"
proof -
  have "dispatch K w f = db_fail InvalidInput" for w
    using assms(2) by (auto simp: dispatch_def db_bind_def db_fail_def fun_eq_iff)
  then show ?thesis
    using assms(1) by (auto simp: always_refused_def handle_binary_def Let_def db_fail_def failed_def split: prod.splits)
qed

lemma forward_refused:
  assumes "always_refused K b"
  obtains n w' where "forward (core_client reject K (trim_slashes core)) (relay_state core) b long_poll w = (Inl n, w')"
    "n = 400 \<or> n = 502"
proof (cases "transport_decode b")
  case (Inl e)
  then show ?thesis
    using that by (simp add: forward_malformed)
next
  case (Inr f)
  obtain app xs where w: "w = (app, xs)"
    by fastforce
  show ?thesis
  proof (cases xs)
    case Nil
    then show ?thesis
      using that Inr w by (simp add: forward_def core_client_def core_http_def)
  next
    case (Cons x xs')
    obtain p app' where run: "handle_binary K x app b long_poll = (p, app')"
      by fastforce
    have "hr_status p \<noteq> OK \<or> hr_body p = []"
      using assms [unfolded always_refused_def, rule_format, of x app long_poll] run by simp
    then have "relayed p = Inl 502"
      by (auto simp: relayed_def)
    then show ?thesis
      using that w Cons run by (simp add: forward_core [OF Inr])
  qed
qed

lemma relay_answer_refused:
  assumes "\<forall>r. \<not> is_success (ha_status (reject r))" "always_refused K b"
  shows "fst (relay_answer (NetworkSender (relay_network reject upgrade K core reach)) e b w) = None"
proof -
  let ?N = "relay_network reject upgrade K core reach"
  have ws: "\<exists>err w'. network_send_websocket ?N e b w = (Inl err, w')" for w
  proof -
    obtain n w' where "forward (core_client reject K (trim_slashes core)) (relay_state core) b (wants_long_poll b)
        (pw_app w, pw_exchanges w) = (Inl n, w')"
      using assms(2) by (rule forward_refused)
    then show ?thesis
      by (simp add: network_send_websocket_def relay_network_def Let_def served_through_def send_fails_def split: prod.split)
  qed
  have https: "\<exists>err w'. network_send_https ?N e b w = (Inl err, w')" for w
  proof -
    obtain n w' where "forward (core_client reject K (trim_slashes core)) (relay_state core) b False
        (pw_app w, pw_exchanges w) = (Inl n, w')" "n = 400 \<or> n = 502"
      using assms(2) by (rule forward_refused)
    moreover from this(2) have "\<not> is_success n"
      by (auto simp: is_success_def)
    ultimately show ?thesis
      using assms(1)
      by (cases "reach (re_https_url e)") (auto simp: network_send_https_def relay_network_def Let_def served_through_def
          relay_service_def route_request_def relay_routes_def relay_https_def cbor_error_def relay_cbor_response_def split: prod.splits)
  qed
  obtain err w1 where "network_send_websocket ?N e b w = (Inl err, w1)"
    using ws by blast
  moreover obtain err' w2 where "network_send_https ?N e b w1 = (Inl err', w2)"
    using https by blast
  ultimately show ?thesis
    by (simp add: relay_answer_def NetworkSender_def)
qed

section \<open>Properties\<close>


text \<open>
  C30: a refused frame blocks the queue. The relay turns every error of the service into a 502, so
  the client cannot tell a refusal from a relay that is down: a flush whose first frame the service
  always refuses ends with \<open>Unavailable\<close> and keeps the whole queue, whatever relays are up.
\<close>

theorem refused_frame_blocks_queue:
  assumes "\<forall>r. \<not> is_success (ha_status (reject r))"
    and "tm_outbox m = q # qs" "always_refused K (qf_bytes q)"
  shows "\<exists>m' w'. flush (NetworkSender (relay_network reject upgrade K core reach)) now m w = (Inl Unavailable, m', w') \<and>
    tm_outbox m' = q # qs"
proof -
  let ?S = "NetworkSender (relay_network reject upgrade K core reach)"
  obtain v m' w' where send: "send_frame ?S now (qf_bytes q) m w = (v, m', w')"
    by (metis prod_cases3)
  have "v = None"
  proof (rule ccontr)
    assume "v \<noteq> None"
    then obtain e w1 w2 x where "relay_answer ?S e (qf_bytes q) w1 = (Some x, w2)"
      using send try_endpoints_answered unfolding send_frame_def Let_def by (metis option.exhaust)
    with relay_answer_refused [OF assms(1,3), where e = e and w = w1] show False
      by (metis fst_conv option.distinct(1))
  qed
  then show ?thesis
    using send send_frame_frame [OF send] assms(2) by (simp add: flush_def)
qed

section \<open>Example\<close>

text \<open>A ping and the creation of a group; the first relay is down, the second answers by HTTPS only.\<close>

definition path_exchange :: exchange where
  "path_exchange = \<lparr>ex_limit_now = 5, ex_limit_faults = [], ex_listening = False, ex_first = demo_draws, ex_first_faults = [],
     ex_meanwhile = [], ex_second = demo_draws, ex_second_faults = []\<rparr>"

definition path_ping :: TransportFrame where
  "path_ping = demo_frame Ping [1, 2]"

definition path_create :: TransportFrame where
  "path_create = demo_frame UploadEnvelope (replicate 32 7 @ [3] @ replicate 16 9)"

definition path_app :: App where
  "path_app = \<lparr>app_db = demo_online, app_requests = 0, app_errors = 0\<rparr>"

definition path_world0 :: path_world where
  "path_world0 = \<lparr>pw_app = path_app, pw_exchanges = [path_exchange, path_exchange], pw_socket = []\<rparr>"

definition path_reach :: "bytes \<Rightarrow> string option" where
  "path_reach url = (if url = ascii ''https://b'' then Some ''/v1/relay'' else None)"

definition path_reject :: "rejection \<Rightarrow> http_answer" where
  "path_reject r = status_answer (case r of NotFound \<Rightarrow> 404 | MethodNotAllowed \<Rightarrow> 405 | PayloadTooLarge \<Rightarrow> 413)"

definition path_manager :: TransportManager where
  "path_manager = demo_manager\<lparr>
     tm_directory := (demo_directory 3)\<lparr>rd_endpoints := [(demo_relay 9 2)\<lparr>re_https_url := ascii ''https://b''\<rparr>, demo_relay 7 1]\<rparr>,
     tm_outbox := [\<lparr>qf_client_message_id = replicate 16 9, qf_bytes = frame_bytes path_ping\<rparr>,
       \<lparr>qf_client_message_id = replicate 16 9, qf_bytes = frame_bytes path_create\<rparr>]\<rparr>"

text \<open>The database after the rate limit of each request, and the service after the ping.\<close>

definition path_counted :: backend where
  "path_counted = demo_online\<lparr>abuse_counters := [\<lparr>ab_scope = ascii ''frame/v1/'' @ replicate 16 9, ab_window = 5, ab_count = 1\<rparr>]\<rparr>"

definition path_counted2 :: backend where
  "path_counted2 = demo_online\<lparr>abuse_counters := [\<lparr>ab_scope = ascii ''frame/v1/'' @ replicate 16 9, ab_window = 5, ab_count = 2\<rparr>]\<rparr>"

definition path_app1 :: App where
  "path_app1 = \<lparr>app_db = path_counted, app_requests = 1, app_errors = 0\<rparr>"

lemma path_frames:
  "transport_decode (frame_bytes path_ping) = Inr path_ping" "transport_decode (frame_bytes path_create) = Inr path_create"
  by code_simp+

lemma path_ping_served:
  "binary_api demo_crypto path_exchange path_app (frame_bytes path_ping) = (cbor_response OK (demo_frame Pong [1, 2]), path_app1)"
proof -
  have "check_rate_limit 5 (ascii ''frame/v1/'' @ replicate 16 9) 120 60 (quiet demo_online) = (Inr (), quiet path_counted)"
    by code_simp
  moreover have "dispatch demo_crypto demo_draws path_ping c = (Inr (demo_frame Pong [1, 2]), c)" for c
    by (simp add: dispatch_def path_ping_def demo_frame_def db_bind_def db_return_def)
  moreover have "tf_client_message_id path_ping = replicate 16 9" "tf_kind (demo_frame Pong [1, 2]) = Pong"
    by (simp_all add: path_ping_def demo_frame_def)
  ultimately show ?thesis
    by (simp add: binary_api_def handle_binary_def Let_def path_frames path_exchange_def path_app_def path_app1_def empty_page_def)
qed

lemma path_create_served:
  "\<exists>app'. binary_api demo_crypto path_exchange path_app1 (frame_bytes path_create) =
     (cbor_response OK (demo_frame UploadAccepted [3]), app') \<and> app_requests app' = 2 \<and> app_errors app' = 0"
proof -
  have "check_rate_limit 5 (ascii ''frame/v1/'' @ replicate 16 9) 120 60 (quiet path_counted) = (Inr (), quiet path_counted2)"
    by code_simp
  moreover have "fst (dispatch demo_crypto demo_draws path_create (quiet path_counted2)) = Inr (demo_frame UploadAccepted [3])"
    by code_simp
  then obtain c where "dispatch demo_crypto demo_draws path_create (quiet path_counted2) = (Inr (demo_frame UploadAccepted [3]), c)"
    by (metis prod.collapse)
  moreover have "tf_client_message_id path_create = replicate 16 9" "tf_kind (demo_frame UploadAccepted [3]) = UploadAccepted"
    by (simp_all add: path_create_def demo_frame_def)
  ultimately show ?thesis
    by (simp add: binary_api_def handle_binary_def Let_def path_frames path_exchange_def path_app1_def empty_page_def)
qed

lemma path_posted:
  "\<exists>replies app' xs'. post_in_order demo_crypto (map qf_bytes (tm_outbox path_manager)) (pw_app path_world0, pw_exchanges path_world0) =
     Some (replies, app', xs') \<and> length replies = 2 \<and> app_requests app' = 2 \<and> app_errors app' = 0"
proof -
  have "hr_body (cbor_response OK (demo_frame Pong [1, 2])) \<noteq> []" "hr_body (cbor_response OK (demo_frame UploadAccepted [3])) \<noteq> []"
    by code_simp+
  then show ?thesis
    using path_create_served by (auto simp: path_manager_def path_world0_def path_ping_served)
qed


theorem refused_frame_blocks_queue_witness:
  "\<exists>m' w'. flush (NetworkSender (relay_network path_reject (\<lambda>_. status_answer 101) demo_crypto ''http://core/'' path_reach))
       1000 (path_manager\<lparr>tm_outbox := \<lparr>qf_client_message_id = replicate 16 9, qf_bytes = frame_bytes (demo_frame Pong [])\<rparr> #
         tm_outbox path_manager\<rparr>) path_world0 = (Inl Unavailable, m', w') \<and> length (tm_outbox m') = 3"
proof -
  let ?q = "\<lparr>qf_client_message_id = replicate 16 9, qf_bytes = frame_bytes (demo_frame Pong [])\<rparr>"
  let ?m = "path_manager\<lparr>tm_outbox := ?q # tm_outbox path_manager\<rparr>"
  have "transport_decode (qf_bytes ?q) = Inr (demo_frame Pong [])" "tf_kind (demo_frame Pong []) = Pong"
    by code_simp+
  then have "always_refused demo_crypto (qf_bytes ?q)"
    by (intro service_kinds_refused) auto
  moreover have "\<forall>r. \<not> is_success (ha_status (path_reject r))"
    by (simp add: path_reject_def status_answer_def is_success_def split: rejection.split)
  moreover have "tm_outbox ?m = ?q # tm_outbox path_manager" "length (tm_outbox path_manager) = 2"
    by (simp_all add: path_manager_def)
  ultimately show ?thesis
    using refused_frame_blocks_queue [where m = ?m and q = ?q and qs = "tm_outbox path_manager" and reject = path_reject and
        upgrade = "\<lambda>_. status_answer 101" and K = demo_crypto and core = "''http://core/''" and reach = path_reach and
        now = 1000 and w = path_world0] by fastforce
qed

end
