(* ===== verification/Clock.thy ===== *)
theory Clock
  imports Prelude
begin

text \<open>
  The clocks of the crates: \<open>now_ms\<close> of \<open>messenger-core\<close>, \<open>unix_time\<close> of \<open>messenger-transport\<close> and \<open>now\<close> of
  \<open>messenger-identity\<close>. A \<open>SystemTime\<close> is a number of nanoseconds since the Unix epoch, negative
  before it.
\<close>

type_synonym system_time = int

text \<open>\<open>duration_since(UNIX_EPOCH).unwrap_or_default()\<close>: a clock before the epoch counts as the epoch.\<close>

definition since_epoch :: "system_time \<Rightarrow> int" where
  "since_epoch t = (if t < 0 then 0 else t)"

text \<open>\<open>as_millis().min(i64::MAX as u128) as i64\<close> and \<open>as_secs()\<close>, a \<open>u64\<close>.\<close>

definition now_ms :: "system_time \<Rightarrow> int" where
  "now_ms t = min (since_epoch t div 1000000) (2 ^ 63 - 1)"

definition unix_time :: "system_time \<Rightarrow> u64" where
  "unix_time t = word_of_int (since_epoch t div 1000000000)"

definition identity_now :: "system_time \<Rightarrow> u64" where
  "identity_now t = word_of_int (since_epoch t div 1000000000)"

lemma now_ms_range: "0 \<le> now_ms t" "now_ms t < 2 ^ 63"
  by (auto simp: now_ms_def since_epoch_def pos_imp_zdiv_nonneg_iff)

lemma now_ms_mono: "t \<le> t' \<Longrightarrow> now_ms t \<le> now_ms t'"
  by (auto simp: now_ms_def since_epoch_def zdiv_mono1 intro: min.mono)

lemma unat_unix_time:
  assumes "t < 10 ^ 9 * 2 ^ 64"
  shows "unat (unix_time t) = nat (since_epoch t div 1000000000)"
proof -
  have "0 \<le> since_epoch t div 1000000000" "since_epoch t div 1000000000 < 2 ^ 64"
    using assms by (auto simp: since_epoch_def pos_imp_zdiv_nonneg_iff)
  then show ?thesis
    by (simp add: unix_time_def unat_eq_nat_uint uint_word_of_int_eq take_bit_int_eq_self)
qed

end
