(* ===== verification/Lab.thy ===== *)
theory Lab
  imports Transport_Correct Directory_Tool Clock
begin

text \<open>
  The two programs under \<open>tools\<close> that exercise the crates: the failover demonstration,
  \<open>network-lab/src/main.rs\<close>, and the load generator, \<open>load-generator/src/main.rs\<close>. The time and the
  key are arguments; what they print is the result, durations apart.
\<close>

section \<open>The failover demonstration\<close>

definition LabSender :: "unit EndpointSender" where
  "LabSender = \<lparr>send_websocket = (\<lambda>e frame w. (Inl Unavailable, w)),
     send_https = (\<lambda>e frame w. (if re_endpoint_id e = replicate 16 1 then Inl Unavailable else Inr frame, w))\<rparr>"

text \<open>The directory before it is signed; \<open>now + 3600\<close> wraps in a release build.\<close>

definition lab_directory :: "u64 \<Rightarrow> SignedRelayDirectory" where
  "lab_directory now = \<lparr>rd_version = 1, rd_issued_at = (if now = 0 then 0 else now - 1), rd_expires_at = now + 3600,
     rd_endpoints =
       [\<lparr>re_endpoint_id = replicate 16 1, re_websocket_url = ascii ''wss://blocked-a.invalid/v1/ws'',
         re_https_url = ascii ''https://blocked-a.invalid/v1/relay'', re_priority = 1\<rparr>,
        \<lparr>re_endpoint_id = replicate 16 2, re_websocket_url = ascii ''wss://blocked-websocket.invalid/v1/ws'',
         re_https_url = ascii ''https://relay-b.invalid/v1/relay'', re_priority = 2\<rparr>],
     rd_signature = replicate 64 0\<rparr>"

definition lab_frame :: TransportFrame where
  "lab_frame = \<lparr>tf_version = PROTOCOL_VERSION, tf_kind = UploadEnvelope, tf_client_message_id = replicate 16 9,
     tf_ttl_seconds = 60, tf_body = ascii ''opaque MLS event''\<rparr>"

text \<open>\<open>Inl\<close> is a panic with the message of the \<open>expect\<close>; otherwise what is printed: pending, replies, counters.\<close>

definition lab_main :: "ed25519 \<Rightarrow> bytes \<Rightarrow> system_time \<Rightarrow> (string, nat \<times> nat \<times> ByteCounters) result" where
  "lab_main E key t =
     (let now = unix_time t in
      and_then (map_err (\<lambda>_. ''directory encoding'') (signing_bytes (lab_directory now))) (\<lambda>msg.
     let directory = (lab_directory now)\<lparr>rd_signature := ed_sign E key msg\<rparr> in
     and_then (map_err (\<lambda>_. ''signed directory'') (manager_new E directory (ed_public E key) now)) (\<lambda>manager.
     case enqueue lab_frame manager of
       (Inl _, _) \<Rightarrow> Inl ''frame''
     | (Inr _, manager) \<Rightarrow>
         (case flush LabSender now manager () of
            (Inl _, _, _) \<Rightarrow> Inl ''Relay B HTTPS fallback''
          | (Inr response, manager, _) \<Rightarrow> Inr (pending_count manager, length response, tm_counters manager)))))"

section \<open>The load generator\<close>

text \<open>\<open>args().nth(1)\<close>, parsed as a \<open>usize\<close>; 100000 when absent or malformed, at least 1.\<close>

definition load_events :: "bytes list \<Rightarrow> nat" where
  "load_events args = max 1
     (if length args > 1 then (case parse_unsigned usize_bound (args ! 1) of Inr n \<Rightarrow> n | Inl _ \<Rightarrow> 100000) else 100000)"

definition load_frame :: TransportFrame where
  "load_frame = \<lparr>tf_version = PROTOCOL_VERSION, tf_kind = UploadEnvelope, tf_client_message_id = replicate 16 4,
     tf_ttl_seconds = 604800, tf_body = replicate 144 0xA5\<rparr>"

fun load_loop :: "nat \<Rightarrow> bytes \<Rightarrow> (string, unit) result" where
  "load_loop 0 encoded = Inr ()"
| "load_loop (Suc n) encoded =
     (case transport_decode encoded of Inl _ \<Rightarrow> Inl ''decode'' | Inr parsed \<Rightarrow> load_loop n encoded)"

definition load_main :: "bytes list \<Rightarrow> (string, nat \<times> nat) result" where
  "load_main args =
     and_then (map_err (\<lambda>_. ''canonical frame'') (transport_encode load_frame)) (\<lambda>encoded.
     and_then (load_loop (load_events args) encoded) (\<lambda>_.
     Inr (load_events args, length encoded)))"

section \<open>Lemmas\<close>

lemma load_frame_codec:
  "transport_encode load_frame = Inr (frame_bytes load_frame)" "length (frame_bytes load_frame) = 172"
  "transport_decode (frame_bytes load_frame) = Inr load_frame"
  by code_simp+

lemma lab_frame_encodes: "transport_encode lab_frame = Inr (frame_bytes lab_frame)" "length (frame_bytes lab_frame) = 40"
  by code_simp+

lemma load_loop_runs: "load_loop n (frame_bytes load_frame) = Inr ()"
  by (induction n) (simp_all add: load_frame_codec)

lemma lab_signed_part: "\<exists>msg. signing_bytes (lab_directory now) = Inr msg"
  by (simp add: signing_bytes_eq lab_directory_def urls_short_def ascii_def)

lemma lab_window:
  assumes "unat now + 3600 < 2 ^ 64"
  shows "now < now + 3600" "\<not> rd_issued_at (lab_directory now) > saturating_add64 now 300"
    "rd_issued_at (lab_directory now) < now + 3600"
proof -
  have sum: "unat (now + 3600) = unat now + 3600"
    using assms by (simp add: unat_word_ariths)
  then show "now < now + 3600"
    by (simp add: word_less_nat_alt)
  have i: "unat (rd_issued_at (lab_directory now)) = unat now - 1"
    by (simp add: lab_directory_def unat_minus_one)
  then show "rd_issued_at (lab_directory now) < now + 3600"
    using sum by (simp add: word_less_nat_alt)
  show "\<not> rd_issued_at (lab_directory now) > saturating_add64 now 300"
    using i assms by (simp add: word_less_nat_alt unat_saturating_add64 min_def)
qed

definition lab_manager :: "SignedRelayDirectory \<Rightarrow> bytes \<Rightarrow> TransportManager" where
  "lab_manager d key = \<lparr>tm_directory = d, tm_verification_key = key, tm_outbox = [],
     tm_health = [], tm_counters = counters_default, tm_preferred_endpoint = None\<rparr>"

lemma lab_starts:
  assumes "ed25519_correct E" "length key = 32" "unat now + 3600 < 2 ^ 64" "signing_bytes (lab_directory now) = Inr msg"
    "d = (lab_directory now)\<lparr>rd_signature := ed_sign E key msg\<rparr>"
  shows "manager_new E d (ed_public E key) now = Inr (lab_manager d (ed_public E key))"
proof -
  have "signing_bytes d = Inr msg"
    using assms(4) by (auto simp: assms(5) signing_bytes_def split: if_splits)
  moreover have "rd_version d = 1" "rd_issued_at d = rd_issued_at (lab_directory now)" "rd_expires_at d = now + 3600"
    "rd_signature d = ed_sign E key msg"
    by (simp_all add: assms(5) lab_directory_def)
  ultimately show ?thesis
    using ed_check_sign [OF assms(1,2), of msg] lab_window [OF assms(3)]
    by (simp add: manager_new_def directory_verify_def ed_check_def lab_manager_def not_le not_less)
qed

lemmas lab_flush = send_frame_def route_def Let_def send_endpoint_def LabSender_def health_of_def health_default_def
  set_health_def count_attempt_def count_websocket_failure_def note_failure_def note_success_def counters_default_def pending_count_def

section \<open>Properties\<close>

text \<open>
  The demonstration never panics and shows one failover, for every key and time (but the last hour
  that 64 bits can count): two attempts at
  relay A and two at relay B, both sockets fail and one HTTPS request does, the relay is switched
  once, the frame is answered and the queue is empty.
\<close>

theorem lab_fails_over:
  assumes "ed25519_correct E" "length key = 32" "t < 10 ^ 9 * (2 ^ 64 - 3600)"
  shows "lab_main E key t = Inr (0, 1, \<lparr>bc_sent = 160, bc_received = 40, bc_attempts = 4, bc_websocket_failures = 2,
    bc_https_failures = 1, bc_relay_switches = 1\<rparr>)"
proof -
  define now where "now = unix_time t"
  have "unat now + 3600 < 2 ^ 64"
    using assms(3) by (simp add: now_def unat_unix_time since_epoch_def; linarith)
  obtain msg where msg: "signing_bytes (lab_directory now) = Inr msg"
    using lab_signed_part by blast
  note start = lab_starts [OF assms(1,2) \<open>unat now + 3600 < 2 ^ 64\<close> msg refl]
  let ?m = "lab_manager ((lab_directory now)\<lparr>rd_signature := ed_sign E key msg\<rparr>) (ed_public E key)"
  let ?q = "\<lparr>qf_client_message_id = replicate 16 9, qf_bytes = frame_bytes lab_frame\<rparr>"
  have queued: "enqueue lab_frame ?m = (Inr (), ?m\<lparr>tm_outbox := [?q]\<rparr>)"
    by (simp add: enqueue_def lab_frame_encodes) (simp add: lab_frame_def lab_manager_def)
  show ?thesis
    unfolding lab_main_def Let_def now_def [symmetric]
    by (simp add: msg start queued) (simp add: lab_flush flush_def lab_manager_def lab_directory_def lab_frame_encodes(2))
qed

text \<open>
  The load generator decodes as often as it is asked to, 100000 times by default and once at least,
  and never panics.
\<close>

theorem load_main_completes: "load_main args = Inr (load_events args, 172)"
  by (simp add: load_main_def load_frame_codec load_loop_runs)

end
