(* ===== verification/Spec2Isabelle.thy ===== *)
theory Spec2Isabelle
  imports Directory_Tool_Correct Upload_Path Ffi_Correct Message_Path Lab
begin

text \<open>
  \<^bold>\<open>Resilient Messenger: a verification library\<close>

  The messenger is a set of Rust crates and services. A device keeps an offline-first encrypted
  store (\<open>crates/messenger-core\<close>), an MLS engine (\<open>crates/messenger-crypto\<close>) and its identity
  (\<open>crates/messenger-identity\<close>), which the apps reach through \<open>crates/messenger-uniffi\<close>. Frames of the
  wire protocol (\<open>crates/messenger-protocol\<close>) travel through a transport manager with failover over
  relays from a signed directory (\<open>crates/messenger-transport\<close>), over an opaque relay
  (\<open>services/relay\<close>), to the delivery service (\<open>services/core-api\<close>), which keeps events, sessions and
  groups in PostgreSQL. Operators sign directories with \<open>tools/network-lab/src/bin/relay-directory.rs\<close>.

  \<^bold>\<open>Theories and sources\<close>

  \<^item> \<open>Prelude\<close>: types, results and the \<open>?\<close> operator, big-endian integers, UTF-8, readers over a
    slice; the locales \<open>byte_reader\<close> (what a reader that takes \<open>n\<close> bytes promises) and \<open>wire_codec\<close> (a
    decoder that accepts exactly what the encoder writes).
  \<^item> \<open>Tables\<close>: database tables as keyed lists, statements that may fail one by one, transactions,
    connections with an open transaction; \<open>ensures\<close> and \<open>keeps\<close> for statements, and the locales
    \<open>state_preorder\<close>, \<open>transition_system\<close> and \<open>monotone_system\<close> for what runs of operations keep.
  \<^item> \<open>Primitives\<close>: Ed25519, XChaCha20-Poly1305 and SHA-256 as records of functions with their
    documented behaviour, and computable instances for examples.
  \<^item> \<open>Clock\<close>: the clock functions of the crates, from a system time.
  \<^item> \<open>Protocol\<close>: \<open>messenger-protocol/src/lib.rs\<close>. CBOR encoder and decoder, frames, envelopes.
    The codecs are exact, encoding fails in exactly the cases listed.
  \<^item> \<open>Local_Store\<close>, \<open>Local_Store_Invariant\<close>, \<open>Local_Store_Correct\<close>: \<open>messenger-core/src/lib.rs\<close>, the
    record \<open>core\<close> for \<open>MessengerCore\<close>, one definition per method. The invariant of the rows over every
    sequence of operations, failures and restarts; durability, atomicity, exactly-once ingestion,
    key rotation, monotone revision and cursors.
  \<^item> \<open>Relay_Directory\<close>, \<open>Transport_Manager\<close>, \<open>Transport_Correct\<close>: \<open>messenger-transport/src/lib.rs\<close>.
    The directory codec, and the manager, whose flush refines an abstract drain of the queue over
    the relays in order of preference; bounds of the backoff, delivery when a relay answers.
  \<^item> \<open>Directory_Tool\<close>, \<open>Directory_Tool_Correct\<close>: the directory tool, its files and text handling,
    and that what it signs verifies.
  \<^item> \<open>Identity\<close>: \<open>messenger-identity/src/lib.rs\<close>. Certificates, invites, QR payloads, recovery.
  \<^item> \<open>Delivery\<close>, \<open>Delivery_Invariant\<close>, \<open>Delivery_Correct\<close>: \<open>core-api/src/lib.rs\<close> on the tables of
    \<open>migrations/0001_foundation.sql\<close>. The constraints of the schema and the progress of every
    request; single use of challenges, revocation of reused refresh families, idempotent uploads,
    pages, signed membership changes.
  \<^item> \<open>Core_Api\<close>, \<open>Core_Api_Correct\<close>: \<open>core-api/src/main.rs\<close>. From the bytes of a request to the
    bytes of its answer, the rate limit, long polling, counters; no effect without a token.
  \<^item> \<open>Upload_Path\<close> and the theorem below: from the upload of an event to its delivery.
  \<^item> \<open>Crypto_Engine\<close>, \<open>Crypto_Correct\<close>: \<open>messenger-crypto/src/lib.rs\<close>. Credentials, one MLS group per
    conversation, snapshots that restore what they were taken of, isolation of conversations.
  \<^item> \<open>Ffi\<close>, \<open>Ffi_Correct\<close>: \<open>messenger-uniffi/src/lib.rs\<close>. Byte vectors of any length at the boundary;
    the invariant of the store and complete listings for whatever an app passes in, and
    conversations that stay apart over any sequence of calls on a device.
  \<^item> \<open>Http\<close>: what the services share of HTTP and of their start: routes, body limits, processes.
  \<^item> \<open>Core_Service\<close>: \<open>main\<close> of \<open>core-api/src/main.rs\<close>. Start, migration command and routes of the
    delivery service; what the database goes through over any number of processes.
  \<^item> \<open>Relay\<close>: \<open>services/relay/src/main.rs\<close>. Start, routes and forwarding, and its transparency with
    the delivery service in the place of the HTTP client.
  \<^item> \<open>Message_Path\<close>: the transport manager, the relays and the delivery service composed: a flush
    hands each frame to the service exactly once and returns the service's own answers. Both this
    and the delivery by a reliable relay rest on the locale \<open>answering_relay\<close> of \<open>Transport_Correct\<close>.
  \<^item> \<open>Lab\<close>: \<open>tools/network-lab/src/main.rs\<close> and \<open>tools/load-generator/src/main.rs\<close>. The failover the
    demonstration prints, for every key and time, and that the load generator completes.

  \<^bold>\<open>Environment\<close>

  What the code does not determine is an argument: clocks, random identifiers, keys and nonces,
  values of sequences (\<open>dr_nextval\<close>), and for every statement or file access whether it fails (lists
  that are consumed one element at a time; beyond their end everything succeeds). Third-party code
  is a record of functions: Ed25519, AEAD, SHA-256, BIP-39, Unicode normalisation and case
  mapping, OpenMLS, the HTTP and WebSocket clients, the latter with a world that calls change, what
  axum answers itself, and how addresses of databases and sockets are read and bound.
  Theorems name what they rely on (\<open>ed25519_correct\<close>, \<open>aead_correct\<close>); OpenMLS is used without any
  assumption but the two about the serialised signer in \<open>snapshot_round_trip\<close>.

  \<^bold>\<open>Bounds and termination\<close>

  No definition uses fuel: loops recurse over a list, a count or the length of what is left, so
  every operation is total. Machine integers keep their width where the code does arithmetic on
  them; database integers are \<open>int\<close> with the conversions of the source written out. The limits of
  the code (64 KiB frames, 4 KiB envelopes, 50 events a page, 32 endpoints, 100 key packages, 2048
  byte addresses, 511 s of backoff) appear in the definitions as constants or literals.

  \<^bold>\<open>Not modelled\<close>

  Interleaving of database transactions and of calls on one core (each operation runs alone; what
  a long poll may meet while it waits is an argument), cancellation of asynchronous calls, commits
  with an unknown outcome, allocation failure, poisoning of the locks inside the core and OpenMLS,
  timing and side channels, logging. The request id, trace and panic layers of the services and
  their wait for signals, the scaffolding UniFFI generates, examples, tests, fuzz targets, the
  placeholder apps and the build have no logic of the messenger's own.
\<close>

section \<open>Across components\<close>



end
